theory Spec2Isabelle
  imports Complex_Main "HOL-Library.Word" "HOL-Library.AList"
begin

unbundle bit_operations_syntax

section \<open>Bytes, faults and Python list primitives\<close>

text \<open>
  A byte of the wire protocol is an 8-bit word. Python integers are unbounded and are
  modelled by \<open>int\<close> (sizes and counts by \<open>nat\<close>).
\<close>

type_synonym byte = "8 word"

text \<open>
  The exceptions the modelled code can raise. \<open>ValueError\<close> carries the message of an
  explicit \<^verbatim>\<open>raise ValueError(...)\<close>; the other constructors are faults raised by the
  Python runtime or its \<^verbatim>\<open>struct\<close> library.
\<close>

datatype fault =
    ValueError string
  | IndexError
  | KeyError string
  | StructError
  | OverflowError
  | DecodeError
  | TypeError

text \<open>\<^verbatim>\<open>xs[i:j]\<close> for non-negative \<open>i\<close>, \<open>j\<close>.\<close>

definition py_slice :: "'a list \<Rightarrow> nat \<Rightarrow> nat \<Rightarrow> 'a list" where
  "py_slice xs i j = drop i (take j xs)"

text \<open>\<^verbatim>\<open>collections.deque(..., maxlen).append(x)\<close>: the oldest element falls out.\<close>

definition deque_append :: "nat \<Rightarrow> 'a list \<Rightarrow> 'a \<Rightarrow> 'a list" where
  "deque_append maxlen q x = (let q' = q @ [x] in drop (length q' - maxlen) q')"

section \<open>Frame assembly: \<^verbatim>\<open>RoverDriver.parser\<close>\<close>

text \<open>
  \<^verbatim>\<open>utility.check_sum\<close> is not among the sources. Every function that calls it takes it
  as the parameter \<open>cs\<close>, a function from the payload bytes to the two checksum bytes
  \<open>(result[0], result[1])\<close>; the theorems hold for every such function.
\<close>

type_synonym check_sum = "byte list \<Rightarrow> byte \<times> byte"

definition HEADER_05 :: "byte list" where "HEADER_05 = [0xAF, 0x20, 0x05]"
definition HEADER_06 :: "byte list" where "HEADER_06 = [0xAF, 0x20, 0x06]"
definition HEADER_07 :: "byte list" where "HEADER_07 = [0xAF, 0x20, 0x07]"
definition PAYLOAD_LEN_IDX :: nat where "PAYLOAD_LEN_IDX = 4"
definition MAX_FRAME_LIMIT :: nat where "MAX_FRAME_LIMIT = 500"

text \<open>The local variables of \<^verbatim>\<open>parser\<close> that live across loop iterations.\<close>

record parser_state =
  sync_pattern :: "byte list"
  find_header :: bool
  frame :: "byte list"
  payload_len :: nat

text \<open>
  What one iteration does besides updating its variables: it calls \<^verbatim>\<open>parse_frame\<close> on a
  complete frame, or prints \<^verbatim>\<open>Checksum error!\<close>.
\<close>

datatype parser_event = ParseFrame "byte list" | ChecksumError

text \<open>
  \<^verbatim>\<open>self.parse_frame(frame)\<close> is called with no \<^verbatim>\<open>try\<close> around it, so an exception it raises
  leaves \<^verbatim>\<open>parser\<close> and ends the task. The method is the parameter \<open>pf\<close>: from the frame and
  the driver object \<open>x\<close> (of any type) to the exception it raises, if any, and the driver
  object afterwards. The theorems hold for every such function.
\<close>

type_synonym 'd parse_frame = "byte list \<Rightarrow> 'd \<Rightarrow> fault option \<times> 'd"

text \<open>
  Where \<^verbatim>\<open>parser\<close> stands after some bytes: the exception that ended it, if any, its local
  variables, the driver object, and the events so far, oldest first.
\<close>

record 'd parser_result =
  pr_fault :: "fault option"
  pr_state :: parser_state
  pr_driver :: 'd
  pr_events :: "parser_event list"

definition parser_init :: parser_state where
  "parser_init = \<lparr>sync_pattern = [0, 0, 0], find_header = False, frame = [], payload_len = 0\<rparr>"

text \<open>An iteration that ends normally.\<close>

definition parser_ok :: "parser_state \<Rightarrow> 'd \<Rightarrow> parser_event list \<Rightarrow> 'd parser_result" where
  "parser_ok st x ev = \<lparr>pr_fault = None, pr_state = st, pr_driver = x, pr_events = ev\<rparr>"

text \<open>
  The last statement of the frame branch:
  \<^verbatim>\<open>if payload_len > MAX_FRAME_LIMIT or len(frame) > MAX_FRAME_LIMIT\<close>.
\<close>

definition limit_check :: "parser_state \<Rightarrow> parser_state" where
  "limit_check st =
     (if payload_len st > MAX_FRAME_LIMIT \<or> length (frame st) > MAX_FRAME_LIMIT
      then st\<lparr>find_header := False, payload_len := 0\<rparr> else st)"

text \<open>
  The branch \<^verbatim>\<open>if find_header:\<close> of one iteration, for the byte \<open>d\<close> taken from the queue.
  When \<^verbatim>\<open>parse_frame\<close> raises, the limit check is not reached.
\<close>

definition parser_frame_byte ::
  "check_sum \<Rightarrow> 'd parse_frame \<Rightarrow> parser_state \<Rightarrow> 'd \<Rightarrow> byte \<Rightarrow> 'd parser_result" where
  "parser_frame_byte cs pf st x d =
    (let fr = frame st @ [d];
         st1 = st\<lparr>frame := fr\<rparr>
     in if PAYLOAD_LEN_IDX + 2 = length fr then
          parser_ok
            (limit_check (st1\<lparr>payload_len :=
               256 * unat (fr ! (PAYLOAD_LEN_IDX + 1)) + unat (fr ! PAYLOAD_LEN_IDX)\<rparr>)) x []
        else if 6 + payload_len st1 + 2 = length fr then
          (let st2 = st1\<lparr>find_header := False\<rparr>;
               result = cs (py_slice fr (PAYLOAD_LEN_IDX + 2)
                                 (PAYLOAD_LEN_IDX + payload_len st1 + 2))
           in if fst result = fr ! (length fr - 2) \<and> snd result = fr ! (length fr - 1)
              then (case pf fr x of
                      (Some e, x1) \<Rightarrow>
                        \<lparr>pr_fault = Some e, pr_state = st2, pr_driver = x1,
                         pr_events = [ParseFrame fr]\<rparr>
                    | (None, x1) \<Rightarrow> parser_ok (limit_check st2) x1 [ParseFrame fr])
              else parser_ok (limit_check st2) x [ChecksumError])
        else parser_ok (limit_check st1) x [])"

text \<open>The \<^verbatim>\<open>else\<close> branch: the 3-byte sliding window looking for a header.\<close>

definition parser_sync_byte :: "parser_state \<Rightarrow> byte \<Rightarrow> parser_state" where
  "parser_sync_byte st d =
    (let sp = deque_append 3 (sync_pattern st) d;
         st1 = st\<lparr>sync_pattern := sp\<rparr>
     in if sp = HEADER_05 then st1\<lparr>frame := HEADER_05, find_header := True\<rparr>
        else if sp = HEADER_06 then st1\<lparr>frame := HEADER_06, find_header := True\<rparr>
        else if sp = HEADER_07 then st1\<lparr>frame := HEADER_07, find_header := True\<rparr>
        else st1)"

definition parser_step ::
  "check_sum \<Rightarrow> 'd parse_frame \<Rightarrow> parser_state \<Rightarrow> 'd \<Rightarrow> byte \<Rightarrow> 'd parser_result" where
  "parser_step cs pf st x d =
    (if find_header st then parser_frame_byte cs pf st x d
     else parser_ok (parser_sync_byte st d) x [])"

text \<open>
  The loop of \<^verbatim>\<open>parser\<close> over the bytes it takes from the queue, in order. An empty queue
  only makes the task sleep and poll again, so the task's behaviour on a byte stream is
  the iteration of \<open>parser_step\<close> over that stream, up to the first iteration in which
  \<^verbatim>\<open>parse_frame\<close> raises: the bytes after it are not read.
\<close>

fun parser_run ::
  "check_sum \<Rightarrow> 'd parse_frame \<Rightarrow> parser_state \<Rightarrow> 'd \<Rightarrow> byte list \<Rightarrow> 'd parser_result" where
  "parser_run cs pf st x [] = parser_ok st x []"
| "parser_run cs pf st x (d # ds) =
    (let r1 = parser_step cs pf st x d
     in case pr_fault r1 of
          Some e \<Rightarrow> r1
        | None \<Rightarrow>
            (let r2 = parser_run cs pf (pr_state r1) (pr_driver r1) ds
             in r2\<lparr>pr_events := pr_events r1 @ pr_events r2\<rparr>))"

text \<open>
  A frame as the device sends it: 3-byte class header, sub-id, little-endian 16-bit
  payload length, payload, two trailer bytes.
\<close>

definition mk_frame :: "byte list \<Rightarrow> byte \<Rightarrow> byte list \<Rightarrow> byte \<Rightarrow> byte \<Rightarrow> byte list" where
  "mk_frame hdr sub payload c0 c1 =
     hdr @ [sub, of_nat (length payload mod 256), of_nat (length payload div 256)]
         @ payload @ [c0, c1]"

text \<open>
  The parser is looking for a header: the state at start-up and after every completed or
  abandoned frame.
\<close>

definition header_search :: "parser_state \<Rightarrow> bool" where
  "header_search st \<longleftrightarrow>
     \<not> find_header st \<and> length (sync_pattern st) = 3 \<and> payload_len st \<le> MAX_FRAME_LIMIT"

definition is_header :: "byte list \<Rightarrow> bool" where
  "is_header hdr \<longleftrightarrow> hdr = HEADER_05 \<or> hdr = HEADER_06 \<or> hdr = HEADER_07"

text \<open>The state the parser is left in by a whole frame of at most 501 bytes.\<close>

definition after_frame :: "parser_state \<Rightarrow> byte list \<Rightarrow> byte list \<Rightarrow> nat \<Rightarrow> parser_state" where
  "after_frame st hdr fr n =
     st\<lparr>sync_pattern := hdr, frame := fr, find_header := False,
        payload_len := (if n = 493 then 0 else n)\<rparr>"

text \<open>
  The reachable states of the parser stay inside these bounds (see \<open>parser_inv_run\<close>).
\<close>

definition parser_inv :: "parser_state \<Rightarrow> bool" where
  "parser_inv st \<longleftrightarrow>
     length (sync_pattern st) = 3 \<and> payload_len st \<le> MAX_FRAME_LIMIT \<and>
     length (frame st) \<le> MAX_FRAME_LIMIT + 1 \<and>
     (find_header st \<longrightarrow> length (frame st) \<le> MAX_FRAME_LIMIT)"

text \<open>
  The value of \<^verbatim>\<open>payload_len\<close> that the first \<^verbatim>\<open>if\<close> of the frame branch leaves when the
  byte \<open>d\<close> is appended: captured from frame offsets 4 and 5 on the sixth byte, unchanged
  otherwise.
\<close>

definition captured_len :: "parser_state \<Rightarrow> byte \<Rightarrow> nat" where
  "captured_len st d =
     (let fr = frame st @ [d]
      in if length fr = 6 then 256 * unat (fr ! 5) + unat (fr ! 4) else payload_len st)"

text \<open>
  A sample instance of the parameter \<open>cs\<close>, used only to state closed examples (a running
  sum and a sum of the running sums, modulo 256). No theorem below depends on the real
  \<^verbatim>\<open>utility.check_sum\<close> being this function.
\<close>

definition check_sum_sample :: check_sum where
  "check_sum_sample bs = foldl (\<lambda>(a, b) d. (a + d, b + (a + d))) (0, 0) bs"

text \<open>
  A sample instance of the parameter \<open>pf\<close> for closed examples: the driver object is the
  number of frames handled so far, and a frame with sub-id \<open>0C\<close> makes it raise
  \<^verbatim>\<open>struct.error\<close>.
\<close>

definition parse_frame_sample :: "nat parse_frame" where
  "parse_frame_sample fr n = (if fr ! 3 = 0x0C then (Some StructError, n) else (None, Suc n))"

section \<open>The user-configuration message: \<^verbatim>\<open>Msg_060C_topic_0A\<close>\<close>

text \<open>
  The attributes of \<^verbatim>\<open>Msg_060C_topic_0A\<close> that its methods read and write. Python integers
  are \<open>int\<close>; a Python float that is only stored and packed (the rotation matrix, the DMI
  scale factor) is represented by its IEEE-754 binary64 bit pattern, which is what
  \<^verbatim>\<open>struct.pack('<d', x)\<close> writes.

  The constructor is not part of the model. As written, \<^verbatim>\<open>__init__\<close> evaluates the bare
  expression \<^verbatim>\<open>self.flags_leverarm_from_imu_center\<close> (line 44) before anything has assigned
  that attribute, which raises \<^verbatim>\<open>AttributeError\<close>. The methods are modelled on the attribute
  values they read and write.
\<close>

record msg_060C =
  topic :: int
  indicators :: int
  flags :: int
  ICD_num :: int
  min_vel :: int
  max_unaided_time :: int
  max_output_rate :: int
  imu_rotation_matrix :: "64 word list"
  output_position_offset :: "int list"
  smooth_mode :: int
  GNSS_lever_arm_center :: "int list list"
  GNSS_lever_arm_housing_mark :: "int list list"
  internal_lever_arm :: "int list"
  GNSS_lever_arm_uncertainty :: "int list"
  ICD_configuration :: "int list"
  DMI_id :: int
  DMI_scale_factor :: "64 word"
  DMI_lever_arm :: "int list"
  DMI_lever_arm_uncertainty :: int
  DMI_options :: int
  extended_version_flag :: bool
  antenna_num :: int
  DMI_exists :: int
  flags_init_heading_from_GNSS_vel :: bool
  flags_leverarm_from_imu_center :: bool
  msg_060D_cmd :: "byte list"

subsection \<open>Python and \<^verbatim>\<open>struct\<close> primitives used by the codec\<close>

text \<open>Statements run in order; the first one that raises ends the run.\<close>

fun seq_concat :: "(fault + 'a list) list \<Rightarrow> fault + 'a list" where
  "seq_concat [] = Inr []"
| "seq_concat (Inl e # ps) = Inl e"
| "seq_concat (Inr xs # ps) = (case seq_concat ps of Inl e \<Rightarrow> Inl e | Inr ys \<Rightarrow> Inr (xs @ ys))"

fun seq_list :: "(fault + 'a) list \<Rightarrow> fault + 'a list" where
  "seq_list [] = Inr []"
| "seq_list (Inl e # ps) = Inl e"
| "seq_list (Inr x # ps) = (case seq_list ps of Inl e \<Rightarrow> Inl e | Inr ys \<Rightarrow> Inr (x # ys))"

text \<open>\<^verbatim>\<open>range(n)\<close>: empty for a negative \<open>n\<close>.\<close>

definition py_range :: "int \<Rightarrow> nat list" where
  "py_range n = [0..<nat n]"

text \<open>The \<open>k\<close> little-endian bytes of an integer (two's complement for a negative one).\<close>

definition le_bytes :: "nat \<Rightarrow> int \<Rightarrow> byte list" where
  "le_bytes k x = map (\<lambda>i. of_int (x div 256 ^ i)) [0..<k]"

text \<open>\<^verbatim>\<open>bytearray.append(x)\<close>, as the bytes it adds.\<close>

definition bytearray_append :: "int \<Rightarrow> fault + byte list" where
  "bytearray_append x =
     (if 0 \<le> x \<and> x < 256 then Inr [of_int x]
      else Inl (ValueError ''byte must be in range(0, 256)''))"

text \<open>\<^verbatim>\<open>x.to_bytes(2, byteorder='little', signed=False)\<close>.\<close>

definition to_bytes_2 :: "int \<Rightarrow> fault + byte list" where
  "to_bytes_2 x = (if 0 \<le> x \<and> x < 65536 then Inr (le_bytes 2 x) else Inl OverflowError)"

text \<open>
  \<^verbatim>\<open>struct.pack('<{count}X', *xs)\<close> for an integer code \<open>X\<close> of \<open>width\<close> bytes and range
  \<open>lo \<le> x < hi\<close>: it raises \<^verbatim>\<open>struct.error\<close> unless exactly \<open>count\<close> values are given and
  each is in range.
\<close>

definition struct_pack_ints ::
  "nat \<Rightarrow> int \<Rightarrow> int \<Rightarrow> int \<Rightarrow> int list \<Rightarrow> fault + byte list" where
  "struct_pack_ints width lo hi count xs =
     (if int (length xs) = count \<and> list_all (\<lambda>x. lo \<le> x \<and> x < hi) xs
      then Inr (concat (map (le_bytes width) xs)) else Inl StructError)"

text \<open>\<^verbatim>\<open>struct.pack('<{count}d', *xs)\<close>.\<close>

definition struct_pack_d :: "int \<Rightarrow> 64 word list \<Rightarrow> fault + byte list" where
  "struct_pack_d count xs =
     (if int (length xs) = count then Inr (concat (map (\<lambda>w. le_bytes 8 (uint w)) xs))
      else Inl StructError)"

subsection \<open>\<^verbatim>\<open>pack_msg_060D\<close>\<close>

definition FRAME_HEADER :: "byte list" where "FRAME_HEADER = [0xAF, 0x20, 0x06, 0x0D]"

definition MASK_FLAGS_LEVERARM_FROM_IMU_CENTER :: int where
  "MASK_FLAGS_LEVERARM_FROM_IMU_CENTER = 4"

text \<open>The value \<^verbatim>\<open>pack_msg_060D\<close> assigns to \<^verbatim>\<open>self.flags\<close> before appending it.\<close>

definition pack_msg_060D_flags :: "msg_060C \<Rightarrow> int" where
  "pack_msg_060D_flags s =
     (if flags_leverarm_from_imu_center s
      then flags s AND (NOT MASK_FLAGS_LEVERARM_FROM_IMU_CENTER)
      else flags s OR MASK_FLAGS_LEVERARM_FROM_IMU_CENTER)"

text \<open>
  Everything \<^verbatim>\<open>pack_msg_060D\<close> appends after \<^verbatim>\<open>FRAME_HEADER\<close> and before it fills in the
  length: the payload of the command, in the order of the source.
\<close>

definition pack_msg_060D_payload :: "msg_060C \<Rightarrow> fault + byte list" where
  "pack_msg_060D_payload s = seq_concat (
     [bytearray_append (topic s),
      bytearray_append (indicators s),
      bytearray_append (pack_msg_060D_flags s),
      bytearray_append (ICD_num s),
      bytearray_append (min_vel s),
      to_bytes_2 (max_unaided_time s),
      to_bytes_2 (max_output_rate s),
      struct_pack_d 9 (imu_rotation_matrix s),
      struct_pack_ints 4 (- (2 ^ 31)) (2 ^ 31) 3 (output_position_offset s)]
     @ (if extended_version_flag s then [bytearray_append (smooth_mode s)] else [])
     @ [struct_pack_ints 4 (- (2 ^ 31)) (2 ^ 31) (antenna_num s * 3)
          (concat (if flags_leverarm_from_imu_center s then GNSS_lever_arm_center s
                   else GNSS_lever_arm_housing_mark s))]
     @ (if extended_version_flag s
        then [struct_pack_ints 2 0 (2 ^ 16) (antenna_num s) (GNSS_lever_arm_uncertainty s)]
        else [])
     @ (if ICD_num s > 0
        then [struct_pack_ints 1 0 (2 ^ 8) (2 * ICD_num s) (ICD_configuration s)] else [])
     @ (if DMI_exists s > 0
        then [bytearray_append (DMI_exists s),
              struct_pack_d 1 [DMI_scale_factor s],
              struct_pack_ints 4 (- (2 ^ 31)) (2 ^ 31) 3 (DMI_lever_arm s)]
             @ (if extended_version_flag s
                then [struct_pack_ints 2 0 (2 ^ 16) 1 [DMI_lever_arm_uncertainty s],
                      bytearray_append (DMI_options s)]
                else [])
        else []))"

text \<open>
  \<^verbatim>\<open>pack_msg_060D\<close>: the payload length is spliced in at \<^verbatim>\<open>PAYLOAD_LEN_IDX\<close>, the checksum
  is taken over \<^verbatim>\<open>msg_060D_cmd[PAYLOAD_LEN_IDX + 2:]\<close>, and \<^verbatim>\<open>result[1]\<close> is appended before
  \<^verbatim>\<open>result[0]\<close>. The result is the object with \<^verbatim>\<open>flags\<close> and \<^verbatim>\<open>msg_060D_cmd\<close> updated, or the
  fault raised on the way.
\<close>

definition pack_msg_060D :: "check_sum \<Rightarrow> msg_060C \<Rightarrow> fault + msg_060C" where
  "pack_msg_060D cs s =
     (case pack_msg_060D_payload s of
        Inl e \<Rightarrow> Inl e
      | Inr payload \<Rightarrow>
          (let cmd0 = FRAME_HEADER @ payload;
               msg_060D_payload_length = int (length cmd0) - int (length FRAME_HEADER)
           in case to_bytes_2 msg_060D_payload_length of
                Inl e \<Rightarrow> Inl e
              | Inr v \<Rightarrow>
                  (let cmd1 = take PAYLOAD_LEN_IDX cmd0 @ v @ drop PAYLOAD_LEN_IDX cmd0;
                       result = cs (drop (PAYLOAD_LEN_IDX + 2) cmd1)
                   in Inr (s\<lparr>flags := pack_msg_060D_flags s,
                             msg_060D_cmd := cmd1 @ [snd result, fst result]\<rparr>))))"

subsection \<open>Lever-arm setters and getters\<close>

text \<open>
  The setters divide a caller-supplied number by the float \<^verbatim>\<open>SCALING_LEVER_ARM\<close> and
  truncate: \<^verbatim>\<open>int(p / self.SCALING_LEVER_ARM)\<close>. That float expression is the parameter
  \<open>raw_of\<close>, which gives the integer or the exception raised (\<^verbatim>\<open>ValueError\<close> for a NaN,
  \<^verbatim>\<open>OverflowError\<close> for an infinity, \<^verbatim>\<open>TypeError\<close> for a value that is no number); the
  getters' \<^verbatim>\<open>p * self.SCALING_LEVER_ARM\<close> is the parameter \<open>scale\<close>. The stored lever arms are Python integers, and the sums and
  differences between them are exact.
\<close>

text \<open>
  The comprehension \<^verbatim>\<open>[arms[an][i] (+|-) vec[i] for i in range(3)]\<close>; \<open>None\<close> when an index
  is out of range.
\<close>

definition lever_arm_row ::
  "(int \<Rightarrow> int \<Rightarrow> int) \<Rightarrow> int list list \<Rightarrow> nat \<Rightarrow> int list \<Rightarrow> int list option" where
  "lever_arm_row f arms an vec =
     (if an < length arms
      then those (map (\<lambda>i. if i < length (arms ! an) \<and> i < length vec
                            then Some (f (arms ! an ! i) (vec ! i)) else None) [0..<3])
      else None)"

text \<open>
  The loop \<^verbatim>\<open>for an in range(self.antenna_num): self.GNSS_lever_arm_housing_mark.append(...)\<close>
  over the antenna indices still to do; the state holds what was appended before a fault.
\<close>

fun append_housing_mark :: "nat list \<Rightarrow> msg_060C \<Rightarrow> fault option \<times> msg_060C" where
  "append_housing_mark [] s = (None, s)"
| "append_housing_mark (an # ans) s =
     (case lever_arm_row (-) (GNSS_lever_arm_center s) an (internal_lever_arm s) of
        None \<Rightarrow> (Some IndexError, s)
      | Some row \<Rightarrow>
          append_housing_mark ans
            (s\<lparr>GNSS_lever_arm_housing_mark := GNSS_lever_arm_housing_mark s @ [row]\<rparr>))"

fun append_center :: "nat list \<Rightarrow> msg_060C \<Rightarrow> fault option \<times> msg_060C" where
  "append_center [] s = (None, s)"
| "append_center (an # ans) s =
     (case lever_arm_row (+) (GNSS_lever_arm_housing_mark s) an (internal_lever_arm s) of
        None \<Rightarrow> (Some IndexError, s)
      | Some row \<Rightarrow>
          append_center ans (s\<lparr>GNSS_lever_arm_center := GNSS_lever_arm_center s @ [row]\<rparr>))"

text \<open>
  The first loop of a setter, which builds a local list and mutates nothing; the first
  conversion that raises ends it.
\<close>

definition scale_lever_arms ::
  "('v \<Rightarrow> fault + int) \<Rightarrow> int \<Rightarrow> 'v list list \<Rightarrow> fault + int list list" where
  "scale_lever_arms raw_of n lever_arm =
     seq_list (map (\<lambda>an. seq_list (map raw_of (lever_arm ! an))) (py_range n))"

definition size_error :: fault where
  "size_error = ValueError ''Size of GNSS Lever arm is incorrect!''"

text \<open>
  The test the lever-arm setters make on their argument:
  \<^verbatim>\<open>len(lever_arm) != self.antenna_num or len(lever_arm[0]) != 3\<close>, for a list that has a
  first entry.
\<close>

definition size_wrong :: "msg_060C \<Rightarrow> 'v list list \<Rightarrow> bool" where
  "size_wrong s la \<longleftrightarrow> int (length la) \<noteq> antenna_num s \<or> (la \<noteq> [] \<and> length (hd la) \<noteq> 3)"

text \<open>
  A setter returns the fault it raised, if any, and the state of the object afterwards.
\<close>

definition set_imu_rotation_matrix ::
  "msg_060C \<Rightarrow> 64 word list \<Rightarrow> fault option \<times> msg_060C" where
  "set_imu_rotation_matrix s matrix =
     (if length matrix \<noteq> 9
      then (Some (ValueError ''Size of IMU Rotation Matrix is incorrect!''), s)
      else (None, s\<lparr>imu_rotation_matrix := matrix\<rparr>))"

definition set_GNSS_lever_arm_center ::
  "('v \<Rightarrow> fault + int) \<Rightarrow> msg_060C \<Rightarrow> 'v list list \<Rightarrow> fault option \<times> msg_060C" where
  "set_GNSS_lever_arm_center raw_of s lever_arm =
     (if int (length lever_arm) \<noteq> antenna_num s then (Some size_error, s)
      else case lever_arm of
        [] \<Rightarrow> (Some IndexError, s)
      | la0 # _ \<Rightarrow>
          if length la0 \<noteq> 3 then (Some size_error, s)
          else (case scale_lever_arms raw_of (antenna_num s) lever_arm of
                  Inl e \<Rightarrow> (Some e, s)
                | Inr c \<Rightarrow>
                    append_housing_mark (py_range (antenna_num s))
                      (s\<lparr>GNSS_lever_arm_center := c, GNSS_lever_arm_housing_mark := []\<rparr>)))"

definition set_GNSS_lever_arm_housing_mark ::
  "('v \<Rightarrow> fault + int) \<Rightarrow> msg_060C \<Rightarrow> 'v list list \<Rightarrow> fault option \<times> msg_060C" where
  "set_GNSS_lever_arm_housing_mark raw_of s lever_arm =
     (if int (length lever_arm) \<noteq> antenna_num s then (Some size_error, s)
      else case lever_arm of
        [] \<Rightarrow> (Some IndexError, s)
      | la0 # _ \<Rightarrow>
          if length la0 \<noteq> 3 then (Some size_error, s)
          else (case scale_lever_arms raw_of (antenna_num s) lever_arm of
                  Inl e \<Rightarrow> (Some e, s)
                | Inr h \<Rightarrow>
                    append_center (py_range (antenna_num s))
                      (s\<lparr>GNSS_lever_arm_housing_mark := h, GNSS_lever_arm_center := []\<rparr>)))"

definition update_GNSS_lever_arm_by_internal_lever_arm ::
  "('v \<Rightarrow> fault + int) \<Rightarrow> msg_060C \<Rightarrow> 'v list \<Rightarrow> fault option \<times> msg_060C" where
  "update_GNSS_lever_arm_by_internal_lever_arm raw_of s internal =
     (case seq_list (map raw_of internal) of
        Inl e \<Rightarrow> (Some e, s)
      | Inr il \<Rightarrow>
          (let s1 = s\<lparr>internal_lever_arm := il\<rparr>
           in if flags_leverarm_from_imu_center s1
              then append_housing_mark (py_range (antenna_num s1)) s1
              else append_center (py_range (antenna_num s1)) s1))"

text \<open>The getters' loop: \<^verbatim>\<open>arms[an]\<close> raises \<^verbatim>\<open>IndexError\<close> past the end of the list.\<close>

definition scaled_rows :: "(int \<Rightarrow> 'r) \<Rightarrow> int \<Rightarrow> int list list \<Rightarrow> fault + 'r list list" where
  "scaled_rows scale n arms =
     seq_list (map (\<lambda>an. if an < length arms then Inr (map scale (arms ! an)) else Inl IndexError)
                   (py_range n))"

definition get_GNSS_lever_arm_center :: "(int \<Rightarrow> 'r) \<Rightarrow> msg_060C \<Rightarrow> fault + 'r list list" where
  "get_GNSS_lever_arm_center scale s =
     scaled_rows scale (antenna_num s) (GNSS_lever_arm_center s)"

definition get_GNSS_lever_arm_housing_mark ::
  "(int \<Rightarrow> 'r) \<Rightarrow> msg_060C \<Rightarrow> fault + 'r list list" where
  "get_GNSS_lever_arm_housing_mark scale s =
     (if length (GNSS_lever_arm_housing_mark s) = 0 then Inr []
      else scaled_rows scale (antenna_num s) (GNSS_lever_arm_housing_mark s))"

text \<open>
  The relation the source states in its comments, \<^verbatim>\<open>center = housing mark + internal\<close>, for
  every antenna and component, whenever both lists and the internal lever arm are
  populated.
\<close>

definition lever_arm_invariant :: "msg_060C \<Rightarrow> bool" where
  "lever_arm_invariant s \<longleftrightarrow>
     GNSS_lever_arm_center s = [] \<or> GNSS_lever_arm_housing_mark s = [] \<or>
     internal_lever_arm s = [] \<or>
     list_all (\<lambda>an.
         an < length (GNSS_lever_arm_center s) \<and> an < length (GNSS_lever_arm_housing_mark s) \<and>
         list_all (\<lambda>i.
             i < length (GNSS_lever_arm_center s ! an) \<and>
             i < length (GNSS_lever_arm_housing_mark s ! an) \<and>
             i < length (internal_lever_arm s) \<and>
             GNSS_lever_arm_center s ! an ! i =
               GNSS_lever_arm_housing_mark s ! an ! i + internal_lever_arm s ! i) [0..<3])
       (py_range (antenna_num s))"

subsection \<open>Sample states for closed examples\<close>

text \<open>
  The attribute values \<^verbatim>\<open>unpack_msg_060C_topic_0A\<close> assigns for a message with one antenna
  (\<open>indicators = 1\<close>), lever arms given from the IMU center (\<open>flags = 0\<close>), the identity
  rotation matrix (\<open>1.0\<close> is \<open>0x3FF0000000000000\<close>) and the lever arm \<open>[10, 0, 0]\<close>, before any
  internal lever arm is known.
\<close>

definition user_configuration_sample :: msg_060C where
  "user_configuration_sample =
     \<lparr>topic = 0x0A, indicators = 1, flags = 0, ICD_num = 0, min_vel = 0,
      max_unaided_time = 0, max_output_rate = 0,
      imu_rotation_matrix =
        [0x3FF0000000000000, 0, 0, 0, 0x3FF0000000000000, 0, 0, 0, 0x3FF0000000000000],
      output_position_offset = [0, 0, 0], smooth_mode = 0,
      GNSS_lever_arm_center = [[10, 0, 0]], GNSS_lever_arm_housing_mark = [],
      internal_lever_arm = [], GNSS_lever_arm_uncertainty = [], ICD_configuration = [],
      DMI_id = 0, DMI_scale_factor = 0, DMI_lever_arm = [], DMI_lever_arm_uncertainty = 0,
      DMI_options = 0, extended_version_flag = False, antenna_num = 1, DMI_exists = 0,
      flags_init_heading_from_GNSS_vel = True, flags_leverarm_from_imu_center = True,
      msg_060D_cmd = []\<rparr>"

definition two_antenna_sample :: msg_060C where
  "two_antenna_sample =
     user_configuration_sample\<lparr>indicators := 2, antenna_num := 2,
       GNSS_lever_arm_center := [[10, 0, 0], [20, 0, 0]], internal_lever_arm := [0, 0, 0]\<rparr>"

text \<open>The same state once an internal lever arm \<open>[3, 0, 0]\<close> has been propagated.\<close>

definition consistent_sample :: msg_060C where
  "consistent_sample =
     user_configuration_sample\<lparr>GNSS_lever_arm_housing_mark := [[7, 0, 0]],
       internal_lever_arm := [3, 0, 0]\<rparr>"

text \<open>
  A sample instance of \<open>raw_of\<close> on whole numbers; the closed examples use it at \<open>0\<close> only,
  where \<^verbatim>\<open>int(0 / 1.0e-4)\<close> is \<open>0\<close>.
\<close>

definition raw_units_sample :: "int \<Rightarrow> fault + int" where
  "raw_units_sample p = Inr (p * 10000)"

text \<open>
  A sample instance of \<open>raw_of\<close> on numbers that are whole or not a number:
  \<^verbatim>\<open>int(float('nan') / 1.0e-4)\<close> raises \<^verbatim>\<open>ValueError\<close>.
\<close>

datatype sample_number = Whole int | Not_a_number

definition raw_number_sample :: "sample_number \<Rightarrow> fault + int" where
  "raw_number_sample p =
     (case p of
        Whole i \<Rightarrow> Inr (i * 10000)
      | Not_a_number \<Rightarrow> Inl (ValueError ''cannot convert float NaN to integer''))"

text \<open>The payload \<^verbatim>\<open>pack_msg_060D\<close> builds for \<open>user_configuration_sample\<close>.\<close>

definition sample_payload_bytes :: "byte list" where
  "sample_payload_bytes =
     [0x0A, 1, 0, 0, 0, 0, 0, 0, 0,
      0, 0, 0, 0, 0, 0, 0xF0, 0x3F, 0, 0, 0, 0, 0, 0, 0, 0, 0, 0, 0, 0, 0, 0, 0, 0,
      0, 0, 0, 0, 0, 0, 0, 0,
      0, 0, 0, 0, 0, 0, 0xF0, 0x3F, 0, 0, 0, 0, 0, 0, 0, 0, 0, 0, 0, 0, 0, 0, 0, 0,
      0, 0, 0, 0, 0, 0, 0, 0,
      0, 0, 0, 0, 0, 0, 0xF0, 0x3F,
      0, 0, 0, 0, 0, 0, 0, 0, 0, 0, 0, 0,
      10, 0, 0, 0, 0, 0, 0, 0, 0, 0, 0, 0]"

section \<open>Decoded values and the packet catalog\<close>

text \<open>
  A value of a decoded packet: a Python \<^verbatim>\<open>int\<close>, \<^verbatim>\<open>float\<close>, \<^verbatim>\<open>bytes\<close> or \<^verbatim>\<open>str\<close>. The type \<open>'f\<close>
  stands for Python's floats; every operation on floats that the code uses is a parameter
  of the function that uses it.
\<close>

datatype 'f pyval = PInt int | PFloat 'f | PBytes "byte list" | PStr string

text \<open>
  An entry of \<^verbatim>\<open>payload\<close> in \<^verbatim>\<open>rover.json\<close> (keys \<^verbatim>\<open>name\<close>, \<^verbatim>\<open>type\<close> and the optional \<^verbatim>\<open>Scaling\<close>)
  and an entry of \<^verbatim>\<open>outputPackets\<close> (keys \<^verbatim>\<open>header\<close>, \<^verbatim>\<open>name\<close>, \<^verbatim>\<open>payload\<close>) without a \<^verbatim>\<open>var_num\<close>
  key, that is, a fixed-shape packet.
\<close>

record field =
  fld_name :: string
  fld_type :: string
  fld_scaling :: "string option"

record output_packet =
  pkt_header :: string
  pkt_name :: string
  pkt_payload :: "field list"

text \<open>\<^verbatim>\<open>struct.unpack\<close> of the codes \<^verbatim>\<open>f\<close> and \<^verbatim>\<open>d\<close>: from the IEEE-754 bits to a float.\<close>

record 'f float_codec =
  unpack_f :: "32 word \<Rightarrow> 'f"
  unpack_d :: "64 word \<Rightarrow> 'f"

section \<open>Fixed-shape decode: \<^verbatim>\<open>unpack_output_packet\<close>\<close>

subsection \<open>\<^verbatim>\<open>struct.unpack\<close> with a little-endian format\<close>

definition le_uint :: "byte list \<Rightarrow> int" where
  "le_uint bs = foldr (\<lambda>b n. uint b + 256 * n) bs 0"

definition le_sint :: "byte list \<Rightarrow> int" where
  "le_sint bs =
     (let u = le_uint bs; m = 2 ^ (8 * length bs)
      in if 2 * u \<ge> m then u - m else u)"

text \<open>The standard size of a format code; \<open>None\<close> for a character that is no code.\<close>

definition code_size :: "char \<Rightarrow> nat option" where
  "code_size c =
     (if c = CHR ''f'' \<or> c = CHR ''I'' \<or> c = CHR ''i'' then Some 4
      else if c = CHR ''h'' \<or> c = CHR ''H'' then Some 2
      else if c = CHR ''d'' \<or> c = CHR ''q'' \<or> c = CHR ''Q'' then Some 8
      else if c = CHR ''c'' \<or> c = CHR ''B'' then Some 1
      else None)"

definition code_value :: "'f float_codec \<Rightarrow> char \<Rightarrow> byte list \<Rightarrow> 'f pyval" where
  "code_value fc c bs =
     (if c = CHR ''f'' then PFloat (unpack_f fc (of_int (le_uint bs)))
      else if c = CHR ''d'' then PFloat (unpack_d fc (of_int (le_uint bs)))
      else if c = CHR ''i'' \<or> c = CHR ''h'' \<or> c = CHR ''q'' then PInt (le_sint bs)
      else if c = CHR ''c'' then PBytes bs
      else PInt (le_uint bs))"

fun calcsize :: "string \<Rightarrow> nat option" where
  "calcsize [] = Some 0"
| "calcsize (c # cs) =
     (case code_size c of
        None \<Rightarrow> None
      | Some w \<Rightarrow> (case calcsize cs of None \<Rightarrow> None | Some n \<Rightarrow> Some (w + n)))"

fun unpack_values :: "'f float_codec \<Rightarrow> string \<Rightarrow> byte list \<Rightarrow> 'f pyval list" where
  "unpack_values fc [] bs = []"
| "unpack_values fc (c # cs) bs =
     (let w = (case code_size c of None \<Rightarrow> 0 | Some n \<Rightarrow> n)
      in code_value fc c (take w bs) # unpack_values fc cs (drop w bs))"

text \<open>
  \<^verbatim>\<open>struct.unpack(fmt, b)\<close> for the formats the decoder builds, \<^verbatim>\<open><\<close> followed by codes: it
  raises \<^verbatim>\<open>struct.error\<close> unless \<open>b\<close> has exactly the size the format calls for.
\<close>

definition struct_unpack ::
  "'f float_codec \<Rightarrow> string \<Rightarrow> byte list \<Rightarrow> fault + 'f pyval list" where
  "struct_unpack fc fmt b =
     (case fmt of
        [] \<Rightarrow> (if b = [] then Inr [] else Inl StructError)
      | c # codes \<Rightarrow>
          if c = CHR ''<'' then
            (case calcsize codes of
               None \<Rightarrow> Inl StructError
             | Some n \<Rightarrow> if length b = n then Inr (unpack_values fc codes b) else Inl StructError)
          else Inl StructError)"

text \<open>
  \<^verbatim>\<open>struct.pack('{n}B', *payload)\<close>: it raises \<^verbatim>\<open>struct.error\<close> unless exactly \<open>n\<close> values are
  given.
\<close>

definition struct_pack_B :: "nat \<Rightarrow> byte list \<Rightarrow> fault + byte list" where
  "struct_pack_B n payload = (if length payload = n then Inr payload else Inl StructError)"

subsection \<open>The decoder\<close>

text \<open>
  \<^verbatim>\<open>handle_string_filed\<close>; \<^verbatim>\<open>b.decode()\<close> is the parameter \<open>decode_text\<close> (\<open>None\<close> when the bytes
  are not valid text).
\<close>

definition handle_string_filed ::
  "(byte list \<Rightarrow> string option) \<Rightarrow> field \<Rightarrow> byte list \<Rightarrow> int
     \<Rightarrow> fault + (string \<times> 'f pyval) list" where
  "handle_string_filed decode_text v payload string_len =
     (if int (length payload) = string_len
      then (case decode_text payload of
              None \<Rightarrow> Inl DecodeError
            | Some txt \<Rightarrow> Inr [(fld_name v, PStr txt)])
      else Inl StructError)"

text \<open>
  The loop of \<^verbatim>\<open>unpack_output_packet\<close> over the fields: \<open>Inl v\<close> when it meets the string
  field \<open>v\<close> and returns early, otherwise the format and the length it has built. A field
  of a type the chain does not name adds nothing.
\<close>

fun unpack_fmt_loop :: "field list \<Rightarrow> string \<Rightarrow> nat \<Rightarrow> field + string \<times> nat" where
  "unpack_fmt_loop [] pack_fmt len = Inr (pack_fmt, len)"
| "unpack_fmt_loop (v # vs) pack_fmt len =
     (if fld_type v = ''string'' then Inl v
      else if fld_type v = ''float'' then unpack_fmt_loop vs (pack_fmt @ ''f'') (len + 4)
      else if fld_type v = ''uint32'' then unpack_fmt_loop vs (pack_fmt @ ''I'') (len + 4)
      else if fld_type v = ''int32'' then unpack_fmt_loop vs (pack_fmt @ ''i'') (len + 4)
      else if fld_type v = ''int16'' then unpack_fmt_loop vs (pack_fmt @ ''h'') (len + 2)
      else if fld_type v = ''uint16'' then unpack_fmt_loop vs (pack_fmt @ ''H'') (len + 2)
      else if fld_type v = ''double'' then unpack_fmt_loop vs (pack_fmt @ ''d'') (len + 8)
      else if fld_type v = ''int64'' then unpack_fmt_loop vs (pack_fmt @ ''q'') (len + 8)
      else if fld_type v = ''uint64'' then unpack_fmt_loop vs (pack_fmt @ ''Q'') (len + 8)
      else if fld_type v = ''char'' then unpack_fmt_loop vs (pack_fmt @ ''c'') (len + 1)
      else if fld_type v = ''uchar'' then unpack_fmt_loop vs (pack_fmt @ ''B'') (len + 1)
      else if fld_type v = ''uint8'' then unpack_fmt_loop vs (pack_fmt @ ''B'') (len + 1)
      else unpack_fmt_loop vs pack_fmt len)"

text \<open>
  \<^verbatim>\<open>[(value['name'], data[idx]) for idx, value in enumerate(...)]\<close>: \<^verbatim>\<open>data[idx]\<close> raises past
  the end of the decoded values.
\<close>

definition zip_by_index :: "field list \<Rightarrow> 'v list \<Rightarrow> fault + (string \<times> 'v) list" where
  "zip_by_index flds data =
     seq_list (map (\<lambda>(idx, value). if idx < length data then Inr (fld_name value, data ! idx)
                                     else Inl IndexError)
                   (enumerate 0 flds))"

text \<open>
  \<^verbatim>\<open>collections.OrderedDict(out)\<close>: the pairs are inserted in order, and a key met again
  keeps its place and takes the new value.
\<close>

definition ordered_dict :: "('k \<times> 'v) list \<Rightarrow> ('k \<times> 'v) list" where
  "ordered_dict out = foldl (\<lambda>d (k, v). AList.update k v d) [] out"

definition unpack_output_packet ::
  "'f float_codec \<Rightarrow> (byte list \<Rightarrow> string option) \<Rightarrow> output_packet \<Rightarrow> byte list \<Rightarrow> int
     \<Rightarrow> fault + (string \<times> 'f pyval) list" where
  "unpack_output_packet fc decode_text output_message payload payload_length =
     (case unpack_fmt_loop (pkt_payload output_message) ''<'' 0 of
        Inl v \<Rightarrow> handle_string_filed decode_text v payload payload_length
      | Inr (pack_fmt, len) \<Rightarrow>
          (case struct_pack_B len payload of
             Inl e \<Rightarrow> Inl e
           | Inr b \<Rightarrow>
               (case struct_unpack fc pack_fmt b of
                  Inl e \<Rightarrow> Inl e
                | Inr data \<Rightarrow>
                    (case zip_by_index (pkt_payload output_message) data of
                       Inl e \<Rightarrow> Inl e
                     | Inr out \<Rightarrow> Inr (ordered_dict out)))))"

subsection \<open>The decode as the specification words it\<close>

text \<open>
  The per-type byte widths, the number \<open>N\<close> of payload bytes a packet's fields take, and
  the decode of the fields one after the other, each from its own little-endian bytes,
  paired with the field names in declared order.
\<close>

definition type_width :: "string \<Rightarrow> nat" where
  "type_width t =
     (if t = ''double'' \<or> t = ''uint64'' \<or> t = ''int64'' then 8
      else if t = ''float'' \<or> t = ''uint32'' \<or> t = ''int32'' then 4
      else if t = ''uint16'' \<or> t = ''int16'' then 2
      else if t = ''char'' \<or> t = ''uchar'' \<or> t = ''uint8'' then 1
      else 0)"

definition fixed_type :: "string \<Rightarrow> bool" where
  "fixed_type t \<longleftrightarrow>
     t = ''double'' \<or> t = ''uint64'' \<or> t = ''int64'' \<or> t = ''float'' \<or> t = ''uint32'' \<or>
     t = ''int32'' \<or> t = ''uint16'' \<or> t = ''int16'' \<or> t = ''char'' \<or> t = ''uchar'' \<or>
     t = ''uint8''"

definition typed_value :: "'f float_codec \<Rightarrow> string \<Rightarrow> byte list \<Rightarrow> 'f pyval" where
  "typed_value fc t bs =
     (if t = ''float'' then PFloat (unpack_f fc (of_int (le_uint bs)))
      else if t = ''double'' then PFloat (unpack_d fc (of_int (le_uint bs)))
      else if t = ''int16'' \<or> t = ''int32'' \<or> t = ''int64'' then PInt (le_sint bs)
      else if t = ''char'' then PBytes bs
      else PInt (le_uint bs))"

definition payload_width :: "field list \<Rightarrow> nat" where
  "payload_width flds = sum_list (map (\<lambda>v. type_width (fld_type v)) flds)"

fun decoded_fields ::
  "'f float_codec \<Rightarrow> field list \<Rightarrow> byte list \<Rightarrow> (string \<times> 'f pyval) list" where
  "decoded_fields fc [] bs = []"
| "decoded_fields fc (v # vs) bs =
     (fld_name v, typed_value fc (fld_type v) (take (type_width (fld_type v)) bs))
       # decoded_fields fc vs (drop (type_width (fld_type v)) bs)"

text \<open>The format code the decoder's chain appends for a fixed type.\<close>

definition type_code :: "string \<Rightarrow> char" where
  "type_code t =
     (if t = ''float'' then CHR ''f''
      else if t = ''uint32'' then CHR ''I''
      else if t = ''int32'' then CHR ''i''
      else if t = ''int16'' then CHR ''h''
      else if t = ''uint16'' then CHR ''H''
      else if t = ''double'' then CHR ''d''
      else if t = ''int64'' then CHR ''q''
      else if t = ''uint64'' then CHR ''Q''
      else if t = ''char'' then CHR ''c''
      else CHR ''B'')"

subsection \<open>Sample catalog entry for closed examples\<close>

text \<open>A sample float codec: a float stands for itself as its bit pattern.\<close>

definition bits_codec :: "nat float_codec" where
  "bits_codec = \<lparr>unpack_f = unat, unpack_d = unat\<rparr>"

definition sample_fields :: "field list" where
  "sample_fields =
     [\<lparr>fld_name = ''GPS week'', fld_type = ''uint16'', fld_scaling = None\<rparr>,
      \<lparr>fld_name = ''Offset'', fld_type = ''int32'', fld_scaling = None\<rparr>,
      \<lparr>fld_name = ''Mode'', fld_type = ''uint8'', fld_scaling = None\<rparr>]"

definition sample_packet :: output_packet where
  "sample_packet = \<lparr>pkt_header = ''AF200501'', pkt_name = ''TSM'', pkt_payload = sample_fields\<rparr>"

section \<open>The driver object: \<^verbatim>\<open>RoverDriver\<close>\<close>

text \<open>
  A packet handed to observers is an ordered mapping (fixed shape) or a list of them
  (variable length). The message cache \<^verbatim>\<open>msgs\<close> holds packets and, under its own key, the
  decoded user configuration.
\<close>

datatype 'f packet = Fixed "(string \<times> 'f pyval) list" | VarLen "(string \<times> 'f pyval) list list"

datatype 'f cache_entry = CachedPacket "'f packet" | CachedUserConfiguration msg_060C

text \<open>
  The attributes of \<^verbatim>\<open>RoverDriver\<close> that the modelled methods touch. The transport
  \<^verbatim>\<open>communicator\<close> is not among the sources: of \<^verbatim>\<open>self.cmt\<close> the model keeps whether the link
  is open. Threads and web clients are handles; \<open>app\<close> says whether an application is
  set.
\<close>

record 'f rover_driver =
  cmt_open :: bool
  exit_thread :: bool
  data_queue :: "byte list"
  threads :: "nat list"
  web_clients :: "nat list"
  app :: bool
  msgs :: "string \<rightharpoonup> 'f cache_entry"
  connection_status :: int

text \<open>The calls the driver makes on the transport, the application and the web clients.\<close>

datatype 'f driver_event =
    CmtClose
  | AppOnReinit
  | AppOnMessage string "'f packet" bool
  | ClientOnDriverMessage nat string string "'f packet" bool

text \<open>
  \<^verbatim>\<open>reinit\<close>, statement by statement. \<^verbatim>\<open>data_queue.get()\<close> takes the oldest byte off the
  queue, once, when the queue is not empty.
\<close>

definition reinit :: "'f rover_driver \<Rightarrow> 'f rover_driver \<times> 'f driver_event list" where
  "reinit d =
     (let d1 = d\<lparr>cmt_open := False\<rparr>;
          d2 = (if data_queue d1 \<noteq> [] then d1\<lparr>data_queue := tl (data_queue d1)\<rparr> else d1);
          d3 = d2\<lparr>exit_thread := False, threads := []\<rparr>;
          ev = (if app d3 then [AppOnReinit] else []);
          d4 = d3\<lparr>msgs := Map.empty, connection_status := 0\<rparr>
      in (d4, CmtClose # ev))"

text \<open>
  A driver after a link fault: the cancellation flag set, two bytes still in the queue.
\<close>

definition driver_sample :: "nat rover_driver" where
  "driver_sample =
     \<lparr>cmt_open = True, exit_thread = True, data_queue = [0xAF, 0x20], threads = [0, 1],
      web_clients = [], app = True, msgs = Map.empty, connection_status = 1\<rparr>"

section \<open>The CSV logger: \<^verbatim>\<open>RoverLogApp.log\<close>\<close>

text \<open>
  The attributes of \<^verbatim>\<open>RoverLogApp\<close> that \<^verbatim>\<open>log\<close> uses: the output packets of its catalog, the
  per-name counter \<^verbatim>\<open>first_row\<close>, and for every open file what has been written to it.
\<close>

record rover_log_app =
  rover_properties :: "output_packet list"
  first_row :: "string \<rightharpoonup> int"
  log_files :: "string \<rightharpoonup> string"

text \<open>
  The format specification the \<^verbatim>\<open>if\<close> chain of \<^verbatim>\<open>log\<close> picks for a declared type: the text
  after the colon in \<^verbatim>\<open>'{0:d},'\<close>, \<^verbatim>\<open>'{0:15.12f},'\<close>, \<^verbatim>\<open>'{0:12.8f},'\<close>, \<^verbatim>\<open>'{:},'\<close> and \<^verbatim>\<open>'{0:3.5f},'\<close>.
\<close>

definition format_spec :: "string \<Rightarrow> string" where
  "format_spec outputPcktType =
     (if outputPcktType = ''uint32'' \<or> outputPcktType = ''int32'' \<or>
         outputPcktType = ''uint16'' \<or> outputPcktType = ''int16'' \<or>
         outputPcktType = ''uint64'' \<or> outputPcktType = ''int64'' then ''d''
      else if outputPcktType = ''double'' then ''15.12f''
      else if outputPcktType = ''float'' then ''12.8f''
      else if outputPcktType = ''uint8'' then ''d''
      else if outputPcktType = ''uchar'' \<or> outputPcktType = ''char'' then ''''
      else ''3.5f'')"

text \<open>
  \<^verbatim>\<open>output_packet['payload'][keyIdx]\<close>, where \<^verbatim>\<open>output_packet\<close> is \<^verbatim>\<open>None\<close> when the catalog has
  no packet of that name.
\<close>

definition payload_field :: "output_packet option \<Rightarrow> nat \<Rightarrow> fault + field" where
  "payload_field output_packet keyIdx =
     (case output_packet of
        None \<Rightarrow> Inl TypeError
      | Some p \<Rightarrow> if keyIdx < length (pkt_payload p) then Inr (pkt_payload p ! keyIdx)
                  else Inl IndexError)"

text \<open>The two loops \<^verbatim>\<open>for key in data\<close>, over the keys with their index and value.\<close>

fun log_labels ::
  "output_packet option \<Rightarrow> (nat \<times> string \<times> 'v) list \<Rightarrow> string \<Rightarrow> fault + string" where
  "log_labels output_packet [] labels = Inr labels"
| "log_labels output_packet ((keyIdx, key, value) # rest) labels =
     (case payload_field output_packet keyIdx of
        Inl e \<Rightarrow> Inl e
      | Inr f \<Rightarrow> log_labels output_packet rest (labels @ fld_name f @ '',''))"

text \<open>
  Python's \<^verbatim>\<open>format(value, spec)\<close> is the parameter \<open>py_format\<close>: the text, or the exception
  it raises (\<^verbatim>\<open>ValueError\<close> for a format code the value's type does not know, \<^verbatim>\<open>TypeError\<close> for
  a type that takes no format).
\<close>

fun log_values ::
  "(string \<Rightarrow> 'v \<Rightarrow> fault + string) \<Rightarrow> output_packet option \<Rightarrow> (nat \<times> string \<times> 'v) list
     \<Rightarrow> string \<Rightarrow> fault + string" where
  "log_values py_format output_packet [] str = Inr str"
| "log_values py_format output_packet ((keyIdx, key, value) # rest) str =
     (case payload_field output_packet keyIdx of
        Inl e \<Rightarrow> Inl e
      | Inr f \<Rightarrow>
          (case py_format (format_spec (fld_type f)) value of
             Inl e \<Rightarrow> Inl e
           | Inr txt \<Rightarrow> log_values py_format output_packet rest (str @ txt @ '','')))"

text \<open>
  \<^verbatim>\<open>log(data, packet_type)\<close> for a decoded fixed-shape packet \<open>data\<close>, an ordered mapping given
  as its list of keys and values. The result is the fault raised, if any, and the state
  of the application afterwards; a write appends to what the file holds. It is named
  \<open>log_csv\<close> here, \<open>log\<close> being the logarithm of the library.
\<close>

definition log_csv ::
  "(string \<Rightarrow> 'v \<Rightarrow> fault + string) \<Rightarrow> rover_log_app \<Rightarrow> (string \<times> 'v) list \<Rightarrow> string
     \<Rightarrow> fault option \<times> rover_log_app" where
  "log_csv py_format a data packet_type =
     (let output_packet = find (\<lambda>x. pkt_name x = packet_type) (rover_properties a)
      in case first_row a packet_type of
           None \<Rightarrow> (Some (KeyError packet_type), a)
         | Some n \<Rightarrow>
             (let a1 = a\<lparr>first_row := (first_row a)(packet_type \<mapsto> n + 1)\<rparr>;
                  header = (if n = 0
                            then (case log_labels output_packet (enumerate 0 data) '''' of
                                    Inl e \<Rightarrow> Inl e
                                  | Inr labels \<Rightarrow> Inr (butlast labels @ [CHR 0x0A]))
                            else Inr '''')
              in case header of
                   Inl e \<Rightarrow> (Some e, a1)
                 | Inr hd_row \<Rightarrow>
                     (case log_values py_format output_packet (enumerate 0 data) '''' of
                        Inl e \<Rightarrow> (Some e, a1)
                      | Inr str \<Rightarrow>
                          (case log_files a1 packet_type of
                             None \<Rightarrow> (Some (KeyError packet_type), a1)
                           | Some written \<Rightarrow>
                               (None, a1\<lparr>log_files := (log_files a1)(packet_type \<mapsto>
                                          written @ hd_row @ (butlast str @ [CHR 0x0A]))\<rparr>)))))"

text \<open>
  \<^verbatim>\<open>on_message\<close> calls \<^verbatim>\<open>log\<close> for every fixed-shape packet that is decoded: the packets of
  one type logged one after the other, up to the first call that raises.
\<close>

fun log_seq ::
  "(string \<Rightarrow> 'v \<Rightarrow> fault + string) \<Rightarrow> rover_log_app \<Rightarrow> (string \<times> 'v) list list \<Rightarrow> string
     \<Rightarrow> fault option \<times> rover_log_app" where
  "log_seq py_format a [] packet_type = (None, a)"
| "log_seq py_format a (data # rest) packet_type =
     (case log_csv py_format a data packet_type of
        (Some e, a1) \<Rightarrow> (Some e, a1)
      | (None, a1) \<Rightarrow> log_seq py_format a1 rest packet_type)"

subsection \<open>The rows as the specification words them\<close>

fun comma_join :: "string list \<Rightarrow> string" where
  "comma_join [] = ''''"
| "comma_join [x] = x"
| "comma_join (x # y # ys) = x @ '','' @ comma_join (y # ys)"

text \<open>The header row: the catalog's field names, comma-joined, and a newline.\<close>

definition header_row :: "output_packet \<Rightarrow> string" where
  "header_row p = comma_join (map fld_name (pkt_payload p)) @ [CHR 0x0A]"

text \<open>A data line: the formatted fields, comma-joined, and a newline.\<close>

definition data_row :: "string list \<Rightarrow> string" where
  "data_row cells = comma_join cells @ [CHR 0x0A]"

text \<open>Each value of a packet formatted by the declared type of its field.\<close>

definition format_cells ::
  "(string \<Rightarrow> 'v \<Rightarrow> fault + string) \<Rightarrow> output_packet \<Rightarrow> (string \<times> 'v) list
     \<Rightarrow> (fault + string) list" where
  "format_cells py_format p data =
     map2 (\<lambda>f kv. py_format (format_spec (fld_type f)) (snd kv)) (pkt_payload p) data"

subsection \<open>Sample logger for closed examples\<close>

text \<open>The decimal digits of a natural number.\<close>

function decimal :: "nat \<Rightarrow> string" where
  "decimal n =
     (if n < 10 then [''0123456789'' ! n]
      else decimal (n div 10) @ [''0123456789'' ! (n mod 10)])"
  by pat_completeness auto
termination
  by (relation "measure id") auto

declare decimal.simps [simp del]

text \<open>
  A sample instance of \<open>py_format\<close> on integers and strings, for the five formats of
  \<^verbatim>\<open>log\<close>. An integer under \<^verbatim>\<open>d\<close> or the empty format is its decimal digits with a minus sign
  when negative, and under a fixed-point format the same followed by the zero fraction,
  right-aligned in the field width. A string is itself under the empty format and is
  rejected with \<^verbatim>\<open>ValueError\<close> (unknown format code) under every other one.
\<close>

datatype sample_value = IntValue int | StrValue string

definition pad_left :: "nat \<Rightarrow> string \<Rightarrow> string" where
  "pad_left width s = replicate (width - length s) (CHR '' '') @ s"

definition format_sample :: "string \<Rightarrow> sample_value \<Rightarrow> fault + string" where
  "format_sample spec v =
     (case v of
        IntValue i \<Rightarrow>
          (let digits = (if i < 0 then ''-'' else '''') @ decimal (nat \<bar>i\<bar>)
           in if spec = ''d'' \<or> spec = '''' then Inr digits
              else if spec = ''15.12f''
              then Inr (pad_left 15 (digits @ ''.'' @ replicate 12 (CHR ''0'')))
              else if spec = ''12.8f''
              then Inr (pad_left 12 (digits @ ''.'' @ replicate 8 (CHR ''0'')))
              else if spec = ''3.5f''
              then Inr (pad_left 3 (digits @ ''.'' @ replicate 5 (CHR ''0'')))
              else Inl (ValueError ''Invalid format specifier''))
      | StrValue s \<Rightarrow>
          if spec = '''' then Inr s
          else Inl (ValueError ''Unknown format code for object of type str''))"

text \<open>The application right after start-up with a catalog of one packet.\<close>

definition log_app_sample :: rover_log_app where
  "log_app_sample =
     \<lparr>rover_properties = [sample_packet], first_row = [''TSM'' \<mapsto> 0],
      log_files = [''TSM'' \<mapsto> '''']\<rparr>"

text \<open>
  A fixed-shape packet with a string field, as the engine-version and text messages
  that \<^verbatim>\<open>handle_string_filed\<close> decodes, and the application right after start-up with it in
  the catalog.
\<close>

definition text_packet :: output_packet where
  "text_packet =
     \<lparr>pkt_header = ''AF200601'', pkt_name = ''TXT'',
      pkt_payload = [\<lparr>fld_name = ''Text'', fld_type = ''string'', fld_scaling = None\<rparr>]\<rparr>"

definition log_text_sample :: rover_log_app where
  "log_text_sample =
     \<lparr>rover_properties = [text_packet], first_row = [''TXT'' \<mapsto> 0],
      log_files = [''TXT'' \<mapsto> '''']\<rparr>"

section \<open>Derived packets: \<^verbatim>\<open>RoverDriver.packet_handler\<close>\<close>

subsection \<open>Python operations taken as parameters\<close>

text \<open>
  A statement that raises ends the run: \<open>bind_f\<close> passes the value of a statement that
  returned to the next one, and \<open>seq_fields\<close> fills a dictionary entry by entry, in order,
  until one of the right-hand sides raises.
\<close>

definition bind_f :: "fault + 'a \<Rightarrow> ('a \<Rightarrow> fault + 'b) \<Rightarrow> fault + 'b" where
  "bind_f m f = (case m of Inl e \<Rightarrow> Inl e | Inr x \<Rightarrow> f x)"

fun seq_fields :: "(string \<times> (fault + 'v)) list \<Rightarrow> fault + (string \<times> 'v) list" where
  "seq_fields [] = Inr []"
| "seq_fields ((k, Inl e) # rest) = Inl e"
| "seq_fields ((k, Inr v) # rest) =
     (case seq_fields rest of Inl e \<Rightarrow> Inl e | Inr kvs \<Rightarrow> Inr ((k, v) # kvs))"

text \<open>
  The arithmetic of the handler runs on Python numbers, and the attitude angles come from
  \<^verbatim>\<open>utility.cal_attitude\<close>; both are parameters of the model. \<open>py_int\<close> is \<^verbatim>\<open>int(x)\<close>, \<open>py_str\<close>
  is \<^verbatim>\<open>str(x)\<close>, \<open>py_add\<close>, \<open>py_sub\<close> and \<open>py_mul\<close> are \<^verbatim>\<open>+\<close>, \<^verbatim>\<open>-\<close> and \<^verbatim>\<open>*\<close>, \<open>py_gt\<close> is \<^verbatim>\<open>>\<close>,
  \<open>math_pow\<close> and \<open>math_sqrt\<close> are the functions of \<^verbatim>\<open>math\<close>, \<open>r2d\<close> is the value of
  \<^verbatim>\<open>180/math.pi\<close>, and \<open>py_int_key\<close> gives the integer a value is equal to as a dictionary
  key (none for a value that equals no integer).
\<close>

record 'f py_ops =
  py_int :: "'f pyval \<Rightarrow> fault + 'f pyval"
  py_str :: "'f pyval \<Rightarrow> string"
  py_add :: "'f pyval \<Rightarrow> 'f pyval \<Rightarrow> fault + 'f pyval"
  py_sub :: "'f pyval \<Rightarrow> 'f pyval \<Rightarrow> fault + 'f pyval"
  py_mul :: "'f pyval \<Rightarrow> 'f pyval \<Rightarrow> fault + 'f pyval"
  py_gt :: "'f pyval \<Rightarrow> 'f pyval \<Rightarrow> fault + bool"
  py_int_key :: "'f pyval \<Rightarrow> int option"
  math_pow :: "'f pyval \<Rightarrow> 'f pyval \<Rightarrow> fault + 'f pyval"
  math_sqrt :: "'f pyval \<Rightarrow> fault + 'f pyval"
  r2d :: "'f pyval"
  cal_attitude :: "'f pyval \<Rightarrow> 'f pyval \<Rightarrow> 'f pyval \<Rightarrow> 'f pyval
                     \<Rightarrow> fault + 'f pyval \<times> 'f pyval \<times> 'f pyval"

text \<open>The mode tables set in \<^verbatim>\<open>__init__\<close>.\<close>

definition nav_pos_vel_mode :: "int \<rightharpoonup> string" where
  "nav_pos_vel_mode =
     map_of [(0, ''INVALID''), (1, ''DEAD_RECKON''), (2, ''STAND_ALONE''),
             (3, ''PRECISE_POINT_POSITIONING''), (4, ''CODE_DIFF''), (5, ''RTK_FLOAT''),
             (6, ''RTK_FIXED''), (7, ''USER_AIDING'')]"

definition nav_att_mode :: "int \<rightharpoonup> string" where
  "nav_att_mode = map_of [(0, ''INVALID''), (1, ''COARSE''), (2, ''FINE'')]"

text \<open>The packet names of \<^verbatim>\<open>packet_handler\<close>.\<close>

definition TP_KFN :: string where "TP_KFN = ''KFN''"
definition TP_CNM :: string where "TP_CNM = ''CNM''"
definition TP_GH :: string where "TP_GH = ''GH''"
definition TP_SA :: string where "TP_SA = ''SA''"
definition TP_NCA :: string where "TP_NCA = ''NCA''"
definition TP_PID :: string where "TP_PID = ''ProductID''"
definition TP_EV :: string where "TP_EV = ''EngineVersion''"
definition TP_NAV :: string where "TP_NAV = ''NAV''"
definition TP_SS :: string where "TP_SS = ''SS''"

subsection \<open>Reading the cache\<close>

text \<open>
  \<^verbatim>\<open>packet[key]\<close>: a fixed-shape packet is a dictionary and raises \<^verbatim>\<open>KeyError\<close> on a key it
  does not hold; a variable-length packet is a list, which a string does not index.
\<close>

definition packet_item :: "'f packet \<Rightarrow> string \<Rightarrow> fault + 'f pyval" where
  "packet_item packet key =
     (case packet of
        Fixed d \<Rightarrow> (case map_of d key of None \<Rightarrow> Inl (KeyError key) | Some v \<Rightarrow> Inr v)
      | VarLen ds \<Rightarrow> Inl TypeError)"

text \<open>\<^verbatim>\<open>self.msgs[name][key]\<close>.\<close>

definition msgs_item :: "(string \<rightharpoonup> 'f cache_entry) \<Rightarrow> string \<Rightarrow> string \<Rightarrow> fault + 'f pyval" where
  "msgs_item cache name key =
     (case cache name of
        None \<Rightarrow> Inl (KeyError name)
      | Some (CachedPacket packet) \<Rightarrow> packet_item packet key
      | Some (CachedUserConfiguration c) \<Rightarrow> Inl TypeError)"

text \<open>\<^verbatim>\<open>table[code]\<close> on a mode table: a code the table does not hold raises \<^verbatim>\<open>KeyError\<close>.\<close>

definition mode_name :: "'f py_ops \<Rightarrow> (int \<rightharpoonup> string) \<Rightarrow> 'f pyval \<Rightarrow> fault + 'f pyval" where
  "mode_name ops table code =
     (case py_int_key ops code of
        None \<Rightarrow> Inl (KeyError (py_str ops code))
      | Some k \<Rightarrow> (case table k of
                    None \<Rightarrow> Inl (KeyError (py_str ops code))
                  | Some nm \<Rightarrow> Inr (PStr nm)))"

subsection \<open>The NAV packet\<close>

text \<open>\<^verbatim>\<open>math.sqrt(math.pow(n,2)+math.pow(e,2)+math.pow(d,2))\<close>, operation by operation.\<close>

definition rms :: "'f py_ops \<Rightarrow> 'f pyval \<Rightarrow> 'f pyval \<Rightarrow> 'f pyval \<Rightarrow> fault + 'f pyval" where
  "rms ops n e d =
     bind_f (math_pow ops n (PInt 2)) (\<lambda>n2.
     bind_f (math_pow ops e (PInt 2)) (\<lambda>e2.
     bind_f (py_add ops n2 e2) (\<lambda>ne.
     bind_f (math_pow ops d (PInt 2)) (\<lambda>d2.
     bind_f (py_add ops ne d2) (\<lambda>s.
     math_sqrt ops s)))))"

text \<open>
  The body of the NAV branch: the thirteen reads of the cached CNM packet, the call of
  \<^verbatim>\<open>utility.cal_attitude\<close>, then the nineteen entries of the ordered dictionary in the order
  they are assigned.
\<close>

definition nav_packet :: "'f py_ops \<Rightarrow> (string \<rightharpoonup> 'f cache_entry) \<Rightarrow> fault + (string \<times> 'f pyval) list" where
  "nav_packet ops cache =
     bind_f (seq_list (map (msgs_item cache TP_CNM)
               [''Position RMS-N'', ''Position RMS-E'', ''Position RMS-D'',
                ''Velocity RMS-N'', ''Velocity RMS-E'', ''Velocity RMS-D'',
                ''Attitude RMS-N'', ''Attitude RMS-E'', ''Attitude RMS-D'',
                ''Attitude quaternion-Scalar'', ''Attitude quaternion-X'',
                ''Attitude quaternion-Y'', ''Attitude quaternion-Z''])) (\<lambda>vals.
     case vals of
       [pos_rms_n, pos_rms_e, pos_rms_d, vel_rms_n, vel_rms_e, vel_rms_d,
        att_rms_n, att_rms_e, att_rms_d, q0, q1, q2, q3] \<Rightarrow>
         bind_f (cal_attitude ops q0 q1 q2 q3) (\<lambda>(roll, pitch, heading).
         seq_fields
           [(''System time'', bind_f (msgs_item cache TP_KFN ''System time'') (py_int ops)),
            (''Time of week'', msgs_item cache TP_CNM ''Time of week''),
            (''GPS week'', msgs_item cache TP_CNM ''GPS week''),
            (''Position mode'',
               bind_f (msgs_item cache TP_KFN ''Position mode'')
                 (mode_name ops nav_pos_vel_mode)),
            (''Latitude'', msgs_item cache TP_CNM ''Latitude''),
            (''Longitude'', msgs_item cache TP_CNM ''Longitude''),
            (''Ellipsoidal height'', msgs_item cache TP_CNM ''Ellipsoidal height''),
            (''MSL height'',
               bind_f (msgs_item cache TP_CNM ''Ellipsoidal height'') (\<lambda>h.
               bind_f (msgs_item cache TP_GH ''Geoid height'') (\<lambda>g. py_sub ops h g))),
            (''Position RMS'', rms ops pos_rms_n pos_rms_e pos_rms_d),
            (''Velocity mode'',
               bind_f (msgs_item cache TP_KFN ''Velocity mode'')
                 (mode_name ops nav_pos_vel_mode)),
            (''Vel N'', msgs_item cache TP_CNM ''Vel N''),
            (''Vel E'', msgs_item cache TP_CNM ''Vel E''),
            (''Vel D'', msgs_item cache TP_CNM ''Vel D''),
            (''Velocity RMS'', rms ops vel_rms_n vel_rms_e vel_rms_d),
            (''Attitude status'',
               bind_f (msgs_item cache TP_KFN ''Attitude status'')
                 (mode_name ops nav_att_mode)),
            (''Roll'', py_mul ops roll (r2d ops)),
            (''Pitch'', py_mul ops pitch (r2d ops)),
            (''Heading'', py_mul ops heading (r2d ops)),
            (''Attitude RMS'', rms ops att_rms_n att_rms_e att_rms_d)])
     | _ \<Rightarrow> Inl TypeError)"

subsection \<open>The handler\<close>

text \<open>\<^verbatim>\<open>1 if packet[key] > 0 else 0\<close>.\<close>

definition status_flag :: "'f py_ops \<Rightarrow> 'f packet \<Rightarrow> string \<Rightarrow> fault + 'f pyval" where
  "status_flag ops packet key =
     bind_f (packet_item packet key) (\<lambda>v.
     bind_f (py_gt ops v (PInt 0)) (\<lambda>b. Inr (PInt (if b then 1 else 0))))"

text \<open>
  The callbacks \<^verbatim>\<open>self.app.on_message\<close> and \<^verbatim>\<open>client.on_driver_message\<close> belong to objects
  outside the driver and are called with no \<^verbatim>\<open>try\<close> around them. They are the parameter
  \<open>notify\<close>: from the call and the observers \<open>w\<close> (of any type) to the exception raised, if
  any, and the observers afterwards.
\<close>

type_synonym ('f, 'w) notify = "'f driver_event \<Rightarrow> 'w \<Rightarrow> fault option \<times> 'w"

text \<open>
  Calls made one after the other, as by \<^verbatim>\<open>for client in self.web_clients\<close>: the first call
  that raises ends them. The result is the exception, the observers, and the calls made.
\<close>

fun call_all ::
  "('f, 'w) notify \<Rightarrow> 'w \<Rightarrow> 'f driver_event list \<Rightarrow> fault option \<times> 'w \<times> 'f driver_event list" where
  "call_all notify w [] = (None, w, [])"
| "call_all notify w (ev # evs) =
     (case notify ev w of
        (Some e, w1) \<Rightarrow> (Some e, w1, [ev])
      | (None, w1) \<Rightarrow>
          (case call_all notify w1 evs of (f, w2, called) \<Rightarrow> (f, w2, ev # called)))"

text \<open>
  A derived packet is pushed to the application, when there is one, and then to every web
  client.
\<close>

definition push_events :: "'f rover_driver \<Rightarrow> string \<Rightarrow> 'f packet \<Rightarrow> 'f driver_event list" where
  "push_events d packet_type packet =
     (if app d then [AppOnMessage packet_type packet False] else [])
     @ map (\<lambda>client. ClientOnDriverMessage client ''event'' packet_type packet False)
           (web_clients d)"

text \<open>
  \<^verbatim>\<open>packet_handler\<close>: the packet is cached under its name (KFN, CNM, GH, SA, NCA) or, for a
  product identifier, its \<^verbatim>\<open>Product ID\<close> is made a string; it is sent to every web client;
  then a NAV packet is built and pushed when a CNM packet has come and KFN, CNM and GH are
  cached, and an SS packet is built, cached and pushed for an SA or NCA packet. The result
  is the exception raised (if any), the driver, the observers, and the calls made up to
  there.
\<close>

definition packet_handler ::
  "'f py_ops \<Rightarrow> ('f, 'w) notify \<Rightarrow> 'f rover_driver \<Rightarrow> 'w \<Rightarrow> string \<Rightarrow> 'f packet \<Rightarrow> bool
     \<Rightarrow> fault option \<times> 'f rover_driver \<times> 'w \<times> 'f driver_event list" where
  "packet_handler ops notify d w packet_type packet is_var_len =
     (let cached =
            (if TP_KFN = packet_type \<or> TP_CNM = packet_type \<or> TP_GH = packet_type \<or>
                TP_SA = packet_type \<or> TP_NCA = packet_type
             then Inr (d\<lparr>msgs := (msgs d)(packet_type \<mapsto> CachedPacket packet)\<rparr>, ''event'', packet)
             else if TP_PID = packet_type
             then bind_f (packet_item packet ''Product ID'') (\<lambda>v.
                    Inr (d, ''queryResponse'',
                         (case (v, packet) of
                            (PStr s, _) \<Rightarrow> packet
                          | (_, Fixed dict) \<Rightarrow>
                              Fixed (AList.update ''Product ID'' (PStr (py_str ops v)) dict)
                          | (_, VarLen ds) \<Rightarrow> packet)))
             else if TP_EV = packet_type then Inr (d, ''queryResponse'', packet)
             else Inr (d, ''event'', packet))
      in case cached of
           Inl e \<Rightarrow> (Some e, d, w, [])
         | Inr (d1, msg_type, packet1) \<Rightarrow>
             (case call_all notify w
                     (map (\<lambda>client. ClientOnDriverMessage client msg_type packet_type packet1
                                       is_var_len) (web_clients d1)) of
                (Some e, w1, c1) \<Rightarrow> (Some e, d1, w1, c1)
              | (None, w1, c1) \<Rightarrow>
                  if TP_KFN \<in> dom (msgs d1) \<and> TP_CNM \<in> dom (msgs d1) \<and>
                     TP_GH \<in> dom (msgs d1) \<and> TP_CNM = packet_type
                  then (case nav_packet ops (msgs d1) of
                          Inl e \<Rightarrow> (Some e, d1, w1, c1)
                        | Inr nav \<Rightarrow>
                            (case call_all notify w1 (push_events d1 TP_NAV (Fixed nav)) of
                               (f, w2, c2) \<Rightarrow> (f, d1, w2, c1 @ c2)))
                  else if TP_SA = packet_type
                  then (case seq_fields
                               [(''IMU Status'', status_flag ops packet1 ''IMU message count''),
                                (''GNSS Status'', status_flag ops packet1 ''GNSS message count''),
                                (''PPS Status'', status_flag ops packet1 ''PPS count''),
                                (''NTRIP Status'', Inr (PInt 0))] of
                          Inl e \<Rightarrow> (Some e, d1, w1, c1)
                        | Inr data \<Rightarrow>
                            (case call_all notify w1 (push_events d1 TP_SS (Fixed data)) of
                               (f, w2, c2) \<Rightarrow>
                                 (f, d1\<lparr>msgs := (msgs d1)(TP_SS \<mapsto> CachedPacket (Fixed data))\<rparr>,
                                  w2, c1 @ c2)))
                  else if TP_NCA = packet_type
                  then (case seq_fields
                               [(''IMU Status'', Inr (PInt 0)),
                                (''GNSS Status'', Inr (PInt 0)),
                                (''PPS Status'', Inr (PInt 0)),
                                (''NTRIP Status'',
                                   status_flag ops packet1 ''NTRIP message size'')] of
                          Inl e \<Rightarrow> (Some e, d1, w1, c1)
                        | Inr data \<Rightarrow>
                            (case call_all notify w1 (push_events d1 TP_SS (Fixed data)) of
                               (f, w2, c2) \<Rightarrow>
                                 (f, d1\<lparr>msgs := (msgs d1)(TP_SS \<mapsto> CachedPacket (Fixed data))\<rparr>,
                                  w2, c1 @ c2)))
                  else (None, d1, w1, c1)))"

subsection \<open>Sample operations and packets for closed examples\<close>

text \<open>
  Python numbers read as exact reals: integer arithmetic on two integers, real arithmetic
  otherwise. The sample attitude function returns zero angles, which is what the
  quaternion-to-Euler conversion gives on the identity quaternion \<open>(1, 0, 0, 0)\<close>, the only
  quaternion of the samples.
\<close>

definition as_real :: "real pyval \<Rightarrow> real option" where
  "as_real v = (case v of PInt i \<Rightarrow> Some (of_int i) | PFloat x \<Rightarrow> Some x | _ \<Rightarrow> None)"

definition exact_arith ::
  "(int \<Rightarrow> int \<Rightarrow> int) \<Rightarrow> (real \<Rightarrow> real \<Rightarrow> real) \<Rightarrow> real pyval \<Rightarrow> real pyval \<Rightarrow> fault + real pyval" where
  "exact_arith fi fr a b =
     (case (a, b) of
        (PInt i, PInt j) \<Rightarrow> Inr (PInt (fi i j))
      | _ \<Rightarrow> (case (as_real a, as_real b) of
                (Some x, Some y) \<Rightarrow> Inr (PFloat (fr x y))
              | _ \<Rightarrow> Inl TypeError))"

definition exact_ops :: "real py_ops" where
  "exact_ops =
     \<lparr>py_int = (\<lambda>v. case v of
                  PInt i \<Rightarrow> Inr (PInt i)
                | PFloat x \<Rightarrow> Inr (PInt (if x \<ge> 0 then \<lfloor>x\<rfloor> else \<lceil>x\<rceil>))
                | _ \<Rightarrow> Inl TypeError),
      py_str = (\<lambda>v. case v of
                  PStr s \<Rightarrow> s
                | PInt i \<Rightarrow> (if i < 0 then ''-'' else '''') @ decimal (nat \<bar>i\<bar>)
                | _ \<Rightarrow> ''''),
      py_add = exact_arith (+) (+),
      py_sub = exact_arith (-) (-),
      py_mul = exact_arith (*) (*),
      py_gt = (\<lambda>a b. case (as_real a, as_real b) of
                  (Some x, Some y) \<Rightarrow> Inr (x > y)
                | _ \<Rightarrow> Inl TypeError),
      py_int_key = (\<lambda>v. case v of
                  PInt i \<Rightarrow> Some i
                | PFloat x \<Rightarrow> (if x = of_int \<lfloor>x\<rfloor> then Some \<lfloor>x\<rfloor> else None)
                | _ \<Rightarrow> None),
      math_pow = (\<lambda>a b. case (as_real a, b) of
                  (Some x, PInt n) \<Rightarrow> (if n \<ge> 0 then Inr (PFloat (x ^ nat n))
                                       else Inl TypeError)
                | _ \<Rightarrow> Inl TypeError),
      math_sqrt = (\<lambda>a. case as_real a of
                  Some x \<Rightarrow> (if x \<ge> 0 then Inr (PFloat (sqrt x))
                             else Inl (ValueError ''math domain error''))
                | None \<Rightarrow> Inl TypeError),
      r2d = PFloat (180 / pi),
      cal_attitude = (\<lambda>q0 q1 q2 q3. Inr (PFloat 0, PFloat 0, PFloat 0))\<rparr>"

text \<open>
  Cached KFN and GH packets, an arriving CNM packet, and the NAV packet built from them.
\<close>

definition kfn_sample :: "(string \<times> real pyval) list" where
  "kfn_sample =
     [(''System time'', PFloat 100), (''Position mode'', PInt 2), (''Velocity mode'', PInt 2),
      (''Attitude status'', PInt 2)]"

definition gh_sample :: "(string \<times> real pyval) list" where
  "gh_sample = [(''Geoid height'', PFloat 10)]"

definition cnm_sample :: "(string \<times> real pyval) list" where
  "cnm_sample =
     [(''Time of week'', PFloat 0), (''GPS week'', PInt 0),
      (''Latitude'', PFloat 0), (''Longitude'', PFloat 0), (''Ellipsoidal height'', PFloat 110),
      (''Vel N'', PFloat 0), (''Vel E'', PFloat 0), (''Vel D'', PFloat 0),
      (''Position RMS-N'', PFloat (3 / 10)), (''Position RMS-E'', PFloat (4 / 10)),
      (''Position RMS-D'', PFloat 0),
      (''Velocity RMS-N'', PFloat 0), (''Velocity RMS-E'', PFloat 0),
      (''Velocity RMS-D'', PFloat 0),
      (''Attitude RMS-N'', PFloat 0), (''Attitude RMS-E'', PFloat 0),
      (''Attitude RMS-D'', PFloat 0),
      (''Attitude quaternion-Scalar'', PFloat 1), (''Attitude quaternion-X'', PFloat 0),
      (''Attitude quaternion-Y'', PFloat 0), (''Attitude quaternion-Z'', PFloat 0)]"

definition nav_driver_sample :: "real rover_driver" where
  "nav_driver_sample =
     \<lparr>cmt_open = True, exit_thread = False, data_queue = [], threads = [0, 1],
      web_clients = [7], app = True,
      msgs = [TP_KFN \<mapsto> CachedPacket (Fixed kfn_sample),
              TP_GH \<mapsto> CachedPacket (Fixed gh_sample)],
      connection_status = 1\<rparr>"

definition nav_sample :: "(string \<times> real pyval) list" where
  "nav_sample =
     [(''System time'', PInt 100), (''Time of week'', PFloat 0), (''GPS week'', PInt 0),
      (''Position mode'', PStr ''STAND_ALONE''),
      (''Latitude'', PFloat 0), (''Longitude'', PFloat 0), (''Ellipsoidal height'', PFloat 110),
      (''MSL height'', PFloat 100), (''Position RMS'', PFloat (1 / 2)),
      (''Velocity mode'', PStr ''STAND_ALONE''),
      (''Vel N'', PFloat 0), (''Vel E'', PFloat 0), (''Vel D'', PFloat 0),
      (''Velocity RMS'', PFloat 0), (''Attitude status'', PStr ''FINE''),
      (''Roll'', PFloat 0), (''Pitch'', PFloat 0), (''Heading'', PFloat 0),
      (''Attitude RMS'', PFloat 0)]"

text \<open>A KFN packet whose position mode, 8, is not a code of the table.\<close>

definition kfn_mode_8 :: "(string \<times> real pyval) list" where
  "kfn_mode_8 =
     [(''System time'', PFloat 100), (''Position mode'', PInt 8), (''Velocity mode'', PInt 2),
      (''Attitude status'', PInt 2)]"

definition nav_driver_mode_8 :: "real rover_driver" where
  "nav_driver_mode_8 =
     nav_driver_sample\<lparr>msgs := [TP_KFN \<mapsto> CachedPacket (Fixed kfn_mode_8),
                                TP_GH \<mapsto> CachedPacket (Fixed gh_sample)]\<rparr>"

text \<open>
  A sample instance of \<open>notify\<close>: every callback returns, and the observers are the number
  of calls received.
\<close>

definition notify_sample :: "(real, nat) notify" where
  "notify_sample ev n = (None, Suc n)"
section \<open>Properties of the frame parser\<close>

lemma parser_ok_simps [simp]:
  "pr_fault (parser_ok st x ev) = None" "pr_state (parser_ok st x ev) = st"
  "pr_driver (parser_ok st x ev) = x" "pr_events (parser_ok st x ev) = ev"
  by (simp_all add: parser_ok_def)

lemma parser_ok_events [simp]:
  "parser_ok st x ev\<lparr>pr_events := ev'\<rparr> = parser_ok st x ev'"
  by (simp add: parser_ok_def)

lemma parser_run_step:
  "parser_step cs pf st x d = parser_ok s1 x1 e1 \<Longrightarrow>
   parser_run cs pf st x (d # ds) =
     (parser_run cs pf s1 x1 ds)\<lparr>pr_events := e1 @ pr_events (parser_run cs pf s1 x1 ds)\<rparr>"
  by (simp add: Let_def)

lemma parser_run_append_eq:
  "parser_run cs pf st x xs = parser_ok s1 x1 e1 \<Longrightarrow>
   parser_run cs pf st x (xs @ ys) =
     (parser_run cs pf s1 x1 ys)\<lparr>pr_events := e1 @ pr_events (parser_run cs pf s1 x1 ys)\<rparr>"
proof (induction xs arbitrary: st x e1)
  case Nil
  then show ?case by (simp add: parser_ok_def)
next
  case (Cons d xs)
  let ?r = "parser_step cs pf st x d"
  from Cons.prems have f: "pr_fault ?r = None"
    by (cases "pr_fault ?r") (auto simp: Let_def parser_ok_def)
  from Cons.prems f obtain ev2 where
    r2: "parser_run cs pf (pr_state ?r) (pr_driver ?r) xs = parser_ok s1 x1 ev2"
    and e1: "e1 = pr_events ?r @ ev2"
    by (cases "parser_run cs pf (pr_state ?r) (pr_driver ?r) xs")
       (auto simp: Let_def parser_ok_def)
  from Cons.IH [OF r2] f show ?case
    by (simp add: Let_def e1)
qed

lemma parser_run_append_ok:
  "parser_run cs pf st x xs = parser_ok s1 x1 e1 \<Longrightarrow>
   parser_run cs pf s1 x1 ys = parser_ok s2 x2 e2 \<Longrightarrow>
   parser_run cs pf st x (xs @ ys) = parser_ok s2 x2 (e1 @ e2)"
  by (simp add: parser_run_append_eq)

lemma parser_run_single: "parser_run cs pf st x [d] = parser_step cs pf st x d"
  by (cases "pr_fault (parser_step cs pf st x d)") (simp_all add: Let_def parser_ok_def)


lemma deque_append_3: "deque_append 3 [a, b, c] d = [b, c, d]"
  by (simp add: deque_append_def)

lemma deque_append_length: "length q = 3 \<Longrightarrow> length (deque_append 3 q x) = 3"
  by (simp add: deque_append_def)

lemma py_slice_middle:
  "length xs = i \<Longrightarrow> py_slice (xs @ ys @ zs) i (i + length ys) = ys"
  by (simp add: py_slice_def)

lemma is_header_length: "is_header hdr \<Longrightarrow> length hdr = 3"
  by (auto simp: is_header_def HEADER_05_def HEADER_06_def HEADER_07_def)

lemma header_search_init: "header_search parser_init"
  by (simp add: header_search_def parser_init_def MAX_FRAME_LIMIT_def)

lemma le16_length:
  "n < 65536 \<Longrightarrow>
   256 * unat (of_nat (n div 256) :: byte) + unat (of_nat (n mod 256) :: byte) = n"
proof -
  assume "n < 65536"
  then have "n div 256 < 256" by (simp add: less_mult_imp_div_less)
  then show ?thesis by (simp add: unat_of_nat)
qed

text \<open>The three header bytes, met while searching, start a frame on the third byte.\<close>

lemma parser_run_header:
  assumes "header_search st" "is_header hdr"
  shows "parser_run cs pf st x hdr =
           parser_ok (st\<lparr>sync_pattern := hdr, frame := hdr, find_header := True\<rparr>) x []"
proof -
  from assms(1) obtain a b c where sp: "sync_pattern st = [a, b, c]" and nf: "\<not> find_header st"
    by (auto simp: header_search_def length_Suc_conv numeral_3_eq_3)
  from assms(2) show ?thesis
    unfolding is_header_def
    by (elim disjE)
       (simp_all add: sp nf parser_step_def parser_sync_byte_def deque_append_3 Let_def
          HEADER_05_def HEADER_06_def HEADER_07_def)
qed

text \<open>Sub-id and the two length bytes: the payload length is captured on the sixth byte.\<close>

lemma parser_run_prefix:
  assumes "find_header st" "length (frame st) = 3" "payload_len st \<le> MAX_FRAME_LIMIT"
  shows "parser_run cs pf st x [sub, lo, hi] =
    (let n = 256 * unat hi + unat lo;
         st1 = st\<lparr>frame := frame st @ [sub, lo, hi]\<rparr>
     in if n > MAX_FRAME_LIMIT then parser_ok (st1\<lparr>find_header := False, payload_len := 0\<rparr>) x []
        else parser_ok (st1\<lparr>payload_len := n\<rparr>) x [])"
  using assms
  by (simp add: parser_step_def parser_frame_byte_def limit_check_def Let_def PAYLOAD_LEN_IDX_def
        MAX_FRAME_LIMIT_def nth_append)

text \<open>Bytes that neither complete the frame nor pass the limit are only appended.\<close>

lemma parser_run_accumulate:
  "find_header st \<Longrightarrow> 6 \<le> length (frame st) \<Longrightarrow> payload_len st \<le> MAX_FRAME_LIMIT \<Longrightarrow>
   length (frame st) + length ds < 8 + payload_len st \<Longrightarrow>
   length (frame st) + length ds \<le> MAX_FRAME_LIMIT \<Longrightarrow>
   parser_run cs pf st x ds = parser_ok (st\<lparr>frame := frame st @ ds\<rparr>) x []"
proof (induction ds arbitrary: st)
  case Nil
  then show ?case by simp
next
  case (Cons d ds)
  have step: "parser_step cs pf st x d = parser_ok (st\<lparr>frame := frame st @ [d]\<rparr>) x []"
    using Cons.prems
    by (simp add: parser_step_def parser_frame_byte_def limit_check_def Let_def
          PAYLOAD_LEN_IDX_def)
  have "parser_run cs pf (st\<lparr>frame := frame st @ [d]\<rparr>) x ds =
          parser_ok (st\<lparr>frame := frame st @ [d]\<rparr>\<lparr>frame := frame (st\<lparr>frame := frame st @ [d]\<rparr>) @ ds\<rparr>)
            x []"
    using Cons.prems by (intro Cons.IH) simp_all
  then show ?case by (simp add: step Let_def)
qed

text \<open>
  The byte that completes the frame: the checksum comparison, the call of \<^verbatim>\<open>parse_frame\<close>
  when it matches, then the limit check when the call has returned.
\<close>

lemma parser_step_last:
  assumes "find_header st" "length (frame st) = 7 + payload_len st"
    "payload_len st \<le> MAX_FRAME_LIMIT"
  shows "parser_step cs pf st x d =
    (let fr = frame st @ [d];
         st1 = st\<lparr>frame := fr, find_header := False,
                 payload_len := (if length fr > MAX_FRAME_LIMIT then 0 else payload_len st)\<rparr>
     in if cs (py_slice fr 6 (6 + payload_len st)) = (last (frame st), d)
        then (case pf fr x of
                (Some e, x1) \<Rightarrow>
                  \<lparr>pr_fault = Some e, pr_state = st\<lparr>frame := fr, find_header := False\<rparr>,
                   pr_driver = x1, pr_events = [ParseFrame fr]\<rparr>
              | (None, x1) \<Rightarrow> parser_ok st1 x1 [ParseFrame fr])
        else parser_ok st1 x [ChecksumError])"
proof -
  have ne: "frame st \<noteq> []" using assms(2) by auto
  have "last (frame st) = frame st ! (payload_len st + 6)"
    using assms(2) by (simp add: last_conv_nth [OF ne] add.commute)
  then show ?thesis
    using assms
    by (auto simp add: parser_step_def parser_frame_byte_def limit_check_def Let_def
          PAYLOAD_LEN_IDX_def MAX_FRAME_LIMIT_def nth_append prod_eq_iff ac_simps
          split: prod.splits option.splits)
qed

lemma header_search_after_frame:
  "header_search st \<Longrightarrow> is_header hdr \<Longrightarrow> n \<le> 493 \<Longrightarrow> header_search (after_frame st hdr fr n)"
  by (simp add: header_search_def after_frame_def is_header_length MAX_FRAME_LIMIT_def)

text \<open>
  A whole frame of at most 501 bytes, met while searching for a header: one event on its
  last byte, decided by the checksum; the parser searches again, unless \<^verbatim>\<open>parse_frame\<close> has
  raised.
\<close>

lemma parser_run_frame:
  assumes hs: "header_search st" and hd: "is_header hdr" and len: "length payload \<le> 493"
  shows "parser_run cs pf st x (mk_frame hdr sub payload c0 c1) =
     (let fr = mk_frame hdr sub payload c0 c1
      in if cs payload = (c0, c1)
         then (case pf fr x of
                 (Some e, x1) \<Rightarrow>
                   \<lparr>pr_fault = Some e,
                    pr_state = st\<lparr>sync_pattern := hdr, frame := fr, find_header := False,
                                  payload_len := length payload\<rparr>,
                    pr_driver = x1, pr_events = [ParseFrame fr]\<rparr>
               | (None, x1) \<Rightarrow>
                   parser_ok (after_frame st hdr fr (length payload)) x1 [ParseFrame fr])
         else parser_ok (after_frame st hdr fr (length payload)) x [ChecksumError])"
proof -
  define n where "n = length payload"
  define lo :: byte where "lo = of_nat (n mod 256)"
  define hi :: byte where "hi = of_nat (n div 256)"
  define sa where "sa = st\<lparr>sync_pattern := hdr, frame := hdr, find_header := True\<rparr>"
  define sb where "sb = sa\<lparr>frame := hdr @ [sub, lo, hi], payload_len := n\<rparr>"
  define sc where "sc = sb\<lparr>frame := hdr @ [sub, lo, hi] @ payload @ [c0]\<rparr>"
  have l3: "length hdr = 3" by (rule is_header_length [OF hd])
  have n: "256 * unat hi + unat lo = n" "n \<le> 493"
    using len le16_length [of n] by (simp_all add: n_def lo_def hi_def)
  have pl: "payload_len st \<le> MAX_FRAME_LIMIT" using hs by (simp add: header_search_def)
  have F: "mk_frame hdr sub payload c0 c1 = hdr @ [sub, lo, hi] @ (payload @ [c0]) @ [c1]"
    by (simp add: mk_frame_def lo_def hi_def n_def)
  have r1: "parser_run cs pf st x hdr = parser_ok sa x []"
    unfolding sa_def by (rule parser_run_header [OF hs hd])
  have r2: "parser_run cs pf sa x [sub, lo, hi] = parser_ok sb x []"
    using parser_run_prefix [of sa cs pf x sub lo hi] l3 pl n
    by (simp add: sa_def sb_def Let_def MAX_FRAME_LIMIT_def)
  have r3: "parser_run cs pf sb x (payload @ [c0]) = parser_ok sc x []"
    using parser_run_accumulate [of sb "payload @ [c0]" cs pf x] l3 n
    by (simp add: sb_def sc_def sa_def MAX_FRAME_LIMIT_def n_def)
  have sl: "py_slice (hdr @ sub # lo # hi # payload @ [c0, c1]) 6 (6 + n) = payload"
    using py_slice_middle [of "hdr @ [sub, lo, hi]" 6 payload "[c0, c1]"] l3
    by (simp add: n_def)
  have a: "parser_run cs pf st x (hdr @ [sub, lo, hi]) = parser_ok sb x []"
    using parser_run_append_ok [OF r1 r2] by simp
  have b: "parser_run cs pf st x ((hdr @ [sub, lo, hi]) @ (payload @ [c0])) = parser_ok sc x []"
    using parser_run_append_ok [OF a r3] by simp
  have c: "parser_run cs pf st x (mk_frame hdr sub payload c0 c1) = parser_step cs pf sc x c1"
    using parser_run_append_eq [OF b, of "[c1]"]
    by (simp add: F parser_run_single del: parser_run.simps)
  have sc: "find_header sc" "length (frame sc) = 7 + payload_len sc"
    "payload_len sc \<le> MAX_FRAME_LIMIT" "payload_len sc = n" "last (frame sc) = c0"
    "frame sc @ [c1] = mk_frame hdr sub payload c0 c1"
    using l3 n by (simp_all add: sc_def sb_def sa_def n_def MAX_FRAME_LIMIT_def F)
  show ?thesis
    unfolding c parser_step_last [OF sc(1,2,3)]
    using l3 n sl
    by (simp add: sc(4,5,6) Let_def after_frame_def MAX_FRAME_LIMIT_def n_def
          sc_def sb_def sa_def mk_frame_def lo_def hi_def split: prod.splits option.splits)
qed


lemma parser_run_raised:
  "pr_fault (parser_run cs pf st x xs) \<noteq> None \<Longrightarrow>
   parser_run cs pf st x (xs @ ys) = parser_run cs pf st x xs"
proof (induction xs arbitrary: st x)
  case Nil
  then show ?case by simp
next
  case (Cons d xs)
  show ?case
  proof (cases "pr_fault (parser_step cs pf st x d)")
    case None
    with Cons.prems have
      "pr_fault (parser_run cs pf (pr_state (parser_step cs pf st x d))
                   (pr_driver (parser_step cs pf st x d)) xs) \<noteq> None"
      by (simp add: Let_def)
    from Cons.IH [OF this] None show ?thesis by (simp add: Let_def)
  next
    case (Some e)
    then show ?thesis by (simp add: Let_def)
  qed
qed

text \<open>
  A frame of 502 bytes (payload length 494) passes the limit on its next-to-last byte and
  is abandoned there; its last byte is read by the header search.
\<close>

lemma parser_run_frame_502:
  assumes hs: "header_search st" and hd: "is_header hdr" and len: "length payload = 494"
  shows "pr_events (parser_run cs pf st x (mk_frame hdr sub payload c0 c1)) = []"
    and "pr_fault (parser_run cs pf st x (mk_frame hdr sub payload c0 c1)) = None"
    and "pr_driver (parser_run cs pf st x (mk_frame hdr sub payload c0 c1)) = x"
proof -
  define lo :: byte where "lo = of_nat (494 mod 256)"
  define hi :: byte where "hi = of_nat (494 div 256)"
  define sa where "sa = st\<lparr>sync_pattern := hdr, frame := hdr, find_header := True\<rparr>"
  define sb where "sb = sa\<lparr>frame := hdr @ [sub, lo, hi], payload_len := 494\<rparr>"
  define sc where "sc = sb\<lparr>frame := hdr @ [sub, lo, hi] @ payload\<rparr>"
  define sd where "sd = sc\<lparr>frame := hdr @ [sub, lo, hi] @ payload @ [c0], find_header := False,
                          payload_len := 0\<rparr>"
  have l3: "length hdr = 3" by (rule is_header_length [OF hd])
  have n: "256 * unat hi + unat lo = 494"
    using le16_length [of 494] by (simp add: lo_def hi_def)
  have pl: "payload_len st \<le> MAX_FRAME_LIMIT" using hs by (simp add: header_search_def)
  have F: "mk_frame hdr sub payload c0 c1 = ((hdr @ [sub, lo, hi]) @ payload) @ [c0, c1]"
    by (simp add: mk_frame_def lo_def hi_def len)
  have r1: "parser_run cs pf st x hdr = parser_ok sa x []"
    unfolding sa_def by (rule parser_run_header [OF hs hd])
  have r2: "parser_run cs pf sa x [sub, lo, hi] = parser_ok sb x []"
    using parser_run_prefix [of sa cs pf x sub lo hi] l3 pl n
    by (simp add: sa_def sb_def Let_def MAX_FRAME_LIMIT_def)
  have r3: "parser_run cs pf sb x payload = parser_ok sc x []"
    using parser_run_accumulate [of sb payload cs pf x] l3 len
    by (simp add: sb_def sc_def sa_def MAX_FRAME_LIMIT_def)
  have r4: "parser_step cs pf sc x c0 = parser_ok sd x []"
    using l3 len
    by (simp add: parser_step_def parser_frame_byte_def limit_check_def Let_def
          PAYLOAD_LEN_IDX_def MAX_FRAME_LIMIT_def sa_def sb_def sc_def sd_def)
  have sp: "sync_pattern sd = hdr" "\<not> find_header sd"
    by (simp_all add: sd_def sc_def sb_def sa_def)
  have r5: "parser_step cs pf sd x c1 = parser_ok (parser_sync_byte sd c1) x []"
    using sp by (simp add: parser_step_def)
  have r45: "parser_run cs pf sc x [c0, c1] = parser_ok (parser_sync_byte sd c1) x []"
    by (simp add: r4 r5 Let_def)
  have a: "parser_run cs pf st x (hdr @ [sub, lo, hi]) = parser_ok sb x []"
    using parser_run_append_ok [OF r1 r2] by simp
  have b: "parser_run cs pf st x ((hdr @ [sub, lo, hi]) @ payload) = parser_ok sc x []"
    using parser_run_append_ok [OF a r3] by simp
  have c: "parser_run cs pf st x (mk_frame hdr sub payload c0 c1) =
             parser_ok (parser_sync_byte sd c1) x []"
    unfolding F using parser_run_append_ok [OF b r45] by simp
  show "pr_events (parser_run cs pf st x (mk_frame hdr sub payload c0 c1)) = []"
    and "pr_fault (parser_run cs pf st x (mk_frame hdr sub payload c0 c1)) = None"
    and "pr_driver (parser_run cs pf st x (mk_frame hdr sub payload c0 c1)) = x"
    by (simp_all add: c)
qed

lemma check_sum_sample_1: "check_sum_sample [1] = (1, 1)"
  by (simp add: check_sum_sample_def)

lemma check_sum_sample_zeros: "check_sum_sample (replicate n 0) = (0, 0)"
proof -
  have "foldl (\<lambda>(a, b) d. (a + d, b + (a + d))) (0 :: byte, 0 :: byte) (replicate n 0) = (0, 0)"
    by (induction n) simp_all
  then show ?thesis by (simp add: check_sum_sample_def)
qed

subsection \<open>Invariant of the reachable parser states\<close>

lemma parser_inv_init: "parser_inv parser_init"
  by (simp add: parser_inv_def parser_init_def MAX_FRAME_LIMIT_def)

lemma parser_inv_step: "parser_inv st \<Longrightarrow> parser_inv (pr_state (parser_step cs pf st x d))"
  by (auto simp: parser_inv_def parser_step_def parser_frame_byte_def parser_sync_byte_def
        limit_check_def Let_def deque_append_length MAX_FRAME_LIMIT_def PAYLOAD_LEN_IDX_def
        HEADER_05_def HEADER_06_def HEADER_07_def split: if_splits prod.splits option.splits)

lemma parser_inv_run: "parser_inv st \<Longrightarrow> parser_inv (pr_state (parser_run cs pf st x ds))"
proof (induction ds arbitrary: st x)
  case Nil
  then show ?case by simp
next
  case (Cons d ds)
  note s = parser_inv_step [OF Cons.prems, of cs pf x d]
  show ?case
  proof (cases "pr_fault (parser_step cs pf st x d)")
    case None
    with Cons.IH [OF s] show ?thesis by (simp add: Let_def)
  next
    case (Some e)
    with s show ?thesis by (simp add: Let_def)
  qed
qed

lemma parser_inv_search: "parser_inv st \<Longrightarrow> \<not> find_header st \<Longrightarrow> header_search st"
  by (simp add: parser_inv_def header_search_def)

text \<open>
  The limit check of the frame branch: once the captured payload length or the frame
  length is over the limit, the parser searches for a header again, unless the byte has
  completed a frame and \<^verbatim>\<open>parse_frame\<close> has raised. The only event such a step can have is
  that of a frame completed by this very byte.
\<close>

lemma parser_step_limit:
  assumes "find_header st"
    and "captured_len st d > MAX_FRAME_LIMIT \<or> length (frame st @ [d]) > MAX_FRAME_LIMIT"
  shows "\<not> find_header (pr_state (parser_step cs pf st x d))"
    and "pr_events (parser_step cs pf st x d) = [] \<and> pr_fault (parser_step cs pf st x d) = None
           \<and> pr_driver (parser_step cs pf st x d) = x \<or>
         (length (frame st @ [d]) = 8 + payload_len st \<and> length (frame st @ [d]) \<noteq> 6)"
  using assms
  by (auto simp: parser_step_def parser_frame_byte_def captured_len_def limit_check_def Let_def
        PAYLOAD_LEN_IDX_def MAX_FRAME_LIMIT_def split: if_splits prod.splits option.splits)

lemma parser_run_declared_too_long:
  assumes hs: "header_search st" and hd: "is_header hdr"
    and n: "256 * unat hi + unat lo > MAX_FRAME_LIMIT"
  shows "parser_run cs pf st x (hdr @ [sub, lo, hi]) =
           parser_ok (st\<lparr>sync_pattern := hdr, frame := hdr @ [sub, lo, hi], find_header := False,
                         payload_len := 0\<rparr>) x []"
    and "header_search (pr_state (parser_run cs pf st x (hdr @ [sub, lo, hi])))"
proof -
  define sa where "sa = st\<lparr>sync_pattern := hdr, frame := hdr, find_header := True\<rparr>"
  have l3: "length hdr = 3" by (rule is_header_length [OF hd])
  have pl: "payload_len st \<le> MAX_FRAME_LIMIT" using hs by (simp add: header_search_def)
  have r1: "parser_run cs pf st x hdr = parser_ok sa x []"
    unfolding sa_def by (rule parser_run_header [OF hs hd])
  have r2: "parser_run cs pf sa x [sub, lo, hi] =
      parser_ok (sa\<lparr>frame := hdr @ [sub, lo, hi], find_header := False, payload_len := 0\<rparr>) x []"
    using parser_run_prefix [of sa cs pf x sub lo hi] l3 pl n
    by (simp add: sa_def Let_def)
  note r = parser_run_append_ok [OF r1 r2]
  show "parser_run cs pf st x (hdr @ [sub, lo, hi]) =
           parser_ok (st\<lparr>sync_pattern := hdr, frame := hdr @ [sub, lo, hi], find_header := False,
                         payload_len := 0\<rparr>) x []"
    using r by (simp add: sa_def)
  then show "header_search (pr_state (parser_run cs pf st x (hdr @ [sub, lo, hi])))"
    using l3 by (simp add: header_search_def MAX_FRAME_LIMIT_def)
qed

lemma parser_run_5: "parser_run cs pf parser_init x (HEADER_05 @ [0, 0xF5]) =
   parser_ok \<lparr>sync_pattern = HEADER_05, find_header = True, frame = HEADER_05 @ [0, 0xF5],
     payload_len = 0\<rparr> x []"
  by (simp add: parser_init_def parser_step_def parser_sync_byte_def parser_frame_byte_def
        limit_check_def deque_append_def HEADER_05_def HEADER_06_def HEADER_07_def
        PAYLOAD_LEN_IDX_def MAX_FRAME_LIMIT_def Let_def)
subsection \<open>Claim C1: a well-formed frame is dispatched exactly once\<close>

text \<open>
  C1 (as amended). Let the parser be searching for a header, as it is at start-up and
  after every completed or abandoned frame, and let the stream continue with a frame
  built as one of the three headers, a sub-id byte, the little-endian 16-bit payload
  length, a payload of that length of at most 493 bytes, and the two bytes of
  \<open>check_sum(payload)\<close>. Then the parser calls \<^verbatim>\<open>parse_frame\<close> on that frame exactly once
  (the run over the frame has this one event). When the call returns, the parser is
  searching for a header again, so the rest of the stream is parsed in the same way;
  when the call raises, the exception is that of the parser task, which reads nothing
  after the frame. If such a frame is preceded by a frame of the same build whose trailer
  differs from the checksum of its payload, the corrupted frame gives a checksum error
  and no dispatch, and the valid frame after it is still dispatched.
\<close>

theorem parser_dispatches_frame_once:
  assumes "header_search st" "is_header hdr" "length payload \<le> 493" "cs payload = (c0, c1)"
  shows "pr_events (parser_run cs pf st x (mk_frame hdr sub payload c0 c1)) =
           [ParseFrame (mk_frame hdr sub payload c0 c1)]
       \<and> pr_fault (parser_run cs pf st x (mk_frame hdr sub payload c0 c1)) =
           fst (pf (mk_frame hdr sub payload c0 c1) x)
       \<and> pr_driver (parser_run cs pf st x (mk_frame hdr sub payload c0 c1)) =
           snd (pf (mk_frame hdr sub payload c0 c1) x)
       \<and> (fst (pf (mk_frame hdr sub payload c0 c1) x) = None \<longrightarrow>
            header_search (pr_state (parser_run cs pf st x (mk_frame hdr sub payload c0 c1))))
       \<and> (fst (pf (mk_frame hdr sub payload c0 c1) x) \<noteq> None \<longrightarrow>
            parser_run cs pf st x (mk_frame hdr sub payload c0 c1 @ rest) =
              parser_run cs pf st x (mk_frame hdr sub payload c0 c1))
       \<and> (\<forall>hdr' sub' payload' b0 b1.
            is_header hdr' \<and> length payload' \<le> 493 \<and> cs payload' \<noteq> (b0, b1) \<longrightarrow>
            pr_events (parser_run cs pf st x
                  (mk_frame hdr' sub' payload' b0 b1 @ mk_frame hdr sub payload c0 c1)) =
              [ChecksumError, ParseFrame (mk_frame hdr sub payload c0 c1)])"
proof -
  let ?F = "mk_frame hdr sub payload c0 c1"
  obtain f x1 where p: "pf ?F x = (f, x1)" by (cases "pf ?F x")
  have run: "\<And>s. header_search s \<Longrightarrow>
      pr_events (parser_run cs pf s x ?F) = [ParseFrame ?F]
      \<and> pr_fault (parser_run cs pf s x ?F) = f \<and> pr_driver (parser_run cs pf s x ?F) = x1
      \<and> (f = None \<longrightarrow> header_search (pr_state (parser_run cs pf s x ?F)))"
    using assms(2,3,4) p
    by (cases f) (simp_all add: parser_run_frame Let_def header_search_after_frame)
  have a: "pr_events (parser_run cs pf st x ?F) = [ParseFrame ?F]"
    and b: "pr_fault (parser_run cs pf st x ?F) = fst (pf ?F x)"
    and c: "pr_driver (parser_run cs pf st x ?F) = snd (pf ?F x)"
    and d: "fst (pf ?F x) = None \<longrightarrow> header_search (pr_state (parser_run cs pf st x ?F))"
    using run [OF assms(1)] p by simp_all
  have e: "fst (pf ?F x) \<noteq> None \<longrightarrow> parser_run cs pf st x (?F @ rest) = parser_run cs pf st x ?F"
    using parser_run_raised [of cs pf st x ?F rest] b by simp
  have g: "pr_events (parser_run cs pf st x (mk_frame hdr' sub' payload' b0 b1 @ ?F)) =
              [ChecksumError, ParseFrame ?F]"
    if bad: "is_header hdr' \<and> length payload' \<le> 493 \<and> cs payload' \<noteq> (b0, b1)"
    for hdr' sub' payload' b0 b1
  proof -
    let ?B = "mk_frame hdr' sub' payload' b0 b1"
    let ?s1 = "after_frame st hdr' ?B (length payload')"
    have r1: "parser_run cs pf st x ?B = parser_ok ?s1 x [ChecksumError]"
      using bad assms(1) by (simp add: parser_run_frame)
    have "header_search ?s1"
      using bad assms(1) by (simp add: header_search_after_frame)
    from run [OF this] show ?thesis
      by (simp add: parser_run_append_eq [OF r1])
  qed
  show ?thesis
    using a b c d e g by blast
qed

text \<open>
  Witness: from start-up, the frame \<open>AF 20 06 0B 01 00 01 01 01\<close> is dispatched, also
  after the corrupted frame \<open>AF 20 05 01 01 00 01 01 02\<close>, and the parser goes on. The
  frame \<open>AF 20 06 0C 01 00 01 01 01\<close>, on which the sample \<^verbatim>\<open>parse_frame\<close> raises, is
  dispatched too, and the frame that follows it is not read.
\<close>

theorem parser_dispatches_frame_once_witness:
  "header_search parser_init \<and> is_header HEADER_06 \<and> length [1 :: byte] \<le> 493
   \<and> check_sum_sample [1] = (1, 1)
   \<and> pr_events (parser_run check_sum_sample parse_frame_sample parser_init 0
         (mk_frame HEADER_06 0x0B [1] 1 1)) = [ParseFrame [0xAF, 0x20, 0x06, 0x0B, 1, 0, 1, 1, 1]]
   \<and> pr_fault (parser_run check_sum_sample parse_frame_sample parser_init 0
         (mk_frame HEADER_06 0x0B [1] 1 1)) = None
   \<and> header_search (pr_state (parser_run check_sum_sample parse_frame_sample parser_init 0
         (mk_frame HEADER_06 0x0B [1] 1 1)))
   \<and> pr_events (parser_run check_sum_sample parse_frame_sample parser_init 0
         (mk_frame HEADER_05 0x01 [1] 1 2 @ mk_frame HEADER_06 0x0B [1] 1 1)) =
       [ChecksumError, ParseFrame [0xAF, 0x20, 0x06, 0x0B, 1, 0, 1, 1, 1]]
   \<and> parser_run check_sum_sample parse_frame_sample parser_init 0
         (mk_frame HEADER_06 0x0C [1] 1 1 @ mk_frame HEADER_06 0x0B [1] 1 1) =
       parser_run check_sum_sample parse_frame_sample parser_init 0 (mk_frame HEADER_06 0x0C [1] 1 1)
   \<and> pr_fault (parser_run check_sum_sample parse_frame_sample parser_init 0
         (mk_frame HEADER_06 0x0C [1] 1 1)) = Some StructError
   \<and> pr_events (parser_run check_sum_sample parse_frame_sample parser_init 0
         (mk_frame HEADER_06 0x0C [1] 1 1)) = [ParseFrame [0xAF, 0x20, 0x06, 0x0C, 1, 0, 1, 1, 1]]"
proof -
  have h: "is_header HEADER_06" "is_header HEADER_05" by (simp_all add: is_header_def)
  have f: "mk_frame HEADER_06 0x0B [1] 1 1 = [0xAF, 0x20, 0x06, 0x0B, 1, 0, 1, 1, 1]"
    "mk_frame HEADER_06 0x0C [1] 1 1 = [0xAF, 0x20, 0x06, 0x0C, 1, 0, 1, 1, 1]"
    by (simp_all add: mk_frame_def HEADER_06_def)
  have p: "parse_frame_sample [0xAF, 0x20, 0x06, 0x0B, 1, 0, 1, 1, 1] 0 = (None, 1)"
    "parse_frame_sample [0xAF, 0x20, 0x06, 0x0C, 1, 0, 1, 1, 1] 0 = (Some StructError, 0)"
    by (simp_all add: parse_frame_sample_def)
  have l: "length [1 :: byte] \<le> 493" by simp
  note t = parser_dispatches_frame_once [where st = parser_init and hdr = HEADER_06
      and payload = "[1]" and cs = check_sum_sample and pf = parse_frame_sample and x = 0,
      OF header_search_init h(1) l check_sum_sample_1]
  note t1 = t [where sub = "0x0B"]
  note t2 = t [where sub = "0x0C" and rest = "mk_frame HEADER_06 0x0B [1] 1 1"]
  have a: "pr_events (parser_run check_sum_sample parse_frame_sample parser_init 0
         (mk_frame HEADER_06 0x0B [1] 1 1)) = [ParseFrame [0xAF, 0x20, 0x06, 0x0B, 1, 0, 1, 1, 1]]"
    and a2: "pr_fault (parser_run check_sum_sample parse_frame_sample parser_init 0
         (mk_frame HEADER_06 0x0B [1] 1 1)) = None"
    and a3: "header_search (pr_state (parser_run check_sum_sample parse_frame_sample parser_init 0
         (mk_frame HEADER_06 0x0B [1] 1 1)))"
    using t1 by (simp_all add: f p)
  have b: "pr_events (parser_run check_sum_sample parse_frame_sample parser_init 0
           (mk_frame HEADER_05 0x01 [1] 1 2 @ mk_frame HEADER_06 0x0B [1] 1 1)) =
       [ChecksumError, ParseFrame [0xAF, 0x20, 0x06, 0x0B, 1, 0, 1, 1, 1]]"
    using t1 [THEN conjunct2, THEN conjunct2, THEN conjunct2, THEN conjunct2, THEN conjunct2,
        rule_format, of HEADER_05 "[1]" 1 2 "0x01"] h(2)
    by (simp add: check_sum_sample_1 f)
  have c: "parser_run check_sum_sample parse_frame_sample parser_init 0
         (mk_frame HEADER_06 0x0C [1] 1 1 @ mk_frame HEADER_06 0x0B [1] 1 1) =
       parser_run check_sum_sample parse_frame_sample parser_init 0 (mk_frame HEADER_06 0x0C [1] 1 1)"
    and c2: "pr_fault (parser_run check_sum_sample parse_frame_sample parser_init 0
         (mk_frame HEADER_06 0x0C [1] 1 1)) = Some StructError"
    and c3: "pr_events (parser_run check_sum_sample parse_frame_sample parser_init 0
         (mk_frame HEADER_06 0x0C [1] 1 1)) = [ParseFrame [0xAF, 0x20, 0x06, 0x0C, 1, 0, 1, 1, 1]]"
    using t2 by (simp_all add: f p)
  show ?thesis
    using a a2 a3 b c c2 c3 h(1) by (simp add: header_search_init check_sum_sample_1)
qed

text \<open>
  Counterexample to C1 as stated: the stream that consists of one well-formed frame with
  a payload of 494 zero bytes and the right checksum, read from start-up, is not
  dispatched at all. The frame is 502 bytes long and is abandoned at its 501st byte.
\<close>

theorem parser_valid_frame_not_dispatched:
  "check_sum_sample (replicate 494 0) = (0, 0)
   \<and> pr_events (parser_run check_sum_sample parse_frame_sample parser_init 0
           (mk_frame HEADER_05 0 (replicate 494 0) 0 0)) = []
   \<and> pr_fault (parser_run check_sum_sample parse_frame_sample parser_init 0
           (mk_frame HEADER_05 0 (replicate 494 0) 0 0)) = None"
proof -
  have h: "is_header HEADER_05" by (simp add: is_header_def)
  show ?thesis
    using parser_run_frame_502 [OF header_search_init h, where payload = "replicate 494 0"
        and cs = check_sum_sample and pf = parse_frame_sample and x = 0 and sub = 0
        and ?c0.0 = 0 and ?c1.0 = 0]
    by (simp add: check_sum_sample_zeros)
qed

subsection \<open>Claim C7: the 500-byte limit\<close>

text \<open>
  C7 (as amended). In every state the parser reaches from start-up the frame buffer holds
  at most 501 bytes. Whenever a byte taken while a frame is in progress leaves the
  captured payload length or the frame length above 500, the frame is abandoned without
  dispatch and without an exception, unless that byte completed it (a frame of exactly
  501 bytes with payload length 493, which is dispatched when its checksum matches).
  Whenever the step raises nothing (always when the frame is abandoned, and otherwise when
  \<^verbatim>\<open>parse_frame\<close> returns), the parser is searching for a header after that byte, and a
  well-formed frame of at most 493 payload bytes that follows is dispatched. In particular
  a header followed by a sub-id and a declared payload length above 500, such as 501,
  gives no dispatch and leaves the parser searching for a header.
\<close>

theorem parser_frame_limit:
  assumes reach: "st = pr_state (parser_run cs pf parser_init x0 ds)"
  shows "length (frame st) \<le> MAX_FRAME_LIMIT + 1
    \<and> (find_header st \<and>
         (captured_len st d > MAX_FRAME_LIMIT \<or> length (frame st @ [d]) > MAX_FRAME_LIMIT) \<longrightarrow>
           (pr_events (parser_step cs pf st x d) = [] \<and>
            pr_fault (parser_step cs pf st x d) = None \<or>
            length (frame st @ [d]) = MAX_FRAME_LIMIT + 1 \<and> payload_len st = 493) \<and>
           (pr_fault (parser_step cs pf st x d) = None \<longrightarrow>
              header_search (pr_state (parser_step cs pf st x d)) \<and>
              (\<forall>hdr sub payload c0 c1.
                 is_header hdr \<and> length payload \<le> 493 \<and> cs payload = (c0, c1) \<longrightarrow>
                 pr_events (parser_run cs pf (pr_state (parser_step cs pf st x d))
                              (pr_driver (parser_step cs pf st x d))
                              (mk_frame hdr sub payload c0 c1)) =
                   [ParseFrame (mk_frame hdr sub payload c0 c1)])))
    \<and> (\<not> find_header st \<and> is_header hdr \<and> 256 * unat hi + unat lo > MAX_FRAME_LIMIT \<longrightarrow>
           pr_events (parser_run cs pf st x (hdr @ [sub, lo, hi])) = [] \<and>
           pr_fault (parser_run cs pf st x (hdr @ [sub, lo, hi])) = None \<and>
           header_search (pr_state (parser_run cs pf st x (hdr @ [sub, lo, hi]))))"
proof (intro conjI)
  have inv: "parser_inv st"
    unfolding reach by (rule parser_inv_run [OF parser_inv_init])
  show "length (frame st) \<le> MAX_FRAME_LIMIT + 1"
    using inv by (simp add: parser_inv_def)
  let ?r = "parser_step cs pf st x d"
  show "find_header st \<and>
         (captured_len st d > MAX_FRAME_LIMIT \<or> length (frame st @ [d]) > MAX_FRAME_LIMIT) \<longrightarrow>
           (pr_events ?r = [] \<and> pr_fault ?r = None \<or>
            length (frame st @ [d]) = MAX_FRAME_LIMIT + 1 \<and> payload_len st = 493) \<and>
           (pr_fault ?r = None \<longrightarrow>
              header_search (pr_state ?r) \<and>
              (\<forall>hdr sub payload c0 c1.
                 is_header hdr \<and> length payload \<le> 493 \<and> cs payload = (c0, c1) \<longrightarrow>
                 pr_events (parser_run cs pf (pr_state ?r) (pr_driver ?r)
                              (mk_frame hdr sub payload c0 c1)) =
                   [ParseFrame (mk_frame hdr sub payload c0 c1)]))"
  proof (intro impI, elim conjE)
    assume fh: "find_header st"
      and ex: "captured_len st d > MAX_FRAME_LIMIT \<or> length (frame st @ [d]) > MAX_FRAME_LIMIT"
    have hs: "header_search (pr_state ?r)"
      using parser_inv_step [OF inv, of cs pf x d] parser_step_limit(1) [OF fh ex, of cs pf x]
      by (rule parser_inv_search)
    have ev: "pr_events ?r = [] \<and> pr_fault ?r = None \<or>
            length (frame st @ [d]) = MAX_FRAME_LIMIT + 1 \<and> payload_len st = 493"
      using parser_step_limit(2) [OF fh ex, of cs pf x] inv fh ex
      by (auto simp: parser_inv_def captured_len_def MAX_FRAME_LIMIT_def Let_def
            split: if_splits)
    have nx: "pr_events (parser_run cs pf (pr_state ?r) (pr_driver ?r)
                 (mk_frame hdr sub payload c0 c1)) = [ParseFrame (mk_frame hdr sub payload c0 c1)]"
      if "is_header hdr \<and> length payload \<le> 493 \<and> cs payload = (c0, c1)"
      for hdr sub payload c0 c1
      using that hs
      by (simp add: parser_run_frame Let_def split: prod.splits option.splits)
    show "(pr_events ?r = [] \<and> pr_fault ?r = None \<or>
            length (frame st @ [d]) = MAX_FRAME_LIMIT + 1 \<and> payload_len st = 493) \<and>
           (pr_fault ?r = None \<longrightarrow>
              header_search (pr_state ?r) \<and>
              (\<forall>hdr sub payload c0 c1.
                 is_header hdr \<and> length payload \<le> 493 \<and> cs payload = (c0, c1) \<longrightarrow>
                 pr_events (parser_run cs pf (pr_state ?r) (pr_driver ?r)
                              (mk_frame hdr sub payload c0 c1)) =
                   [ParseFrame (mk_frame hdr sub payload c0 c1)]))"
      using hs ev nx by blast
  qed
  show "\<not> find_header st \<and> is_header hdr \<and> 256 * unat hi + unat lo > MAX_FRAME_LIMIT \<longrightarrow>
           pr_events (parser_run cs pf st x (hdr @ [sub, lo, hi])) = [] \<and>
           pr_fault (parser_run cs pf st x (hdr @ [sub, lo, hi])) = None \<and>
           header_search (pr_state (parser_run cs pf st x (hdr @ [sub, lo, hi])))"
  proof (intro impI, elim conjE)
    assume nf: "\<not> find_header st" and hd: "is_header hdr"
      and n: "256 * unat hi + unat lo > MAX_FRAME_LIMIT"
    note hs = parser_inv_search [OF inv nf]
    show "pr_events (parser_run cs pf st x (hdr @ [sub, lo, hi])) = [] \<and>
           pr_fault (parser_run cs pf st x (hdr @ [sub, lo, hi])) = None \<and>
           header_search (pr_state (parser_run cs pf st x (hdr @ [sub, lo, hi])))"
      using parser_run_declared_too_long(2) [OF hs hd n, of cs pf x sub]
      by (simp add: parser_run_declared_too_long(1) [OF hs hd n])
  qed
qed


text \<open>
  Witness: after \<open>AF 20 05 00 F5\<close> the byte \<open>01\<close> captures the payload length 501; the frame
  is abandoned without an event, the following frame \<open>AF 20 06 0B 01 00 01 01 01\<close> is
  dispatched, and \<open>AF 20 07 00 F5 01\<close> read from start-up gives no event.
\<close>

theorem parser_frame_limit_witness:
  "find_header (pr_state (parser_run check_sum_sample parse_frame_sample parser_init 0
       (HEADER_05 @ [0, 0xF5])))
   \<and> captured_len (pr_state (parser_run check_sum_sample parse_frame_sample parser_init 0
       (HEADER_05 @ [0, 0xF5]))) 0x01 = 501
   \<and> pr_events (parser_step check_sum_sample parse_frame_sample
         (pr_state (parser_run check_sum_sample parse_frame_sample parser_init 0
            (HEADER_05 @ [0, 0xF5]))) 0 0x01) = []
   \<and> pr_fault (parser_step check_sum_sample parse_frame_sample
         (pr_state (parser_run check_sum_sample parse_frame_sample parser_init 0
            (HEADER_05 @ [0, 0xF5]))) 0 0x01) = None
   \<and> header_search (pr_state (parser_step check_sum_sample parse_frame_sample
         (pr_state (parser_run check_sum_sample parse_frame_sample parser_init 0
            (HEADER_05 @ [0, 0xF5]))) 0 0x01))
   \<and> pr_events (parser_run check_sum_sample parse_frame_sample
         (pr_state (parser_step check_sum_sample parse_frame_sample
            (pr_state (parser_run check_sum_sample parse_frame_sample parser_init 0
               (HEADER_05 @ [0, 0xF5]))) 0 0x01)) 0
         (mk_frame HEADER_06 0x0B [1] 1 1)) = [ParseFrame (mk_frame HEADER_06 0x0B [1] 1 1)]
   \<and> length (frame (pr_state (parser_run check_sum_sample parse_frame_sample parser_init 0
         (HEADER_05 @ [0, 0xF5])))) \<le> 501
   \<and> pr_events (parser_run check_sum_sample parse_frame_sample parser_init 0
         (HEADER_07 @ [0, 0xF5, 0x01])) = []"
proof -
  let ?st = "pr_state (parser_run check_sum_sample parse_frame_sample parser_init 0
       (HEADER_05 @ [0, 0xF5]))"
  let ?r = "parser_step check_sum_sample parse_frame_sample ?st 0 0x01"
  have st: "?st = \<lparr>sync_pattern = HEADER_05, find_header = True, frame = HEADER_05 @ [0, 0xF5],
     payload_len = 0\<rparr>"
    by (simp only: parser_run_5 parser_ok_simps)
  have fh: "find_header ?st" by (simp only: st) simp
  have cl: "captured_len ?st 0x01 = 501"
    by (simp only: st) (simp add: captured_len_def HEADER_05_def)
  have h: "is_header HEADER_06" "is_header HEADER_07" by (simp_all add: is_header_def)
  note t = parser_frame_limit [where cs = check_sum_sample and pf = parse_frame_sample
      and ?x0.0 = 0 and x = 0 and ds = "HEADER_05 @ [0, 0xF5]", OF refl]
  have ev: "pr_events ?r = []" and fl: "pr_fault ?r = None" and dr: "pr_driver ?r = 0"
    by (simp_all only: st)
       (simp_all add: parser_step_def parser_frame_byte_def limit_check_def HEADER_05_def
          PAYLOAD_LEN_IDX_def MAX_FRAME_LIMIT_def Let_def)
  from t [of "0x01", THEN conjunct2, THEN conjunct1] fh cl fl
  have b: "header_search (pr_state ?r)"
    and c: "\<forall>hdr sub payload c0 c1.
              is_header hdr \<and> length payload \<le> 493 \<and> check_sum_sample payload = (c0, c1) \<longrightarrow>
              pr_events (parser_run check_sum_sample parse_frame_sample (pr_state ?r)
                     (pr_driver ?r) (mk_frame hdr sub payload c0 c1)) =
                [ParseFrame (mk_frame hdr sub payload c0 c1)]"
    by (simp_all add: MAX_FRAME_LIMIT_def)
  have c': "pr_events (parser_run check_sum_sample parse_frame_sample (pr_state ?r) 0
                     (mk_frame HEADER_06 0x0B [1] 1 1)) =
                [ParseFrame (mk_frame HEADER_06 0x0B [1] 1 1)]"
    using c [rule_format, of HEADER_06 "[1]" 1 1 "0x0B"] h(1)
    by (simp add: check_sum_sample_1 dr)
  have d: "length (frame ?st) \<le> 501"
    using t [THEN conjunct1] by (simp add: MAX_FRAME_LIMIT_def)
  have e: "pr_events (parser_run check_sum_sample parse_frame_sample parser_init 0
         (HEADER_07 @ [0, 0xF5, 0x01])) = []"
    using parser_frame_limit [where cs = check_sum_sample and pf = parse_frame_sample
        and ?x0.0 = 0 and x = 0 and ds = "[]" and hdr = HEADER_07
        and hi = "0x01" and lo = "0xF5" and sub = 0, OF refl, THEN conjunct2, THEN conjunct2] h(2)
    by (simp add: parser_init_def MAX_FRAME_LIMIT_def)
  show ?thesis using fh cl ev fl b c' d e by simp
qed

text \<open>
  Counterexample to C7 as stated: a well-formed frame of 501 bytes (payload of 493 zero
  bytes) read from start-up is dispatched, although its length exceeds 500 bytes on its
  last byte.
\<close>

theorem parser_dispatches_501_byte_frame:
  "length (mk_frame HEADER_05 0 (replicate 493 0) 0 0) = 501
   \<and> pr_events (parser_run check_sum_sample parse_frame_sample parser_init 0
           (mk_frame HEADER_05 0 (replicate 493 0) 0 0)) =
       [ParseFrame (mk_frame HEADER_05 0 (replicate 493 0) 0 0)]"
proof -
  have h: "is_header HEADER_05" by (simp add: is_header_def)
  have p: "fst (parse_frame_sample (mk_frame HEADER_05 0 (replicate 493 0) 0 0) 0) = None"
    by (simp add: parse_frame_sample_def mk_frame_def HEADER_05_def)
  have l: "length (mk_frame HEADER_05 0 (replicate 493 0) 0 0) = 501"
    by (simp add: mk_frame_def HEADER_05_def)
  have "pr_events (parser_run check_sum_sample parse_frame_sample parser_init 0
           (mk_frame HEADER_05 0 (replicate 493 0) 0 0)) =
       [ParseFrame (mk_frame HEADER_05 0 (replicate 493 0) 0 0)]"
    using parser_run_frame [OF header_search_init h, where payload = "replicate 493 0"
        and cs = check_sum_sample and pf = parse_frame_sample and x = 0 and sub = 0
        and ?c0.0 = 0 and ?c1.0 = 0] p
    by (simp add: check_sum_sample_zeros Let_def split: prod.splits option.splits)
  then show ?thesis using l by simp
qed
section \<open>Properties of the user-configuration codec\<close>

lemma byte_of_nat_mod: "(of_nat (n mod 256) :: byte) = of_nat n"
  by (simp add: word_of_nat_eq_iff take_bit_eq_mod)

lemma le_bytes_2: "le_bytes 2 (int n) = [of_nat (n mod 256), of_nat (n div 256)]"
proof -
  have "[0..<2] = [0, 1]" by (simp add: upt_rec)
  moreover have "(of_int (int n div 256) :: byte) = of_nat (n div 256)"
  proof -
    have "int n div 256 = int (n div 256)" by simp
    then have "(of_int (int n div 256) :: byte) = of_int (int (n div 256))" by (simp only:)
    then show ?thesis by (simp only: of_int_of_nat_eq)
  qed
  ultimately show ?thesis by (simp add: le_bytes_def byte_of_nat_mod)
qed

lemma upt_8: "[0..<8] = [0, 1, 2, 3, 4, 5, 6, 7]"
  by (simp add: upt_rec)

lemma upt_4: "[0..<4] = [0, 1, 2, 3]"
  by (simp add: upt_rec)

lemma le_bytes_one: "le_bytes 8 0x3FF0000000000000 = [0, 0, 0, 0, 0, 0, 0xF0, 0x3F]"
  by (simp add: le_bytes_def upt_8)

lemma le_bytes_zero: "le_bytes k 0 = replicate k 0"
  by (simp add: le_bytes_def map_replicate_const)

lemma le_bytes_ten: "le_bytes 4 10 = [10, 0, 0, 0]"
  by (simp add: le_bytes_def upt_4)

text \<open>
  The command \<^verbatim>\<open>pack_msg_060D\<close> leaves in \<^verbatim>\<open>msg_060D_cmd\<close> is a frame with header \<open>AF 20 06\<close>,
  sub-id \<open>0D\<close>, the little-endian length and the payload, and its trailer is
  \<open>check_sum(payload)\<close> with the two bytes in reverse order.
\<close>

lemma pack_msg_060D_cmd:
  assumes "pack_msg_060D cs s = Inr s'"
  obtains payload where "pack_msg_060D_payload s = Inr payload" "length payload < 65536"
    "msg_060D_cmd s' =
       mk_frame HEADER_06 0x0D payload (snd (cs payload)) (fst (cs payload))"
    "flags s' = pack_msg_060D_flags s"
proof -
  from assms obtain payload where p: "pack_msg_060D_payload s = Inr payload"
    by (auto simp: pack_msg_060D_def split: sum.splits)
  from assms p have l: "length payload < 65536"
    by (auto simp: pack_msg_060D_def Let_def to_bytes_2_def split: sum.splits if_splits)
  from assms p l have
    "msg_060D_cmd s' = mk_frame HEADER_06 0x0D payload (snd (cs payload)) (fst (cs payload))"
    "flags s' = pack_msg_060D_flags s"
    by (auto simp: pack_msg_060D_def Let_def to_bytes_2_def le_bytes_2 mk_frame_def
          FRAME_HEADER_def HEADER_06_def PAYLOAD_LEN_IDX_def split: sum.splits)
  with p l show ?thesis by (rule that)
qed

text \<open>
  Read back by the parser, the command passes the checksum validation exactly when the
  two checksum bytes of its payload are equal; otherwise it is discarded with a checksum
  error and \<^verbatim>\<open>parse_frame\<close> is not called.
\<close>

lemma pack_msg_060D_reingest:
  assumes "pack_msg_060D cs s = Inr s'" "pack_msg_060D_payload s = Inr payload"
    "length payload \<le> 493" "header_search st"
  shows "msg_060D_cmd s' = mk_frame HEADER_06 0x0D payload (snd (cs payload)) (fst (cs payload))"
    and "pr_events (parser_run cs pf st x (msg_060D_cmd s')) =
          (if fst (cs payload) = snd (cs payload) then [ParseFrame (msg_060D_cmd s')]
           else [ChecksumError])"
    and "fst (cs payload) \<noteq> snd (cs payload) \<Longrightarrow>
         pr_fault (parser_run cs pf st x (msg_060D_cmd s')) = None \<and>
         pr_driver (parser_run cs pf st x (msg_060D_cmd s')) = x"
proof -
  show c: "msg_060D_cmd s' = mk_frame HEADER_06 0x0D payload (snd (cs payload)) (fst (cs payload))"
    using assms(1,2) by (auto elim!: pack_msg_060D_cmd)
  have h: "is_header HEADER_06" by (simp add: is_header_def)
  have e: "cs payload = (snd (cs payload), fst (cs payload)) \<longleftrightarrow> fst (cs payload) = snd (cs payload)"
    by (metis fst_conv snd_conv prod.collapse)
  note r = parser_run_frame [OF assms(4) h assms(3), of cs pf x "0x0D" "snd (cs payload)"
      "fst (cs payload)"]
  show "pr_events (parser_run cs pf st x (msg_060D_cmd s')) =
          (if fst (cs payload) = snd (cs payload) then [ParseFrame (msg_060D_cmd s')]
           else [ChecksumError])"
    unfolding c r by (simp add: e Let_def split: prod.splits option.splits)
  show "pr_fault (parser_run cs pf st x (msg_060D_cmd s')) = None \<and>
         pr_driver (parser_run cs pf st x (msg_060D_cmd s')) = x"
    if "fst (cs payload) \<noteq> snd (cs payload)"
    unfolding c r using that by (simp add: e Let_def)
qed

lemma sample_payload:
  "pack_msg_060D_payload user_configuration_sample =
     Inr ([0x0A, 1, 0, 0, 0] @ replicate 2 0 @ replicate 2 0
          @ [0, 0, 0, 0, 0, 0, 0xF0, 0x3F] @ replicate 8 0 @ replicate 8 0 @ replicate 8 0
          @ [0, 0, 0, 0, 0, 0, 0xF0, 0x3F] @ replicate 8 0 @ replicate 8 0 @ replicate 8 0
          @ [0, 0, 0, 0, 0, 0, 0xF0, 0x3F]
          @ replicate 4 0 @ replicate 4 0 @ replicate 4 0
          @ [10, 0, 0, 0] @ replicate 4 0 @ replicate 4 0)"
  by (simp add: pack_msg_060D_payload_def user_configuration_sample_def bytearray_append_def
        pack_msg_060D_flags_def MASK_FLAGS_LEVERARM_FROM_IMU_CENTER_def to_bytes_2_def
        struct_pack_d_def struct_pack_ints_def le_bytes_one le_bytes_zero le_bytes_ten)

lemma sample_payload_eq:
  "pack_msg_060D_payload user_configuration_sample = Inr sample_payload_bytes"
  by (simp add: sample_payload sample_payload_bytes_def numeral_eq_Suc)

lemma sample_payload_check_sum: "check_sum_sample sample_payload_bytes = (162, 47)"
  by (simp add: check_sum_sample_def sample_payload_bytes_def)

lemma sample_payload_length: "length sample_payload_bytes = 105"
  by (simp add: sample_payload_bytes_def)

subsection \<open>Claim C3: the trailer of the encoded command\<close>

text \<open>
  C3 says that the trailer of the command is \<open>check_sum(payload)\<close> as an ordered pair, in
  the order the parser validates, so that the command read back by the parser passes.
  The code appends \<^verbatim>\<open>result[1]\<close> before \<^verbatim>\<open>result[0]\<close>. Evaluated on the sample state with the
  sample checksum: the payload has 105 bytes and checksum \<open>(162, 47)\<close>, the command ends
  with \<open>47, 162\<close>, and the parser, reading the command from start-up, reports a checksum
  error instead of dispatching it.
\<close>

theorem pack_msg_060D_trailer_reversed:
  "\<exists>s'. pack_msg_060D check_sum_sample user_configuration_sample = Inr s'
      \<and> check_sum_sample sample_payload_bytes = (162, 47)
      \<and> msg_060D_cmd s' = [0xAF, 0x20, 0x06, 0x0D, 105, 0] @ sample_payload_bytes @ [47, 162]
      \<and> pr_events (parser_run check_sum_sample parse_frame_sample parser_init 0
            (msg_060D_cmd s')) = [ChecksumError]
      \<and> pr_fault (parser_run check_sum_sample parse_frame_sample parser_init 0
            (msg_060D_cmd s')) = None
      \<and> pr_driver (parser_run check_sum_sample parse_frame_sample parser_init 0
            (msg_060D_cmd s')) = 0"
proof -
  obtain s' where s': "pack_msg_060D check_sum_sample user_configuration_sample = Inr s'"
    by (simp add: pack_msg_060D_def sample_payload_eq sample_payload_length to_bytes_2_def
          Let_def FRAME_HEADER_def)
  have l: "length sample_payload_bytes \<le> 493" by (simp add: sample_payload_length)
  note r = pack_msg_060D_reingest [OF s' sample_payload_eq l header_search_init]
  have "msg_060D_cmd s' = [0xAF, 0x20, 0x06, 0x0D, 105, 0] @ sample_payload_bytes @ [47, 162]"
    using r(1) by (simp add: mk_frame_def HEADER_06_def sample_payload_length
        sample_payload_check_sum)
  moreover have "pr_events (parser_run check_sum_sample parse_frame_sample parser_init 0
            (msg_060D_cmd s')) = [ChecksumError]"
    using r(2) [where pf = parse_frame_sample and x = 0]
    by (simp add: sample_payload_check_sum)
  moreover have "pr_fault (parser_run check_sum_sample parse_frame_sample parser_init 0
            (msg_060D_cmd s')) = None
      \<and> pr_driver (parser_run check_sum_sample parse_frame_sample parser_init 0
            (msg_060D_cmd s')) = 0"
    using r(3) [where pf = parse_frame_sample and x = 0]
    by (simp add: sample_payload_check_sum)
  ultimately show ?thesis using s' sample_payload_check_sum by blast
qed

subsection \<open>Claim C4: shape validation in the setters\<close>

lemma append_housing_mark_fault:
  "fst (append_housing_mark ans s) = None \<or> fst (append_housing_mark ans s) = Some IndexError"
  by (induction ans arbitrary: s) (auto split: option.splits)

lemma append_center_fault:
  "fst (append_center ans s) = None \<or> fst (append_center ans s) = Some IndexError"
  by (induction ans arbitrary: s) (auto split: option.splits)

lemma seq_list_Inl: "seq_list rs = Inl e \<Longrightarrow> Inl e \<in> set rs"
proof (induction rs)
  case Nil
  then show ?case by simp
next
  case (Cons r rs)
  then show ?case by (cases r) (auto split: sum.splits)
qed

text \<open>A conversion fault of the first loop is the fault of one of the supplied numbers.\<close>

lemma scale_lever_arms_Inl:
  assumes "scale_lever_arms raw_of n la = Inl e" "int (length la) = n"
  shows "\<exists>row\<in>set la. \<exists>p\<in>set row. raw_of p = Inl e"
proof -
  from seq_list_Inl [OF assms(1) [unfolded scale_lever_arms_def]]
  obtain an where an: "an < nat n" and r: "seq_list (map raw_of (la ! an)) = Inl e"
    by (auto simp: py_range_def)
  from seq_list_Inl [OF r] obtain p where p: "p \<in> set (la ! an)" "raw_of p = Inl e"
    by auto
  from an assms(2) have "la ! an \<in> set la" by simp
  with p show ?thesis by blast
qed

lemma set_center_rejected:
  "size_wrong s la \<Longrightarrow> set_GNSS_lever_arm_center raw_of s la = (Some size_error, s)"
  by (auto simp: size_wrong_def set_GNSS_lever_arm_center_def split: list.splits)

lemma set_housing_rejected:
  "size_wrong s la \<Longrightarrow> set_GNSS_lever_arm_housing_mark raw_of s la = (Some size_error, s)"
  by (auto simp: size_wrong_def set_GNSS_lever_arm_housing_mark_def split: list.splits)

lemma set_center_accepted:
  assumes "\<not> size_wrong s la" "fst (set_GNSS_lever_arm_center raw_of s la) = Some e"
  shows "e = IndexError \<or>
         snd (set_GNSS_lever_arm_center raw_of s la) = s \<and>
         (\<exists>row\<in>set la. \<exists>p\<in>set row. raw_of p = Inl e)"
proof (cases la)
  case Nil
  with assms show ?thesis
    by (simp add: size_wrong_def set_GNSS_lever_arm_center_def)
next
  case (Cons la0 rest)
  with assms(1) have n: "int (length la) = antenna_num s" and l: "length la0 = 3"
    by (simp_all add: size_wrong_def)
  show ?thesis
  proof (cases "scale_lever_arms raw_of (antenna_num s) la")
    case (Inl e')
    with assms(2) n l Cons have "e' = e" "snd (set_GNSS_lever_arm_center raw_of s la) = s"
      by (simp_all add: set_GNSS_lever_arm_center_def)
    with scale_lever_arms_Inl [OF Inl n] show ?thesis by simp
  next
    case (Inr c)
    with assms(2) n l Cons
      append_housing_mark_fault [of "py_range (antenna_num s)"
        "s\<lparr>GNSS_lever_arm_center := c, GNSS_lever_arm_housing_mark := []\<rparr>"]
    show ?thesis by (simp add: set_GNSS_lever_arm_center_def)
  qed
qed

lemma set_housing_accepted:
  assumes "\<not> size_wrong s la" "fst (set_GNSS_lever_arm_housing_mark raw_of s la) = Some e"
  shows "e = IndexError \<or>
         snd (set_GNSS_lever_arm_housing_mark raw_of s la) = s \<and>
         (\<exists>row\<in>set la. \<exists>p\<in>set row. raw_of p = Inl e)"
proof (cases la)
  case Nil
  with assms show ?thesis
    by (simp add: size_wrong_def set_GNSS_lever_arm_housing_mark_def)
next
  case (Cons la0 rest)
  with assms(1) have n: "int (length la) = antenna_num s" and l: "length la0 = 3"
    by (simp_all add: size_wrong_def)
  show ?thesis
  proof (cases "scale_lever_arms raw_of (antenna_num s) la")
    case (Inl e')
    with assms(2) n l Cons have "e' = e" "snd (set_GNSS_lever_arm_housing_mark raw_of s la) = s"
      by (simp_all add: set_GNSS_lever_arm_housing_mark_def)
    with scale_lever_arms_Inl [OF Inl n] show ?thesis by simp
  next
    case (Inr c)
    with assms(2) n l Cons
      append_center_fault [of "py_range (antenna_num s)"
        "s\<lparr>GNSS_lever_arm_housing_mark := c, GNSS_lever_arm_center := []\<rparr>"]
    show ?thesis by (simp add: set_GNSS_lever_arm_housing_mark_def)
  qed
qed

text \<open>
  C4 (as amended). \<^verbatim>\<open>set_imu_rotation_matrix(m)\<close> fails exactly when \<open>m\<close> does not have 9
  elements, with its size fault, and then leaves the state unchanged. Whenever the list
  given to \<^verbatim>\<open>set_GNSS_lever_arm_center\<close> or \<^verbatim>\<open>set_GNSS_lever_arm_housing_mark\<close> does not have
  \<^verbatim>\<open>antenna_num\<close> entries, or its first entry does not have 3 components (only the first
  entry is examined), the setter raises its size fault and leaves the state unchanged. A
  list that passes this check can still make the setter fail: with the exception that
  \<^verbatim>\<open>int(p / SCALING_LEVER_ARM)\<close> raises on one of its numbers, the state unchanged, or with
  \<^verbatim>\<open>IndexError\<close>. The size fault is raised for no other list, unless the conversion of a
  number raises that very fault.
\<close>

theorem setters_validate_size:
  "(fst (set_imu_rotation_matrix s m) \<noteq> None \<longleftrightarrow> length m \<noteq> 9)
   \<and> (length m \<noteq> 9 \<longrightarrow>
        set_imu_rotation_matrix s m =
          (Some (ValueError ''Size of IMU Rotation Matrix is incorrect!''), s))
   \<and> (size_wrong s la \<longrightarrow>
        set_GNSS_lever_arm_center raw_of s la = (Some size_error, s) \<and>
        set_GNSS_lever_arm_housing_mark raw_of s la = (Some size_error, s))
   \<and> (\<not> size_wrong s la \<and> fst (set_GNSS_lever_arm_center raw_of s la) = Some e \<longrightarrow>
        e = IndexError \<or>
        snd (set_GNSS_lever_arm_center raw_of s la) = s \<and>
        (\<exists>row\<in>set la. \<exists>p\<in>set row. raw_of p = Inl e))
   \<and> (\<not> size_wrong s la \<and> fst (set_GNSS_lever_arm_housing_mark raw_of s la) = Some e \<longrightarrow>
        e = IndexError \<or>
        snd (set_GNSS_lever_arm_housing_mark raw_of s la) = s \<and>
        (\<exists>row\<in>set la. \<exists>p\<in>set row. raw_of p = Inl e))
   \<and> ((\<forall>row\<in>set la. \<forall>p\<in>set row. raw_of p \<noteq> Inl size_error) \<longrightarrow>
        (fst (set_GNSS_lever_arm_center raw_of s la) = Some size_error \<longleftrightarrow> size_wrong s la) \<and>
        (fst (set_GNSS_lever_arm_housing_mark raw_of s la) = Some size_error \<longleftrightarrow>
           size_wrong s la))"
proof (intro conjI impI)
  show "fst (set_imu_rotation_matrix s m) \<noteq> None \<longleftrightarrow> length m \<noteq> 9"
    by (simp add: set_imu_rotation_matrix_def)
  show "set_imu_rotation_matrix s m =
          (Some (ValueError ''Size of IMU Rotation Matrix is incorrect!''), s)"
    if "length m \<noteq> 9"
    using that by (simp add: set_imu_rotation_matrix_def)
  show "set_GNSS_lever_arm_center raw_of s la = (Some size_error, s)" if "size_wrong s la"
    using that by (rule set_center_rejected)
  show "set_GNSS_lever_arm_housing_mark raw_of s la = (Some size_error, s)" if "size_wrong s la"
    using that by (rule set_housing_rejected)
  show "e = IndexError \<or>
        snd (set_GNSS_lever_arm_center raw_of s la) = s \<and>
        (\<exists>row\<in>set la. \<exists>p\<in>set row. raw_of p = Inl e)"
    if "\<not> size_wrong s la \<and> fst (set_GNSS_lever_arm_center raw_of s la) = Some e"
    using that set_center_accepted [of s la raw_of e] by blast
  show "e = IndexError \<or>
        snd (set_GNSS_lever_arm_housing_mark raw_of s la) = s \<and>
        (\<exists>row\<in>set la. \<exists>p\<in>set row. raw_of p = Inl e)"
    if "\<not> size_wrong s la \<and> fst (set_GNSS_lever_arm_housing_mark raw_of s la) = Some e"
    using that set_housing_accepted [of s la raw_of e] by blast
  have ne: "size_error \<noteq> IndexError" by (simp add: size_error_def)
  show "fst (set_GNSS_lever_arm_center raw_of s la) = Some size_error \<longleftrightarrow> size_wrong s la"
    if "\<forall>row\<in>set la. \<forall>p\<in>set row. raw_of p \<noteq> Inl size_error"
    using that ne set_center_accepted [of s la raw_of size_error]
      set_center_rejected [of s la raw_of]
    by (cases "size_wrong s la") auto
  show "fst (set_GNSS_lever_arm_housing_mark raw_of s la) = Some size_error \<longleftrightarrow> size_wrong s la"
    if "\<forall>row\<in>set la. \<forall>p\<in>set row. raw_of p \<noteq> Inl size_error"
    using that ne set_housing_accepted [of s la raw_of size_error]
      set_housing_rejected [of s la raw_of]
    by (cases "size_wrong s la") auto
qed

text \<open>
  Witness: a matrix of 8 elements, a center list whose only entry has 2 components, and a
  housing-mark list of 2 entries for 1 antenna are rejected with the size fault, the
  state unchanged; the well-shaped list \<open>[[nan, 0, 0]]\<close> is rejected with the
  \<^verbatim>\<open>ValueError\<close> of the conversion, the state unchanged.
\<close>

theorem setters_validate_size_witness:
  "length (replicate 8 (0 :: 64 word)) \<noteq> 9
   \<and> set_imu_rotation_matrix user_configuration_sample (replicate 8 0) =
       (Some (ValueError ''Size of IMU Rotation Matrix is incorrect!''), user_configuration_sample)
   \<and> size_wrong user_configuration_sample [[Whole 0, Whole 0]]
   \<and> set_GNSS_lever_arm_center raw_number_sample user_configuration_sample
        [[Whole 0, Whole 0]] = (Some size_error, user_configuration_sample)
   \<and> size_wrong user_configuration_sample [[Whole 0, Whole 0, Whole 0], [Whole 0, Whole 0, Whole 0]]
   \<and> set_GNSS_lever_arm_housing_mark raw_number_sample user_configuration_sample
        [[Whole 0, Whole 0, Whole 0], [Whole 0, Whole 0, Whole 0]] =
       (Some size_error, user_configuration_sample)
   \<and> \<not> size_wrong user_configuration_sample [[Not_a_number, Whole 0, Whole 0]]
   \<and> fst (set_GNSS_lever_arm_center raw_number_sample user_configuration_sample
        [[Not_a_number, Whole 0, Whole 0]]) =
       Some (ValueError ''cannot convert float NaN to integer'')
   \<and> snd (set_GNSS_lever_arm_center raw_number_sample user_configuration_sample
        [[Not_a_number, Whole 0, Whole 0]]) = user_configuration_sample"
proof -
  note t = setters_validate_size [where s = user_configuration_sample and m = "replicate 8 0"
      and raw_of = raw_number_sample]
  have a: "set_imu_rotation_matrix user_configuration_sample (replicate 8 0) =
       (Some (ValueError ''Size of IMU Rotation Matrix is incorrect!''), user_configuration_sample)"
    using t [of "[]", THEN conjunct2, THEN conjunct1] by simp
  have w: "size_wrong user_configuration_sample [[Whole 0, Whole 0]]"
    "size_wrong user_configuration_sample [[Whole 0, Whole 0, Whole 0], [Whole 0, Whole 0, Whole 0]]"
    "\<not> size_wrong user_configuration_sample [[Not_a_number, Whole 0, Whole 0]]"
    by (simp_all add: size_wrong_def user_configuration_sample_def)
  have b: "set_GNSS_lever_arm_center raw_number_sample user_configuration_sample
        [[Whole 0, Whole 0]] = (Some size_error, user_configuration_sample)"
    using t [of "[[Whole 0, Whole 0]]", THEN conjunct2, THEN conjunct2, THEN conjunct1] w(1)
    by simp
  have c: "set_GNSS_lever_arm_housing_mark raw_number_sample user_configuration_sample
        [[Whole 0, Whole 0, Whole 0], [Whole 0, Whole 0, Whole 0]] =
       (Some size_error, user_configuration_sample)"
    using t [of "[[Whole 0, Whole 0, Whole 0], [Whole 0, Whole 0, Whole 0]]",
        THEN conjunct2, THEN conjunct2, THEN conjunct1] w(2)
    by simp
  have d: "fst (set_GNSS_lever_arm_center raw_number_sample user_configuration_sample
        [[Not_a_number, Whole 0, Whole 0]]) =
       Some (ValueError ''cannot convert float NaN to integer'')"
    by (simp add: set_GNSS_lever_arm_center_def user_configuration_sample_def
          scale_lever_arms_def py_range_def raw_number_sample_def)
  have e: "snd (set_GNSS_lever_arm_center raw_number_sample user_configuration_sample
        [[Not_a_number, Whole 0, Whole 0]]) = user_configuration_sample"
    using t [of "[[Not_a_number, Whole 0, Whole 0]]"
        "ValueError ''cannot convert float NaN to integer''",
        THEN conjunct2, THEN conjunct2, THEN conjunct2, THEN conjunct1] w(3) d
    by simp
  show ?thesis using a b c d e w by simp
qed

text \<open>
  Counterexample to C4 as stated. With one antenna and no internal lever arm yet, the
  well-shaped list \<open>[[0, 0, 0]]\<close> makes \<^verbatim>\<open>set_GNSS_lever_arm_center\<close> fail with an index
  fault after it has replaced the stored center \<open>[[10, 0, 0]]\<close> and emptied the
  housing-mark list. With two antennas the list \<open>[[0, 0, 0], [0, 0, 0, 0]]\<close>, whose second
  entry has 4 components, is accepted.
\<close>

theorem setter_fault_after_mutation:
  "set_GNSS_lever_arm_center raw_units_sample user_configuration_sample [[0, 0, 0]] =
     (Some IndexError,
      user_configuration_sample\<lparr>GNSS_lever_arm_center := [[0, 0, 0]],
                                GNSS_lever_arm_housing_mark := []\<rparr>)
   \<and> GNSS_lever_arm_center user_configuration_sample = [[10, 0, 0]]
   \<and> antenna_num two_antenna_sample = 2
   \<and> set_GNSS_lever_arm_center raw_units_sample two_antenna_sample [[0, 0, 0], [0, 0, 0, 0]] =
     (None,
      two_antenna_sample\<lparr>GNSS_lever_arm_center := [[0, 0, 0], [0, 0, 0, 0]],
                         GNSS_lever_arm_housing_mark := [[0, 0, 0], [0, 0, 0]]\<rparr>)"
  by (simp add: set_GNSS_lever_arm_center_def user_configuration_sample_def two_antenna_sample_def
        scale_lever_arms_def py_range_def raw_units_sample_def lever_arm_row_def upt_rec
        numeral_2_eq_2 numeral_3_eq_3)

subsection \<open>Claim C5: the lever-arm invariant\<close>

text \<open>
  C5 says that every lever-arm operation preserves \<open>center = housing mark + internal\<close>.
  \<^verbatim>\<open>update_GNSS_lever_arm_by_internal_lever_arm\<close> appends to the list it back-fills without
  emptying it first. Evaluated on a state that satisfies the invariant (center
  \<open>[[10, 0, 0]]\<close>, housing mark \<open>[[7, 0, 0]]\<close>, internal \<open>[3, 0, 0]\<close>) with the new internal
  lever arm \<open>[0, 0, 0]\<close>: the call returns normally, the housing-mark list becomes
  \<open>[[7, 0, 0], [10, 0, 0]]\<close>, and for antenna 0 the center \<open>10\<close> is no longer the housing
  mark \<open>7\<close> plus the internal \<open>0\<close>.
\<close>

theorem update_breaks_lever_arm_invariant:
  "lever_arm_invariant consistent_sample
   \<and> update_GNSS_lever_arm_by_internal_lever_arm raw_units_sample consistent_sample [0, 0, 0] =
       (None, consistent_sample\<lparr>internal_lever_arm := [0, 0, 0],
                GNSS_lever_arm_housing_mark := [[7, 0, 0], [10, 0, 0]]\<rparr>)
   \<and> \<not> lever_arm_invariant
         (snd (update_GNSS_lever_arm_by_internal_lever_arm raw_units_sample consistent_sample
                 [0, 0, 0]))"
  by (simp add: update_GNSS_lever_arm_by_internal_lever_arm_def consistent_sample_def
        user_configuration_sample_def lever_arm_invariant_def
        py_range_def raw_units_sample_def lever_arm_row_def upt_rec
        numeral_2_eq_2 numeral_3_eq_3)

subsection \<open>Claim C10: the guard of the housing-mark getter\<close>

text \<open>
  C10. When the stored housing-mark list is empty, \<^verbatim>\<open>get_GNSS_lever_arm_housing_mark\<close>
  returns the empty list, whatever \<^verbatim>\<open>antenna_num\<close> is. \<^verbatim>\<open>get_GNSS_lever_arm_center\<close> has no
  such guard: with an empty center list and \<^verbatim>\<open>antenna_num > 0\<close> it raises \<^verbatim>\<open>IndexError\<close>.
\<close>

theorem housing_mark_getter_guarded:
  "(GNSS_lever_arm_housing_mark s = [] \<longrightarrow> get_GNSS_lever_arm_housing_mark scale s = Inr [])
   \<and> (GNSS_lever_arm_center s = [] \<and> antenna_num s > 0 \<longrightarrow>
        get_GNSS_lever_arm_center scale s = Inl IndexError)"
proof (intro conjI impI)
  show "get_GNSS_lever_arm_housing_mark scale s = Inr []"
    if "GNSS_lever_arm_housing_mark s = []"
    using that by (simp add: get_GNSS_lever_arm_housing_mark_def)
  show "get_GNSS_lever_arm_center scale s = Inl IndexError"
    if "GNSS_lever_arm_center s = [] \<and> antenna_num s > 0"
  proof -
    from that obtain k where "nat (antenna_num s) = Suc k"
      by (cases "nat (antenna_num s)") auto
    then show ?thesis
      using that
      by (simp add: get_GNSS_lever_arm_center_def scaled_rows_def py_range_def upt_rec)
  qed
qed

text \<open>
  Witness: the sample state has one antenna and an empty housing-mark list; the same
  state with the center list emptied makes the center getter raise.
\<close>

theorem housing_mark_getter_guarded_witness:
  "GNSS_lever_arm_housing_mark user_configuration_sample = []
   \<and> get_GNSS_lever_arm_housing_mark (\<lambda>p. p) user_configuration_sample = Inr []
   \<and> GNSS_lever_arm_center (user_configuration_sample\<lparr>GNSS_lever_arm_center := []\<rparr>) = []
   \<and> antenna_num (user_configuration_sample\<lparr>GNSS_lever_arm_center := []\<rparr>) > 0
   \<and> get_GNSS_lever_arm_center (\<lambda>p. p) (user_configuration_sample\<lparr>GNSS_lever_arm_center := []\<rparr>)
       = Inl IndexError"
  using housing_mark_getter_guarded [of user_configuration_sample "\<lambda>p. p"]
    housing_mark_getter_guarded [of "user_configuration_sample\<lparr>GNSS_lever_arm_center := []\<rparr>"
      "\<lambda>p. p"]
  by (simp add: user_configuration_sample_def)

section \<open>Properties of the fixed-shape decode\<close>

lemma fixed_type_not_string: "fixed_type t \<Longrightarrow> t \<noteq> ''string''"
  unfolding fixed_type_def by (elim disjE) simp_all

lemma code_size_type_code: "fixed_type t \<Longrightarrow> code_size (type_code t) = Some (type_width t)"
  unfolding fixed_type_def
  by (elim disjE) (simp_all add: code_size_def type_code_def type_width_def)

lemma code_value_type_code:
  "fixed_type t \<Longrightarrow> code_value fc (type_code t) bs = typed_value fc t bs"
  unfolding fixed_type_def
  by (elim disjE) (simp_all add: code_value_def type_code_def typed_value_def)

text \<open>On fixed types the loop appends one code per field and adds up the widths.\<close>

lemma unpack_fmt_loop_fixed:
  "list_all (\<lambda>v. fixed_type (fld_type v)) flds \<Longrightarrow>
   unpack_fmt_loop flds pack_fmt len =
     Inr (pack_fmt @ map (\<lambda>v. type_code (fld_type v)) flds, len + payload_width flds)"
proof (induction flds arbitrary: pack_fmt len)
  case Nil
  then show ?case by (simp add: payload_width_def)
next
  case (Cons v vs)
  then have ft: "fixed_type (fld_type v)" and rest: "list_all (\<lambda>v. fixed_type (fld_type v)) vs"
    by simp_all
  note ih = Cons.IH [OF rest]
  from ft show ?case
    unfolding fixed_type_def
    by (elim disjE) (simp_all add: ih type_code_def type_width_def payload_width_def)
qed

lemma calcsize_fixed:
  "list_all (\<lambda>v. fixed_type (fld_type v)) flds \<Longrightarrow>
   calcsize (map (\<lambda>v. type_code (fld_type v)) flds) = Some (payload_width flds)"
  by (induction flds) (simp_all add: payload_width_def code_size_type_code)

lemma unpack_values_fixed:
  "list_all (\<lambda>v. fixed_type (fld_type v)) flds \<Longrightarrow>
   unpack_values fc (map (\<lambda>v. type_code (fld_type v)) flds) bs =
     map snd (decoded_fields fc flds bs)"
  by (induction flds arbitrary: bs)
     (simp_all add: code_size_type_code code_value_type_code Let_def)

lemma decoded_fields_names: "map fst (decoded_fields fc flds bs) = map fld_name flds"
  by (induction flds arbitrary: bs) simp_all

lemma zip_by_index_enum:
  "length flds + k \<le> length data \<Longrightarrow>
   seq_list (map (\<lambda>(idx, value). if idx < length data then Inr (fld_name value, data ! idx)
                                   else Inl IndexError) (enumerate k flds)) =
   Inr (zip (map fld_name flds) (drop k data))"
proof (induction flds arbitrary: k)
  case Nil
  then show ?case by simp
next
  case (Cons v vs)
  from Cons.prems have k: "k < length data" and r: "length vs + Suc k \<le> length data" by simp_all
  from k have d: "drop k data = data ! k # drop (Suc k) data"
    by (simp add: Cons_nth_drop_Suc)
  show ?case using k by (simp add: Cons.IH [OF r] d)
qed

lemma zip_by_index_full:
  "length data = length flds \<Longrightarrow> zip_by_index flds data = Inr (zip (map fld_name flds) data)"
  using zip_by_index_enum [of flds 0 data] by (simp add: zip_by_index_def)

lemma update_fresh: "k \<notin> fst ` set al \<Longrightarrow> AList.update k v al = al @ [(k, v)]"
  by (induction al) auto

lemma ordered_dict_distinct_aux:
  "distinct (map fst (acc @ xs)) \<Longrightarrow>
   foldl (\<lambda>d (k, v). AList.update k v d) acc xs = acc @ xs"
proof (induction xs arbitrary: acc)
  case Nil
  then show ?case by simp
next
  case (Cons x xs)
  obtain k v where x: "x = (k, v)" by (cases x)
  from Cons.prems have "k \<notin> fst ` set acc" by (auto simp: x)
  then have u: "AList.update k v acc = acc @ [(k, v)]" by (rule update_fresh)
  from Cons.prems have "distinct (map fst ((acc @ [(k, v)]) @ xs))" by (simp add: x)
  from Cons.IH [OF this] show ?case by (simp add: x u)
qed

text \<open>With distinct keys the ordered dictionary is the list of pairs itself.\<close>

lemma ordered_dict_distinct: "distinct (map fst xs) \<Longrightarrow> ordered_dict xs = xs"
  using ordered_dict_distinct_aux [of "[]" xs] by (simp add: ordered_dict_def)

text \<open>
  The decoder on a packet of fixed types: it succeeds exactly when the payload has \<open>N\<close>
  bytes, and then returns the ordered dictionary of the decoded fields.
\<close>

lemma unpack_output_packet_fixed:
  assumes ft: "list_all (\<lambda>v. fixed_type (fld_type v)) (pkt_payload om)"
  shows "unpack_output_packet fc dec om bs n =
     (if length bs = payload_width (pkt_payload om)
      then Inr (ordered_dict (decoded_fields fc (pkt_payload om) bs))
      else Inl StructError)"
proof -
  have z: "zip (map fld_name flds) (map snd (decoded_fields fc flds bs)) = decoded_fields fc flds bs"
    for flds
    using decoded_fields_names [of fc flds bs] by (metis zip_map_fst_snd)
  have l: "length (decoded_fields fc flds bs) = length flds" for flds
    using decoded_fields_names [of fc flds bs] by (metis length_map)
  show ?thesis
    by (simp add: unpack_output_packet_def unpack_fmt_loop_fixed [OF ft] struct_pack_B_def
          struct_unpack_def calcsize_fixed [OF ft] unpack_values_fixed [OF ft]
          zip_by_index_full l z)
qed

lemma sample_fixed: "list_all (\<lambda>v. fixed_type (fld_type v)) (pkt_payload sample_packet)"
  by (simp add: sample_packet_def sample_fields_def fixed_type_def)

lemma sample_width: "payload_width (pkt_payload sample_packet) = 7"
  by (simp add: sample_packet_def sample_fields_def payload_width_def type_width_def)

lemma sample_decoded:
  "decoded_fields bits_codec sample_fields [0x34, 0x12, 0xFE, 0xFF, 0xFF, 0xFF, 0x02] =
     [(''GPS week'', PInt 0x1234), (''Offset'', PInt (- 2)), (''Mode'', PInt 2)]"
  by (simp add: sample_fields_def type_width_def typed_value_def le_uint_def le_sint_def)

subsection \<open>Claim C2: the fixed-shape decode\<close>

text \<open>
  C2 (as amended). For every cataloged packet whose fields all have one of the eleven
  fixed types (none is a string), with \<open>N\<close> the sum of the per-field widths (8 for
  double/uint64/int64, 4 for float/uint32/int32, 2 for uint16/int16, 1 for
  char/uchar/uint8): when the payload has exactly \<open>N\<close> bytes, \<^verbatim>\<open>unpack_output_packet\<close> decodes
  them as the little-endian values of the fields in catalog order and returns the
  ordered mapping of the field names, in declared order, onto the decoded values (for
  distinct field names this is the list of name-value pairs itself); when the payload
  has any other length, also a greater one, the decode fails with \<^verbatim>\<open>struct.error\<close>.
\<close>

theorem unpack_output_packet_fixed_shape:
  assumes "list_all (\<lambda>v. fixed_type (fld_type v)) (pkt_payload om)"
  shows "(length bs = payload_width (pkt_payload om) \<longrightarrow>
            unpack_output_packet fc dec om bs n =
              Inr (ordered_dict
                     (decoded_fields fc (pkt_payload om) (take (payload_width (pkt_payload om)) bs))))
       \<and> (length bs = payload_width (pkt_payload om) \<and> distinct (map fld_name (pkt_payload om)) \<longrightarrow>
            unpack_output_packet fc dec om bs n =
              Inr (decoded_fields fc (pkt_payload om) (take (payload_width (pkt_payload om)) bs)))
       \<and> (map fst (decoded_fields fc (pkt_payload om) bs) = map fld_name (pkt_payload om))
       \<and> (length bs \<noteq> payload_width (pkt_payload om) \<longrightarrow>
            unpack_output_packet fc dec om bs n = Inl StructError)"
  using unpack_output_packet_fixed [OF assms, of fc dec bs n]
    ordered_dict_distinct [of "decoded_fields fc (pkt_payload om) bs"]
  by (simp add: decoded_fields_names)

text \<open>
  Witness: a packet with a uint16, an int32 and a uint8 field (\<open>N = 7\<close>) and the payload
  \<open>34 12 FE FF FF FF 02\<close> decodes to 4660, -2 and 2; six bytes fail.
\<close>

theorem unpack_output_packet_fixed_shape_witness:
  "list_all (\<lambda>v. fixed_type (fld_type v)) (pkt_payload sample_packet)
   \<and> payload_width (pkt_payload sample_packet) = 7
   \<and> unpack_output_packet bits_codec (\<lambda>bs. None) sample_packet
        [0x34, 0x12, 0xFE, 0xFF, 0xFF, 0xFF, 0x02] 7 =
       Inr [(''GPS week'', PInt 0x1234), (''Offset'', PInt (- 2)), (''Mode'', PInt 2)]
   \<and> unpack_output_packet bits_codec (\<lambda>bs. None) sample_packet
        [0x34, 0x12, 0xFE, 0xFF, 0xFF, 0xFF] 6 = Inl StructError"
proof -
  note t = unpack_output_packet_fixed_shape [OF sample_fixed, of _ bits_codec "\<lambda>bs. None"]
  have d: "distinct (map fld_name (pkt_payload sample_packet))"
    by (simp add: sample_packet_def sample_fields_def)
  have a: "unpack_output_packet bits_codec (\<lambda>bs. None) sample_packet
        [0x34, 0x12, 0xFE, 0xFF, 0xFF, 0xFF, 0x02] 7 =
       Inr [(''GPS week'', PInt 0x1234), (''Offset'', PInt (- 2)), (''Mode'', PInt 2)]"
    using t [of "[0x34, 0x12, 0xFE, 0xFF, 0xFF, 0xFF, 0x02]" 7, THEN conjunct2, THEN conjunct1] d
      sample_decoded
    by (simp add: sample_width) (simp add: sample_packet_def)
  have b: "unpack_output_packet bits_codec (\<lambda>bs. None) sample_packet
        [0x34, 0x12, 0xFE, 0xFF, 0xFF, 0xFF] 6 = Inl StructError"
    using t [of "[0x34, 0x12, 0xFE, 0xFF, 0xFF, 0xFF]" 6] by (simp add: sample_width)
  show ?thesis using a b sample_fixed sample_width by simp
qed

text \<open>
  Counterexample to C2 as stated: the same packet with a payload of 8 bytes, one more than
  \<open>N = 7\<close>, is not decoded; \<^verbatim>\<open>struct.pack\<close> raises.
\<close>

theorem unpack_output_packet_longer_payload:
  "list_all (\<lambda>v. fixed_type (fld_type v)) (pkt_payload sample_packet)
   \<and> payload_width (pkt_payload sample_packet) = 7
   \<and> unpack_output_packet bits_codec (\<lambda>bs. None) sample_packet
        [0x34, 0x12, 0xFE, 0xFF, 0xFF, 0xFF, 0x02, 0x00] 8 = Inl StructError"
  using unpack_output_packet_fixed [OF sample_fixed, of bits_codec "\<lambda>bs. None"
      "[0x34, 0x12, 0xFE, 0xFF, 0xFF, 0xFF, 0x02, 0x00]" 8]
  by (simp add: sample_fixed sample_width)

section \<open>Properties of the driver\<close>

text \<open>What \<^verbatim>\<open>reinit\<close> does to every driver state: of the queue it drops the oldest byte.\<close>

lemma reinit_effects:
  "fst (reinit d) =
     d\<lparr>cmt_open := False, data_queue := tl (data_queue d), exit_thread := False, threads := [],
       msgs := Map.empty, connection_status := 0\<rparr>
   \<and> snd (reinit d) = CmtClose # (if app d then [AppOnReinit] else [])"
  by (cases "data_queue d") (simp_all add: reinit_def Let_def)

subsection \<open>Claim C6: \<^verbatim>\<open>reinit\<close> and the byte queue\<close>

text \<open>
  C6 says that \<^verbatim>\<open>reinit\<close> leaves the byte queue empty, also when more than one byte is
  buffered. The code takes one byte off the queue (\<^verbatim>\<open>if not self.data_queue.empty()\<close>, not
  a loop). Evaluated on a driver with the two bytes \<open>AF 20\<close> buffered: the transport is
  closed, the cancellation flag and the message cache are cleared, \<^verbatim>\<open>on_reinit\<close> is called
  and the status is 0, but the byte \<open>20\<close> is still in the queue.
\<close>

theorem reinit_leaves_buffered_bytes:
  "data_queue driver_sample = [0xAF, 0x20]
   \<and> reinit driver_sample =
       (driver_sample\<lparr>cmt_open := False, exit_thread := False, data_queue := [0x20],
          threads := [], connection_status := 0\<rparr>, [CmtClose, AppOnReinit])"
  by (simp add: reinit_def driver_sample_def Let_def)

section \<open>Properties of the CSV logger\<close>

lemma butlast_commas: "butlast (concat (map (\<lambda>s. s @ '','') xs)) = comma_join xs"
proof (induction xs rule: comma_join.induct)
  case 1
  then show ?case by simp
next
  case (2 x)
  then show ?case by simp
next
  case (3 x y ys)
  have "concat (map (\<lambda>s. s @ '','') (y # ys)) \<noteq> []" by simp
  then show ?case using 3 by (simp add: butlast_append)
qed

lemma butlast_commas_map:
  "butlast (concat (map ((\<lambda>s. s @ '','') \<circ> g) xs)) = comma_join (map g xs)"
  using butlast_commas [of "map g xs"] by simp

lemma log_labels_ok:
  "k + length data \<le> length (pkt_payload p) \<Longrightarrow>
   log_labels (Some p) (enumerate k data) labels =
     Inr (labels @ concat (map (\<lambda>s. s @ '','')
            (map fld_name (take (length data) (drop k (pkt_payload p))))))"
proof (induction data arbitrary: k labels)
  case Nil
  then show ?case by simp
next
  case (Cons kv data)
  obtain key v where kv: "kv = (key, v)" by (cases kv)
  from Cons.prems have k: "k < length (pkt_payload p)"
    and r: "Suc k + length data \<le> length (pkt_payload p)" by simp_all
  have d: "drop k (pkt_payload p) = pkt_payload p ! k # drop (Suc k) (pkt_payload p)"
    using k by (simp add: Cons_nth_drop_Suc)
  show ?case
    using k by (simp add: kv payload_field_def Cons.IH [OF r] d)
qed

lemma log_values_ok:
  "k + length data \<le> length (pkt_payload p) \<Longrightarrow>
   map2 (\<lambda>f kv. py_format (format_spec (fld_type f)) (snd kv)) (drop k (pkt_payload p)) data
     = map Inr cells \<Longrightarrow>
   log_values py_format (Some p) (enumerate k data) str =
     Inr (str @ concat (map (\<lambda>s. s @ '','') cells))"
proof (induction data arbitrary: k str cells)
  case Nil
  then show ?case by simp
next
  case (Cons kv data)
  obtain key v where kv: "kv = (key, v)" by (cases kv)
  from Cons.prems(1) have k: "k < length (pkt_payload p)"
    and r: "Suc k + length data \<le> length (pkt_payload p)" by simp_all
  have d: "drop k (pkt_payload p) = pkt_payload p ! k # drop (Suc k) (pkt_payload p)"
    using k by (simp add: Cons_nth_drop_Suc)
  from Cons.prems(2) obtain c cs where cells: "cells = c # cs"
    and c: "py_format (format_spec (fld_type (pkt_payload p ! k))) v = Inr c"
    and cs: "map2 (\<lambda>f kv. py_format (format_spec (fld_type f)) (snd kv))
               (drop (Suc k) (pkt_payload p)) data = map Inr cs"
    by (cases cells) (auto simp: d kv)
  show ?case
    using k by (simp add: kv payload_field_def c cells Cons.IH [OF r cs])
qed

text \<open>The first call for a packet name writes the header row and one data line.\<close>

lemma log_first_call:
  assumes "find (\<lambda>x. pkt_name x = t) (rover_properties a) = Some p"
    and "first_row a t = Some 0" and "log_files a t = Some w"
    and "length data = length (pkt_payload p)"
    and "format_cells py_format p data = map Inr cells"
  shows "log_csv py_format a data t =
     (None, a\<lparr>first_row := (first_row a)(t \<mapsto> 1),
              log_files := (log_files a)(t \<mapsto> w @ header_row p @ data_row cells)\<rparr>)"
  using assms log_labels_ok [of 0 data p "''''"] log_values_ok [of 0 data p py_format cells "''''"]
  by (simp add: log_csv_def Let_def butlast_commas butlast_commas_map header_row_def data_row_def
        format_cells_def)

text \<open>Every later call writes one data line and no header.\<close>

lemma log_later_call:
  assumes "find (\<lambda>x. pkt_name x = t) (rover_properties a) = Some p"
    and "first_row a t = Some n" and "n \<noteq> 0" and "log_files a t = Some w"
    and "length data = length (pkt_payload p)"
    and "format_cells py_format p data = map Inr cells"
  shows "log_csv py_format a data t =
     (None, a\<lparr>first_row := (first_row a)(t \<mapsto> n + 1),
              log_files := (log_files a)(t \<mapsto> w @ data_row cells)\<rparr>)"
  using assms log_values_ok [of 0 data p py_format cells "''''"]
  by (simp add: log_csv_def Let_def butlast_commas data_row_def format_cells_def)

text \<open>After the first call every call adds one data line.\<close>

lemma log_seq_later:
  assumes "find (\<lambda>x. pkt_name x = t) (rover_properties a) = Some p"
    and "first_row a t = Some n" and "0 < n" and "log_files a t = Some w"
    and "list_all2 (\<lambda>data cells. length data = length (pkt_payload p)
            \<and> format_cells py_format p data = map Inr cells) ds cs"
  shows "fst (log_seq py_format a ds t) = None
     \<and> rover_properties (snd (log_seq py_format a ds t)) = rover_properties a
     \<and> first_row (snd (log_seq py_format a ds t)) t = Some (n + int (length ds))
     \<and> log_files (snd (log_seq py_format a ds t)) t = Some (w @ concat (map data_row cs))"
  using assms(5,1,2,3,4)
proof (induction ds cs arbitrary: a n w rule: list_all2_induct)
  case Nil
  then show ?case by simp
next
  case (Cons data ds cells cs)
  let ?a1 = "a\<lparr>first_row := (first_row a)(t \<mapsto> n + 1),
              log_files := (log_files a)(t \<mapsto> w @ data_row cells)\<rparr>"
  from Cons.hyps(1) have len: "length data = length (pkt_payload p)"
    and fc: "format_cells py_format p data = map Inr cells" by simp_all
  from Cons.prems(3) have n0: "n \<noteq> 0" by simp
  have l: "log_csv py_format a data t = (None, ?a1)"
    by (rule log_later_call [OF Cons.prems(1) Cons.prems(2) n0 Cons.prems(4) len fc])
  have f: "find (\<lambda>x. pkt_name x = t) (rover_properties ?a1) = Some p"
    using Cons.prems(1) by simp
  have r: "first_row ?a1 t = Some (n + 1)" and pos: "0 < n + 1"
    and wf: "log_files ?a1 t = Some (w @ data_row cells)"
    using Cons.prems(3) by simp_all
  from Cons.IH [OF f r pos wf] show ?case
    by (simp add: l)
qed

lemma format_spec_table:
  "format_spec ''uint32'' = ''d''" "format_spec ''int32'' = ''d''"
  "format_spec ''uint16'' = ''d''" "format_spec ''int16'' = ''d''"
  "format_spec ''uint64'' = ''d''" "format_spec ''int64'' = ''d''"
  "format_spec ''uint8'' = ''d''"
  "format_spec ''double'' = ''15.12f''" "format_spec ''float'' = ''12.8f''"
  "format_spec ''uchar'' = ''''" "format_spec ''char'' = ''''"
  by (simp_all add: format_spec_def)

lemma format_spec_other: "\<not> fixed_type ty \<Longrightarrow> format_spec ty = ''3.5f''"
  by (simp add: format_spec_def fixed_type_def)

lemma decimal_4660: "decimal 4660 = ''4660''"
  by (simp add: decimal.simps)

lemma decimal_small: "decimal 2 = ''2''" "decimal (Suc 0) = ''1''" "decimal 0 = ''0''"
  "decimal 4661 = ''4661''"
  by (simp_all add: decimal.simps)

subsection \<open>Claim C9: one header row, one data line per packet\<close>

text \<open>
  C9 (as amended). Take a packet name of the catalog whose file is open and for which
  nothing has been logged yet, and any number (at least one) of decoded packets of that
  type, each with one value per catalog field that Python's \<^verbatim>\<open>format\<close> accepts under the
  field's format. Then every \<^verbatim>\<open>log\<close> call returns normally, and afterwards the file holds
  the header row once (the catalog's field names, comma-joined, no trailing comma, then a
  newline) followed by one data line per packet, in the order of the calls. Every field
  is formatted by its declared type: the 16-, 32- and 64-bit integers and uint8 with \<^verbatim>\<open>d\<close>,
  double with \<^verbatim>\<open>15.12f\<close>, float with \<^verbatim>\<open>12.8f\<close>, char and uchar with the empty format (their
  plain text), any other type with \<^verbatim>\<open>3.5f\<close>.
\<close>

theorem log_header_once:
  assumes "find (\<lambda>x. pkt_name x = t) (rover_properties a) = Some p"
    and "first_row a t = Some 0" and "log_files a t = Some w"
    and "list_all2 (\<lambda>data cells. length data = length (pkt_payload p)
            \<and> format_cells py_format p data = map Inr cells) ds cs"
    and "ds \<noteq> []"
  shows "fst (log_seq py_format a ds t) = None
     \<and> log_files (snd (log_seq py_format a ds t)) t =
         Some (w @ header_row p @ concat (map data_row cs))
     \<and> format_spec ''uint32'' = ''d'' \<and> format_spec ''int32'' = ''d''
     \<and> format_spec ''uint16'' = ''d'' \<and> format_spec ''int16'' = ''d''
     \<and> format_spec ''uint64'' = ''d'' \<and> format_spec ''int64'' = ''d''
     \<and> format_spec ''uint8'' = ''d''
     \<and> format_spec ''double'' = ''15.12f'' \<and> format_spec ''float'' = ''12.8f''
     \<and> format_spec ''uchar'' = '''' \<and> format_spec ''char'' = ''''
     \<and> (\<not> fixed_type ty \<longrightarrow> format_spec ty = ''3.5f'')"
proof -
  from assms(4,5) obtain data rest cells cs' where ds: "ds = data # rest" and cs: "cs = cells # cs'"
    and len: "length data = length (pkt_payload p)"
    and fc: "format_cells py_format p data = map Inr cells"
    and rest: "list_all2 (\<lambda>data cells. length data = length (pkt_payload p)
            \<and> format_cells py_format p data = map Inr cells) rest cs'"
    by (cases ds; cases cs) auto
  let ?a1 = "a\<lparr>first_row := (first_row a)(t \<mapsto> 1),
              log_files := (log_files a)(t \<mapsto> w @ header_row p @ data_row cells)\<rparr>"
  have l: "log_csv py_format a data t = (None, ?a1)"
    by (rule log_first_call [OF assms(1,2,3) len fc])
  have f: "find (\<lambda>x. pkt_name x = t) (rover_properties ?a1) = Some p"
    using assms(1) by simp
  have r: "first_row ?a1 t = Some 1"
    and wf: "log_files ?a1 t = Some (w @ header_row p @ data_row cells)"
    by simp_all
  from log_seq_later [OF f r _ wf rest] show ?thesis
    by (simp add: ds cs l format_spec_table format_spec_other)
qed

text \<open>
  Witness: two packets of the sample type logged one after the other leave the three
  lines \<open>GPS week,Offset,Mode\<close>, \<open>4660,-2,2\<close> and \<open>4661,0,1\<close> in the file.
\<close>

theorem log_header_once_witness:
  "find (\<lambda>x. pkt_name x = ''TSM'') (rover_properties log_app_sample) = Some sample_packet
   \<and> first_row log_app_sample ''TSM'' = Some 0
   \<and> log_files log_app_sample ''TSM'' = Some ''''
   \<and> log_files (snd (log_seq format_sample log_app_sample
        [[(''GPS week'', IntValue 4660), (''Offset'', IntValue (- 2)), (''Mode'', IntValue 2)],
         [(''GPS week'', IntValue 4661), (''Offset'', IntValue 0), (''Mode'', IntValue 1)]] ''TSM'')) ''TSM'' =
      Some (''GPS week,Offset,Mode'' @ [CHR 0x0A] @ ''4660,-2,2'' @ [CHR 0x0A]
            @ ''4661,0,1'' @ [CHR 0x0A])"
proof -
  have f: "find (\<lambda>x. pkt_name x = ''TSM'') (rover_properties log_app_sample) = Some sample_packet"
    by (simp add: log_app_sample_def sample_packet_def)
  have r: "first_row log_app_sample ''TSM'' = Some 0"
    and w: "log_files log_app_sample ''TSM'' = Some ''''"
    by (simp_all add: log_app_sample_def)
  have c1: "format_cells format_sample sample_packet
              [(''GPS week'', IntValue 4660), (''Offset'', IntValue (- 2)), (''Mode'', IntValue 2)] =
            map Inr [''4660'', ''-2'', ''2'']"
    by (simp add: format_cells_def sample_packet_def sample_fields_def format_spec_table
          format_sample_def decimal_4660 decimal_small)
  have c2: "format_cells format_sample sample_packet
              [(''GPS week'', IntValue 4661), (''Offset'', IntValue 0), (''Mode'', IntValue 1)] =
            map Inr [''4661'', ''0'', ''1'']"
    by (simp add: format_cells_def sample_packet_def sample_fields_def format_spec_table
          format_sample_def decimal_small)
  have n: "length (pkt_payload sample_packet) = 3"
    by (simp add: sample_packet_def sample_fields_def)
  have l: "list_all2 (\<lambda>data cells. length data = length (pkt_payload sample_packet)
            \<and> format_cells format_sample sample_packet data = map Inr cells)
        [[(''GPS week'', IntValue 4660), (''Offset'', IntValue (- 2)), (''Mode'', IntValue 2)],
         [(''GPS week'', IntValue 4661), (''Offset'', IntValue 0), (''Mode'', IntValue 1)]]
        [[''4660'', ''-2'', ''2''], [''4661'', ''0'', ''1'']]"
    using c1 c2 by (simp add: n)
  have h: "header_row sample_packet = ''GPS week,Offset,Mode'' @ [CHR 0x0A]"
    by (simp add: header_row_def sample_packet_def sample_fields_def)
  from log_header_once [OF f r w l, THEN conjunct2, THEN conjunct1]
  show ?thesis by (simp add: f r w h data_row_def)
qed

text \<open>
  Counterexample to C9 as stated: the catalog holds a fixed-shape packet with a string
  field, and its first decoded packet is logged. The field's type is none of those the
  chain names, so it is formatted with \<^verbatim>\<open>3.5f\<close>, which Python rejects for a string: \<^verbatim>\<open>log\<close>
  raises \<^verbatim>\<open>ValueError\<close> after it has set \<^verbatim>\<open>first_row\<close>, and neither a header row nor a data
  line is written.
\<close>

theorem log_string_field_not_written:
  "find (\<lambda>x. pkt_name x = ''TXT'') (rover_properties log_text_sample) = Some text_packet
   \<and> format_spec ''string'' = ''3.5f''
   \<and> log_csv format_sample log_text_sample [(''Text'', StrValue ''abc'')] ''TXT'' =
       (Some (ValueError ''Unknown format code for object of type str''),
        log_text_sample\<lparr>first_row := [''TXT'' \<mapsto> 1]\<rparr>)
   \<and> log_files (snd (log_csv format_sample log_text_sample [(''Text'', StrValue ''abc'')] ''TXT''))
         ''TXT'' = Some ''''"
  by (simp add: log_csv_def log_text_sample_def text_packet_def format_spec_def
        payload_field_def format_sample_def Let_def)
section \<open>Properties of the derived packets\<close>

lemma TP_distinct: "TP_KFN \<noteq> TP_CNM" "TP_GH \<noteq> TP_CNM" "TP_CNM \<noteq> TP_KFN" "TP_CNM \<noteq> TP_GH"
  "TP_SA \<noteq> TP_CNM" "TP_NCA \<noteq> TP_CNM"
  by (simp_all add: TP_KFN_def TP_CNM_def TP_GH_def TP_SA_def TP_NCA_def)

lemma msgs_item_other:
  "name \<noteq> TP_CNM \<Longrightarrow> msgs_item (cache(TP_CNM \<mapsto> e)) name key = msgs_item cache name key"
  by (simp add: msgs_item_def)

lemma msgs_item_same:
  "msgs_item (cache(TP_CNM \<mapsto> CachedPacket p)) TP_CNM key = packet_item p key"
  by (simp add: msgs_item_def)

lemma call_all_append:
  "call_all notify w (xs @ ys) =
     (case call_all notify w xs of
        (Some e, w1, c1) \<Rightarrow> (Some e, w1, c1)
      | (None, w1, c1) \<Rightarrow>
          (case call_all notify w1 ys of (f, w2, c2) \<Rightarrow> (f, w2, c1 @ c2)))"
  by (induction xs arbitrary: w) (auto split: prod.splits option.splits)

text \<open>A CNM packet handled while KFN and GH are cached.\<close>

lemma packet_handler_CNM:
  assumes "TP_KFN \<in> dom (msgs d)" and "TP_GH \<in> dom (msgs d)"
  shows "packet_handler ops notify d w TP_CNM cnm v =
     (let d1 = d\<lparr>msgs := (msgs d)(TP_CNM \<mapsto> CachedPacket cnm)\<rparr>
      in case call_all notify w
                (map (\<lambda>client. ClientOnDriverMessage client ''event'' TP_CNM cnm v)
                     (web_clients d)) of
           (Some e, w1, c1) \<Rightarrow> (Some e, d1, w1, c1)
         | (None, w1, c1) \<Rightarrow>
             (case nav_packet ops (msgs d1) of
                Inl e \<Rightarrow> (Some e, d1, w1, c1)
              | Inr nav \<Rightarrow>
                  (case call_all notify w1 (push_events d1 TP_NAV (Fixed nav)) of
                     (f, w2, c2) \<Rightarrow> (f, d1, w2, c1 @ c2))))"
  using assms
  by (simp add: packet_handler_def Let_def TP_distinct bind_f_def
        cong: sum.case_cong prod.case_cong option.case_cong)

text \<open>The names the two mode tables give to the codes they hold.\<close>

lemma nav_pos_vel_mode_name:
  assumes "0 \<le> i" "i \<le> 7"
  shows "nav_pos_vel_mode i =
     Some ([''INVALID'', ''DEAD_RECKON'', ''STAND_ALONE'', ''PRECISE_POINT_POSITIONING'',
            ''CODE_DIFF'', ''RTK_FLOAT'', ''RTK_FIXED'', ''USER_AIDING''] ! nat i)"
proof -
  from assms have "i = 0 \<or> i = 1 \<or> i = 2 \<or> i = 3 \<or> i = 4 \<or> i = 5 \<or> i = 6 \<or> i = 7"
    by presburger
  then show ?thesis
    by (elim disjE) (simp_all add: nav_pos_vel_mode_def)
qed

lemma nav_att_mode_name:
  assumes "0 \<le> k" "k \<le> 2"
  shows "nav_att_mode k = Some ([''INVALID'', ''COARSE'', ''FINE''] ! nat k)"
proof -
  from assms have "k = 0 \<or> k = 1 \<or> k = 2"
    by presburger
  then show ?thesis
    by (elim disjE) (simp_all add: nav_att_mode_def)
qed

lemma mode_name_in_table:
  "py_int_key ops code = Some i \<Longrightarrow> table i = Some nm \<Longrightarrow>
   mode_name ops table code = Inr (PStr nm)"
  by (simp add: mode_name_def)

text \<open>
  The NAV packet is built whenever the fields that are read are there, the codes are in
  their tables, and the numeric operations return.
\<close>

lemma nav_packet_built:
  assumes kfn: "cache TP_KFN = Some (CachedPacket (Fixed kfn))"
    and gh: "cache TP_GH = Some (CachedPacket (Fixed gh))"
    and cnm: "cache TP_CNM = Some (CachedPacket (Fixed cnm))"
    and kf: "map (map_of kfn)
               [''System time'', ''Position mode'', ''Velocity mode'', ''Attitude status''] =
             map Some [t, pm, vm, am]"
    and gf: "map_of gh ''Geoid height'' = Some g"
    and cr: "map (map_of cnm)
               [''Position RMS-N'', ''Position RMS-E'', ''Position RMS-D'',
                ''Velocity RMS-N'', ''Velocity RMS-E'', ''Velocity RMS-D'',
                ''Attitude RMS-N'', ''Attitude RMS-E'', ''Attitude RMS-D'',
                ''Attitude quaternion-Scalar'', ''Attitude quaternion-X'',
                ''Attitude quaternion-Y'', ''Attitude quaternion-Z''] =
             map Some [pn, pe, pd, vn, ve, vd, an, ae, ad, q0, q1, q2, q3]"
    and cf: "map (map_of cnm)
               [''Time of week'', ''GPS week'', ''Latitude'', ''Longitude'',
                ''Ellipsoidal height'', ''Vel N'', ''Vel E'', ''Vel D''] =
             map Some [tow, week, lat, lon, h, veln, vele, veld]"
    and pmk: "py_int_key ops pm = Some i" "0 \<le> i" "i \<le> 7"
    and vmk: "py_int_key ops vm = Some j" "0 \<le> j" "j \<le> 7"
    and amk: "py_int_key ops am = Some k" "0 \<le> k" "k \<le> 2"
    and st: "py_int ops t = Inr st"
    and msl: "py_sub ops h g = Inr msl"
    and rm: "rms ops pn pe pd = Inr prms" "rms ops vn ve vd = Inr vrms"
      "rms ops an ae ad = Inr arms"
    and att: "cal_attitude ops q0 q1 q2 q3 = Inr (roll, pitch, heading)"
    and deg: "py_mul ops roll (r2d ops) = Inr roll_deg"
      "py_mul ops pitch (r2d ops) = Inr pitch_deg"
      "py_mul ops heading (r2d ops) = Inr heading_deg"
  shows "nav_packet ops cache =
     Inr [(''System time'', st), (''Time of week'', tow), (''GPS week'', week),
          (''Position mode'',
             PStr ([''INVALID'', ''DEAD_RECKON'', ''STAND_ALONE'', ''PRECISE_POINT_POSITIONING'',
                    ''CODE_DIFF'', ''RTK_FLOAT'', ''RTK_FIXED'', ''USER_AIDING''] ! nat i)),
          (''Latitude'', lat), (''Longitude'', lon), (''Ellipsoidal height'', h),
          (''MSL height'', msl), (''Position RMS'', prms),
          (''Velocity mode'',
             PStr ([''INVALID'', ''DEAD_RECKON'', ''STAND_ALONE'', ''PRECISE_POINT_POSITIONING'',
                    ''CODE_DIFF'', ''RTK_FLOAT'', ''RTK_FIXED'', ''USER_AIDING''] ! nat j)),
          (''Vel N'', veln), (''Vel E'', vele), (''Vel D'', veld), (''Velocity RMS'', vrms),
          (''Attitude status'', PStr ([''INVALID'', ''COARSE'', ''FINE''] ! nat k)),
          (''Roll'', roll_deg), (''Pitch'', pitch_deg), (''Heading'', heading_deg),
          (''Attitude RMS'', arms)]"
proof -
  have k1: "msgs_item cache TP_KFN ''System time'' = Inr t"
    "msgs_item cache TP_KFN ''Position mode'' = Inr pm"
    "msgs_item cache TP_KFN ''Velocity mode'' = Inr vm"
    "msgs_item cache TP_KFN ''Attitude status'' = Inr am"
    using kf by (simp_all add: msgs_item_def packet_item_def kfn)
  have g1: "msgs_item cache TP_GH ''Geoid height'' = Inr g"
    using gf by (simp add: msgs_item_def packet_item_def gh)
  have c1: "map (msgs_item cache TP_CNM)
               [''Position RMS-N'', ''Position RMS-E'', ''Position RMS-D'',
                ''Velocity RMS-N'', ''Velocity RMS-E'', ''Velocity RMS-D'',
                ''Attitude RMS-N'', ''Attitude RMS-E'', ''Attitude RMS-D'',
                ''Attitude quaternion-Scalar'', ''Attitude quaternion-X'',
                ''Attitude quaternion-Y'', ''Attitude quaternion-Z''] =
             map Inr [pn, pe, pd, vn, ve, vd, an, ae, ad, q0, q1, q2, q3]"
    using cr by (simp add: msgs_item_def packet_item_def cnm)
  have c2: "msgs_item cache TP_CNM ''Time of week'' = Inr tow"
    "msgs_item cache TP_CNM ''GPS week'' = Inr week"
    "msgs_item cache TP_CNM ''Latitude'' = Inr lat"
    "msgs_item cache TP_CNM ''Longitude'' = Inr lon"
    "msgs_item cache TP_CNM ''Ellipsoidal height'' = Inr h"
    "msgs_item cache TP_CNM ''Vel N'' = Inr veln"
    "msgs_item cache TP_CNM ''Vel E'' = Inr vele"
    "msgs_item cache TP_CNM ''Vel D'' = Inr veld"
    using cf by (simp_all add: msgs_item_def packet_item_def cnm)
  have m: "mode_name ops nav_pos_vel_mode pm =
       Inr (PStr ([''INVALID'', ''DEAD_RECKON'', ''STAND_ALONE'', ''PRECISE_POINT_POSITIONING'',
                   ''CODE_DIFF'', ''RTK_FLOAT'', ''RTK_FIXED'', ''USER_AIDING''] ! nat i))"
    "mode_name ops nav_pos_vel_mode vm =
       Inr (PStr ([''INVALID'', ''DEAD_RECKON'', ''STAND_ALONE'', ''PRECISE_POINT_POSITIONING'',
                   ''CODE_DIFF'', ''RTK_FLOAT'', ''RTK_FIXED'', ''USER_AIDING''] ! nat j))"
    "mode_name ops nav_att_mode am = Inr (PStr ([''INVALID'', ''COARSE'', ''FINE''] ! nat k))"
    by (rule mode_name_in_table [where table = nav_pos_vel_mode,
            OF pmk(1) nav_pos_vel_mode_name [OF pmk(2,3)]],
        rule mode_name_in_table [where table = nav_pos_vel_mode,
            OF vmk(1) nav_pos_vel_mode_name [OF vmk(2,3)]],
        rule mode_name_in_table [where table = nav_att_mode,
            OF amk(1) nav_att_mode_name [OF amk(2,3)]])
  show ?thesis
    unfolding nav_packet_def c1
    by (simp add: bind_f_def k1 g1 c2 m st msl rm att deg)
qed

text \<open>On exact reals \<open>rms\<close> is the root of the sum of the squares.\<close>

lemma rms_exact:
  "rms exact_ops (PFloat a) (PFloat b) (PFloat c) = Inr (PFloat (sqrt (a\<^sup>2 + b\<^sup>2 + c\<^sup>2)))"
  by (simp add: rms_def bind_f_def exact_ops_def as_real_def exact_arith_def)

lemma nav_pos_vel_mode_table:
  "map nav_pos_vel_mode [0, 1, 2, 3, 4, 5, 6, 7] =
     map Some [''INVALID'', ''DEAD_RECKON'', ''STAND_ALONE'', ''PRECISE_POINT_POSITIONING'',
               ''CODE_DIFF'', ''RTK_FLOAT'', ''RTK_FIXED'', ''USER_AIDING'']"
  by (simp add: nav_pos_vel_mode_def)

lemma nav_pos_vel_mode_dom: "dom nav_pos_vel_mode = {0..7}"
proof -
  have "{0..7 :: int} = {0, 1, 2, 3, 4, 5, 6, 7}"
    by auto
  then show ?thesis
    by (simp add: nav_pos_vel_mode_def dom_map_of_conv_image_fst insert_commute)
qed

lemma sqrt_345: "sqrt ((3 / 10)\<^sup>2 + (4 / 10)\<^sup>2 + 0\<^sup>2) = 1 / 2"
  by (rule real_sqrt_unique) (simp_all add: power2_eq_square)

lemma rms_sample_345:
  "rms exact_ops (PFloat (3 / 10)) (PFloat (4 / 10)) (PFloat 0) = Inr (PFloat (1 / 2))"
  using sqrt_345
  by (simp add: rms_def bind_f_def exact_ops_def as_real_def exact_arith_def power2_eq_square)

lemma rms_sample_0: "rms exact_ops (PFloat 0) (PFloat 0) (PFloat 0) = Inr (PFloat 0)"
  by (simp add: rms_def bind_f_def exact_ops_def as_real_def exact_arith_def)

lemma cnm_sample_items:
  "packet_item (Fixed cnm_sample) ''Position RMS-N'' = Inr (PFloat (3 / 10))"
  "packet_item (Fixed cnm_sample) ''Position RMS-E'' = Inr (PFloat (4 / 10))"
  "packet_item (Fixed cnm_sample) ''Position RMS-D'' = Inr (PFloat 0)"
  "packet_item (Fixed cnm_sample) ''Velocity RMS-N'' = Inr (PFloat 0)"
  "packet_item (Fixed cnm_sample) ''Velocity RMS-E'' = Inr (PFloat 0)"
  "packet_item (Fixed cnm_sample) ''Velocity RMS-D'' = Inr (PFloat 0)"
  "packet_item (Fixed cnm_sample) ''Attitude RMS-N'' = Inr (PFloat 0)"
  "packet_item (Fixed cnm_sample) ''Attitude RMS-E'' = Inr (PFloat 0)"
  "packet_item (Fixed cnm_sample) ''Attitude RMS-D'' = Inr (PFloat 0)"
  "packet_item (Fixed cnm_sample) ''Attitude quaternion-Scalar'' = Inr (PFloat 1)"
  "packet_item (Fixed cnm_sample) ''Attitude quaternion-X'' = Inr (PFloat 0)"
  "packet_item (Fixed cnm_sample) ''Attitude quaternion-Y'' = Inr (PFloat 0)"
  "packet_item (Fixed cnm_sample) ''Attitude quaternion-Z'' = Inr (PFloat 0)"
  "packet_item (Fixed cnm_sample) ''Time of week'' = Inr (PFloat 0)"
  "packet_item (Fixed cnm_sample) ''GPS week'' = Inr (PInt 0)"
  "packet_item (Fixed cnm_sample) ''Latitude'' = Inr (PFloat 0)"
  "packet_item (Fixed cnm_sample) ''Longitude'' = Inr (PFloat 0)"
  "packet_item (Fixed cnm_sample) ''Ellipsoidal height'' = Inr (PFloat 110)"
  "packet_item (Fixed cnm_sample) ''Vel N'' = Inr (PFloat 0)"
  "packet_item (Fixed cnm_sample) ''Vel E'' = Inr (PFloat 0)"
  "packet_item (Fixed cnm_sample) ''Vel D'' = Inr (PFloat 0)"
  by (simp_all add: packet_item_def cnm_sample_def)

lemma kfn_sample_items:
  "msgs_item (msgs nav_driver_sample) TP_KFN ''System time'' = Inr (PFloat 100)"
  "msgs_item (msgs nav_driver_sample) TP_KFN ''Position mode'' = Inr (PInt 2)"
  "msgs_item (msgs nav_driver_sample) TP_KFN ''Velocity mode'' = Inr (PInt 2)"
  "msgs_item (msgs nav_driver_sample) TP_KFN ''Attitude status'' = Inr (PInt 2)"
  "msgs_item (msgs nav_driver_sample) TP_GH ''Geoid height'' = Inr (PFloat 10)"
  by (simp_all add: nav_driver_sample_def msgs_item_def packet_item_def
        kfn_sample_def gh_sample_def TP_KFN_def TP_GH_def)

lemma kfn_mode_8_items:
  "msgs_item (msgs nav_driver_mode_8) TP_KFN ''System time'' = Inr (PFloat 100)"
  "msgs_item (msgs nav_driver_mode_8) TP_KFN ''Position mode'' = Inr (PInt 8)"
  "msgs_item (msgs nav_driver_mode_8) TP_KFN ''Velocity mode'' = Inr (PInt 2)"
  "msgs_item (msgs nav_driver_mode_8) TP_KFN ''Attitude status'' = Inr (PInt 2)"
  "msgs_item (msgs nav_driver_mode_8) TP_GH ''Geoid height'' = Inr (PFloat 10)"
  by (simp_all add: nav_driver_mode_8_def msgs_item_def packet_item_def
        kfn_mode_8_def gh_sample_def TP_KFN_def TP_GH_def)

lemma rms_sample_345_normal:
  "rms exact_ops (PFloat (3 / 10)) (PFloat (2 / 5)) (PFloat 0) = Inr (PFloat (1 / 2))"
  using rms_sample_345 by simp

lemma exact_ops_sample:
  "cal_attitude exact_ops (PFloat 1) (PFloat 0) (PFloat 0) (PFloat 0) =
     Inr (PFloat 0, PFloat 0, PFloat 0)"
  "py_int exact_ops (PFloat 100) = Inr (PInt 100)"
  "py_int_key exact_ops (PInt 2) = Some 2"
  "py_int_key exact_ops (PInt 8) = Some 8"
  "py_str exact_ops (PInt 8) = ''8''"
  "py_sub exact_ops (PFloat 110) (PFloat 10) = Inr (PFloat 100)"
  "py_mul exact_ops (PFloat 0) (r2d exact_ops) = Inr (PFloat 0)"
  by (simp_all add: exact_ops_def exact_arith_def as_real_def decimal.simps)

lemma nav_packet_sample:
  "nav_packet exact_ops ((msgs nav_driver_sample)(TP_CNM \<mapsto> CachedPacket (Fixed cnm_sample))) =
     Inr nav_sample"
  by (simp add: nav_packet_def msgs_item_same msgs_item_other TP_distinct cnm_sample_items
        kfn_sample_items bind_f_def rms_sample_345_normal rms_sample_0 nav_sample_def
        mode_name_def nav_pos_vel_mode_def nav_att_mode_def exact_ops_sample)

lemma nav_packet_mode_8:
  "nav_packet exact_ops ((msgs nav_driver_mode_8)(TP_CNM \<mapsto> CachedPacket (Fixed cnm_sample))) =
     Inl (KeyError ''8'')"
  by (simp add: nav_packet_def msgs_item_same msgs_item_other TP_distinct cnm_sample_items
        kfn_mode_8_items bind_f_def rms_sample_345_normal rms_sample_0
        mode_name_def nav_pos_vel_mode_def nav_att_mode_def exact_ops_sample)

lemma nav_sample_dom:
  "TP_KFN \<in> dom (msgs nav_driver_sample)" "TP_GH \<in> dom (msgs nav_driver_sample)"
  "TP_KFN \<in> dom (msgs nav_driver_mode_8)" "TP_GH \<in> dom (msgs nav_driver_mode_8)"
  by (simp_all add: nav_driver_sample_def nav_driver_mode_8_def)

subsection \<open>Claim C8: the NAV packet\<close>

text \<open>
  C8 (as amended). Let a CNM packet be handled while KFN and GH are cached as fixed-shape
  packets; let the three packets hold the fields that are read, KFN's Position mode and
  Velocity mode be codes 0 to 7 and its Attitude status a code 0 to 2, and let \<^verbatim>\<open>int\<close>, the
  subtraction, the three root-mean-square expressions, \<^verbatim>\<open>cal_attitude\<close> and the three
  multiplications return on the cached values. Then \<^verbatim>\<open>packet_handler\<close> caches the CNM
  packet, sends it to every web client, and then pushes one NAV packet to the application
  and to every web client; the calls are made in that order up to the first callback that
  raises, whose exception is then that of the handler. The NAV packet has the nineteen entries below,
  in the order of the code: its System time is \<^verbatim>\<open>int\<close> of KFN's System time; its Position
  mode and Velocity mode are the names of KFN's codes in the table 0 INVALID,
  1 DEAD_RECKON, 2 STAND_ALONE, 3 PRECISE_POINT_POSITIONING, 4 CODE_DIFF, 5 RTK_FLOAT,
  6 RTK_FIXED, 7 USER_AIDING; its MSL height is CNM's Ellipsoidal height minus GH's Geoid
  height; and each of its three RMS entries is \<open>rms\<close> of the three components of CNM,
  which on exact reals is the square root of the sum of their squares.
\<close>

theorem packet_handler_nav:
  assumes "msgs d TP_KFN = Some (CachedPacket (Fixed kfn))"
    and "msgs d TP_GH = Some (CachedPacket (Fixed gh))"
    and "map (map_of kfn)
           [''System time'', ''Position mode'', ''Velocity mode'', ''Attitude status''] =
         map Some [t, pm, vm, am]"
    and "map_of gh ''Geoid height'' = Some g"
    and "map (map_of cnm)
           [''Position RMS-N'', ''Position RMS-E'', ''Position RMS-D'',
            ''Velocity RMS-N'', ''Velocity RMS-E'', ''Velocity RMS-D'',
            ''Attitude RMS-N'', ''Attitude RMS-E'', ''Attitude RMS-D'',
            ''Attitude quaternion-Scalar'', ''Attitude quaternion-X'',
            ''Attitude quaternion-Y'', ''Attitude quaternion-Z''] =
         map Some [pn, pe, pd, vn, ve, vd, an, ae, ad, q0, q1, q2, q3]"
    and "map (map_of cnm)
           [''Time of week'', ''GPS week'', ''Latitude'', ''Longitude'',
            ''Ellipsoidal height'', ''Vel N'', ''Vel E'', ''Vel D''] =
         map Some [tow, week, lat, lon, h, veln, vele, veld]"
    and "py_int_key ops pm = Some i" "0 \<le> i" "i \<le> 7"
    and "py_int_key ops vm = Some j" "0 \<le> j" "j \<le> 7"
    and "py_int_key ops am = Some k" "0 \<le> k" "k \<le> 2"
    and "py_int ops t = Inr st"
    and "py_sub ops h g = Inr msl"
    and "rms ops pn pe pd = Inr prms" "rms ops vn ve vd = Inr vrms"
      "rms ops an ae ad = Inr arms"
    and "cal_attitude ops q0 q1 q2 q3 = Inr (roll, pitch, heading)"
    and "py_mul ops roll (r2d ops) = Inr roll_deg"
      "py_mul ops pitch (r2d ops) = Inr pitch_deg"
      "py_mul ops heading (r2d ops) = Inr heading_deg"
    and "nav =
       [(''System time'', st), (''Time of week'', tow), (''GPS week'', week),
        (''Position mode'',
           PStr ([''INVALID'', ''DEAD_RECKON'', ''STAND_ALONE'', ''PRECISE_POINT_POSITIONING'',
                  ''CODE_DIFF'', ''RTK_FLOAT'', ''RTK_FIXED'', ''USER_AIDING''] ! nat i)),
        (''Latitude'', lat), (''Longitude'', lon), (''Ellipsoidal height'', h),
        (''MSL height'', msl), (''Position RMS'', prms),
        (''Velocity mode'',
           PStr ([''INVALID'', ''DEAD_RECKON'', ''STAND_ALONE'', ''PRECISE_POINT_POSITIONING'',
                  ''CODE_DIFF'', ''RTK_FLOAT'', ''RTK_FIXED'', ''USER_AIDING''] ! nat j)),
        (''Vel N'', veln), (''Vel E'', vele), (''Vel D'', veld), (''Velocity RMS'', vrms),
        (''Attitude status'', PStr ([''INVALID'', ''COARSE'', ''FINE''] ! nat k)),
        (''Roll'', roll_deg), (''Pitch'', pitch_deg), (''Heading'', heading_deg),
        (''Attitude RMS'', arms)]"
  shows "packet_handler ops notify d w TP_CNM (Fixed cnm) v =
       (case call_all notify w
               (map (\<lambda>client. ClientOnDriverMessage client ''event'' TP_CNM (Fixed cnm) v)
                    (web_clients d)
                @ (if app d then [AppOnMessage TP_NAV (Fixed nav) False] else [])
                @ map (\<lambda>client. ClientOnDriverMessage client ''event'' TP_NAV (Fixed nav) False)
                      (web_clients d)) of
          (f, w1, called) \<Rightarrow>
            (f, d\<lparr>msgs := (msgs d)(TP_CNM \<mapsto> CachedPacket (Fixed cnm))\<rparr>, w1, called))
     \<and> rms exact_ops (PFloat a) (PFloat b) (PFloat c) =
         Inr (PFloat (sqrt (a\<^sup>2 + b\<^sup>2 + c\<^sup>2)))"
proof -
  let ?cache = "(msgs d)(TP_CNM \<mapsto> CachedPacket (Fixed cnm))"
  have dom: "TP_KFN \<in> dom (msgs d)" "TP_GH \<in> dom (msgs d)"
    using assms(1,2) by auto
  have c: "?cache TP_KFN = Some (CachedPacket (Fixed kfn))"
    "?cache TP_GH = Some (CachedPacket (Fixed gh))"
    "?cache TP_CNM = Some (CachedPacket (Fixed cnm))"
    using assms(1,2) by (simp_all add: TP_distinct)
  have n: "nav_packet ops ?cache = Inr nav"
    unfolding assms(25)
    by (rule nav_packet_built [OF c assms(3-24)])
  have h: "packet_handler ops notify d w TP_CNM (Fixed cnm) v =
       (case call_all notify w
               (map (\<lambda>client. ClientOnDriverMessage client ''event'' TP_CNM (Fixed cnm) v)
                    (web_clients d)
                @ (if app d then [AppOnMessage TP_NAV (Fixed nav) False] else [])
                @ map (\<lambda>client. ClientOnDriverMessage client ''event'' TP_NAV (Fixed nav) False)
                      (web_clients d)) of
          (f, w1, called) \<Rightarrow> (f, d\<lparr>msgs := ?cache\<rparr>, w1, called))"
    unfolding packet_handler_CNM [OF dom] call_all_append [of notify w
        "map (\<lambda>client. ClientOnDriverMessage client ''event'' TP_CNM (Fixed cnm) v)
             (web_clients d)"]
    by (simp add: n push_events_def Let_def split: prod.splits option.splits)
  show ?thesis
    using h rms_exact by blast
qed

text \<open>
  Witness, the example of the specification: KFN with System time 100 and the three codes
  2, GH with Geoid height 10, and CNM with position RMS components 0.3, 0.4 and 0.0,
  Ellipsoidal height 110 and the identity quaternion give the NAV packet with System time
  100, Position mode STAND_ALONE, MSL height 100 and Position RMS 0.5.
\<close>

theorem packet_handler_nav_witness:
  "msgs nav_driver_sample TP_KFN = Some (CachedPacket (Fixed kfn_sample))
   \<and> msgs nav_driver_sample TP_GH = Some (CachedPacket (Fixed gh_sample))
   \<and> map_of kfn_sample ''Position mode'' = Some (PInt 2)
   \<and> py_int_key exact_ops (PInt 2) = Some 2
   \<and> packet_handler exact_ops notify_sample nav_driver_sample 0 TP_CNM (Fixed cnm_sample)
         False =
       (None,
        nav_driver_sample\<lparr>msgs := (msgs nav_driver_sample)
                                     (TP_CNM \<mapsto> CachedPacket (Fixed cnm_sample))\<rparr>,
        3,
        [ClientOnDriverMessage 7 ''event'' TP_CNM (Fixed cnm_sample) False,
         AppOnMessage TP_NAV (Fixed nav_sample) False,
         ClientOnDriverMessage 7 ''event'' TP_NAV (Fixed nav_sample) False])
   \<and> map_of nav_sample ''System time'' = Some (PInt 100)
   \<and> map_of nav_sample ''Position mode'' = Some (PStr ''STAND_ALONE'')
   \<and> map_of nav_sample ''MSL height'' = Some (PFloat 100)
   \<and> map_of nav_sample ''Position RMS'' = Some (PFloat (1 / 2))"
proof -
  have w: "web_clients nav_driver_sample = [7]" "app nav_driver_sample"
    by (simp_all add: nav_driver_sample_def)
  have c: "msgs nav_driver_sample TP_KFN = Some (CachedPacket (Fixed kfn_sample))"
    "msgs nav_driver_sample TP_GH = Some (CachedPacket (Fixed gh_sample))"
    by (simp_all add: nav_driver_sample_def TP_KFN_def TP_GH_def)
  have kf: "map (map_of kfn_sample)
           [''System time'', ''Position mode'', ''Velocity mode'', ''Attitude status''] =
         map Some [PFloat 100, PInt 2, PInt 2, PInt 2]"
    by (simp add: kfn_sample_def)
  have gf: "map_of gh_sample ''Geoid height'' = Some (PFloat 10)"
    by (simp add: gh_sample_def)
  have cr: "map (map_of cnm_sample)
           [''Position RMS-N'', ''Position RMS-E'', ''Position RMS-D'',
            ''Velocity RMS-N'', ''Velocity RMS-E'', ''Velocity RMS-D'',
            ''Attitude RMS-N'', ''Attitude RMS-E'', ''Attitude RMS-D'',
            ''Attitude quaternion-Scalar'', ''Attitude quaternion-X'',
            ''Attitude quaternion-Y'', ''Attitude quaternion-Z''] =
         map Some [PFloat (3 / 10), PFloat (4 / 10), PFloat 0, PFloat 0, PFloat 0, PFloat 0,
                   PFloat 0, PFloat 0, PFloat 0, PFloat 1, PFloat 0, PFloat 0, PFloat 0]"
    by (simp add: cnm_sample_def)
  have cf: "map (map_of cnm_sample)
           [''Time of week'', ''GPS week'', ''Latitude'', ''Longitude'',
            ''Ellipsoidal height'', ''Vel N'', ''Vel E'', ''Vel D''] =
         map Some [PFloat 0, PInt 0, PFloat 0, PFloat 0, PFloat 110, PFloat 0, PFloat 0,
                   PFloat 0]"
    by (simp add: cnm_sample_def)
  have nav: "nav_sample =
       [(''System time'', PInt 100), (''Time of week'', PFloat 0), (''GPS week'', PInt 0),
        (''Position mode'',
           PStr ([''INVALID'', ''DEAD_RECKON'', ''STAND_ALONE'', ''PRECISE_POINT_POSITIONING'',
                  ''CODE_DIFF'', ''RTK_FLOAT'', ''RTK_FIXED'', ''USER_AIDING''] ! nat 2)),
        (''Latitude'', PFloat 0), (''Longitude'', PFloat 0), (''Ellipsoidal height'', PFloat 110),
        (''MSL height'', PFloat 100), (''Position RMS'', PFloat (1 / 2)),
        (''Velocity mode'',
           PStr ([''INVALID'', ''DEAD_RECKON'', ''STAND_ALONE'', ''PRECISE_POINT_POSITIONING'',
                  ''CODE_DIFF'', ''RTK_FLOAT'', ''RTK_FIXED'', ''USER_AIDING''] ! nat 2)),
        (''Vel N'', PFloat 0), (''Vel E'', PFloat 0), (''Vel D'', PFloat 0),
        (''Velocity RMS'', PFloat 0),
        (''Attitude status'', PStr ([''INVALID'', ''COARSE'', ''FINE''] ! nat 2)),
        (''Roll'', PFloat 0), (''Pitch'', PFloat 0), (''Heading'', PFloat 0),
        (''Attitude RMS'', PFloat 0)]"
    by (simp add: nav_sample_def)
  have m: "map_of nav_sample ''System time'' = Some (PInt 100)"
    "map_of nav_sample ''Position mode'' = Some (PStr ''STAND_ALONE'')"
    "map_of nav_sample ''MSL height'' = Some (PFloat 100)"
    "map_of nav_sample ''Position RMS'' = Some (PFloat (1 / 2))"
    "map_of kfn_sample ''Position mode'' = Some (PInt 2)"
    by (simp_all add: nav_sample_def kfn_sample_def)
  have z: "(0 :: int) \<le> 2" "(2 :: int) \<le> 7" "(2 :: int) \<le> 2" by simp_all
  from packet_handler_nav [where ops = exact_ops and v = False and notify = notify_sample
        and w = 0,
      OF c kf gf cr cf
         exact_ops_sample(3) z(1,2) exact_ops_sample(3) z(1,2) exact_ops_sample(3) z(1,3)
         exact_ops_sample(2) exact_ops_sample(6) rms_sample_345 rms_sample_0 rms_sample_0
         exact_ops_sample(1) exact_ops_sample(7) exact_ops_sample(7) exact_ops_sample(7) nav,
      THEN conjunct1]
  show ?thesis
    by (simp add: c w m exact_ops_sample(3) notify_sample_def)
qed

text \<open>
  Counterexample to C8 as stated: with KFN, CNM and GH cached and a position mode of 8 in
  KFN, the table lookup raises \<^verbatim>\<open>KeyError\<close>; the CNM packet has been sent to the web client,
  and no NAV packet is pushed.
\<close>

theorem packet_handler_unknown_position_mode:
  "TP_KFN \<in> dom (msgs nav_driver_mode_8) \<and> TP_GH \<in> dom (msgs nav_driver_mode_8)
   \<and> msgs_item (msgs nav_driver_mode_8) TP_KFN ''Position mode'' = Inr (PInt 8)
   \<and> packet_handler exact_ops notify_sample nav_driver_mode_8 0 TP_CNM (Fixed cnm_sample)
         False =
       (Some (KeyError ''8''),
        nav_driver_mode_8\<lparr>msgs := (msgs nav_driver_mode_8)
                                     (TP_CNM \<mapsto> CachedPacket (Fixed cnm_sample))\<rparr>,
        1,
        [ClientOnDriverMessage 7 ''event'' TP_CNM (Fixed cnm_sample) False])"
proof -
  have w: "web_clients nav_driver_mode_8 = [7]"
    by (simp add: nav_driver_mode_8_def nav_driver_sample_def)
  show ?thesis
    by (simp add: packet_handler_CNM [OF nav_sample_dom(3,4)] nav_packet_mode_8 nav_sample_dom
        kfn_mode_8_items w notify_sample_def)
qed
end
